theory Spec2Isabelle
  imports Main "HOL-Library.Word"
begin

section \<open>EduBtM page splitting: edubtm\_SplitInternal and edubtm\_SplitLeaf\<close>

text \<open>
  A shallow embedding of \<^verbatim>\<open>4-EduBtM_64bit/edubtm_Split.c\<close>. The two splitters work on
  raw page buffers with \<^verbatim>\<open>memcpy\<close>, so a page's entry region is a list of bytes and an
  entry is whatever the bytes at its slot offset decode to. The slot directory
  \<^verbatim>\<open>slot[-1*i]\<close> is a function of the C index (0, -1, -2, ...). The pages live in a
  buffer memory indexed by the page number within one volume; \<^verbatim>\<open>fpage\<close> and \<^verbatim>\<open>npage\<close>
  are the numbers of the two buffers the code writes through, so that a third page, such
  as the next leaf of the chain, can be looked at after a call.

  The stored integer fields are words, little-endian; a stored key length or object
  count enters the arithmetic through \<open>unat\<close>. The length \<^verbatim>\<open>entryLen\<close> of a copy is
  computed from such a field and assigned to a 16-bit variable, so it is reduced modulo
  \<open>2\<^sup>1\<^sup>6\<close> as the assignment does: a stored key length of \<open>65535\<close> gives the internal
  splitter an \<^verbatim>\<open>entryLen\<close> of 5. The loop bound \<^verbatim>\<open>maxLoop\<close> is reduced in the same way,
  so a stored slot count of \<open>65535\<close> gives no iteration. The counters \<^verbatim>\<open>i\<close>, \<^verbatim>\<open>j\<close> and
  \<^verbatim>\<open>k\<close> are natural numbers that never pass \<^verbatim>\<open>maxLoop\<close>, and \<^verbatim>\<open>sum\<close> is a natural
  number that stays below \<open>2\<^sup>3\<^sup>2\<close>, as fewer than \<open>2\<^sup>1\<^sup>6\<close> lengths below \<open>2\<^sup>1\<^sup>6\<close> are added
  to it. The two offsets are natural numbers, the sums of the lengths so reduced: an
  offset of \<open>2\<^sup>1\<^sup>6\<close> or more means that \<open>2\<^sup>1\<^sup>6\<close> bytes have been copied into one entry
  region, and on the pages of the theorems below, whose entry regions are shorter than
  \<open>2\<^sup>1\<^sup>5\<close> bytes, they stay in the range of their C type. \<^verbatim>\<open>high\<close> stays an integer.
\<close>

subsection \<open>Scalar types and their bytes\<close>

text \<open>
  Modelled from the spec: the typedefs \<^verbatim>\<open>Two\<close> and \<^verbatim>\<open>ShortPageID\<close> and the structs of
  the entries and items are declared in headers that are not part of the sources.
  Section 6 gives the widths, 4 bytes for a child page identifier and 2 bytes for a key
  length or a record count, and the order of the fields of an entry.
\<close>

type_synonym byte = "8 word"
type_synonym Two = "16 word"
type_synonym ShortPageID = "32 word"

record PageID =
  pageNo :: ShortPageID
  volNo :: Two

definition sizeof_Two :: nat where
  "sizeof_Two = 2"

definition sizeof_ShortPageID :: nat where
  "sizeof_ShortPageID = 4"

text \<open>
  The value a variable of type \<^verbatim>\<open>Two\<close> holds after it is assigned the result of an
  arithmetic expression: the low 16 bits, read without a sign. Below \<open>2\<^sup>1\<^sup>5\<close> a signed
  \<^verbatim>\<open>Two\<close> holds the same value.
\<close>

definition to_Two :: "nat \<Rightarrow> nat" where
  "to_Two n = n mod 65536"

definition Two_bytes :: "Two \<Rightarrow> byte list" where
  "Two_bytes w = [of_nat (unat w mod 256), of_nat (unat w div 256)]"

definition Two_of_bytes :: "byte list \<Rightarrow> Two" where
  "Two_of_bytes bs = of_nat (unat (bs ! 0) + 256 * unat (bs ! 1))"

definition Four_bytes :: "ShortPageID \<Rightarrow> byte list" where
  "Four_bytes w = [of_nat (unat w mod 256), of_nat (unat w div 256 mod 256),
                   of_nat (unat w div 65536 mod 256), of_nat (unat w div 16777216)]"

definition Four_of_bytes :: "byte list \<Rightarrow> ShortPageID" where
  "Four_of_bytes bs = of_nat (unat (bs ! 0) + 256 * unat (bs ! 1)
                              + 65536 * unat (bs ! 2) + 16777216 * unat (bs ! 3))"

text \<open>
  \<^verbatim>\<open>memcpy(dst + doff, src + soff, n)\<close> on buffers: \<open>n\<close> bytes of \<open>src\<close> from \<open>soff\<close>
  replace the bytes of \<open>dst\<close> from \<open>doff\<close>. It is the C call where both ranges lie
  inside their buffers; C gives no meaning to any other call.
\<close>

definition memcpy :: "byte list \<Rightarrow> nat \<Rightarrow> byte list \<Rightarrow> nat \<Rightarrow> nat \<Rightarrow> byte list" where
  "memcpy dst doff src soff n = take doff dst @ take n (drop soff src) @ drop (doff + n) dst"

subsection \<open>Constants of the missing headers\<close>

text \<open>
  \<^verbatim>\<open>EduBtM_common.h\<close> and \<^verbatim>\<open>EduBtM_Internal.h\<close> are not part of the sources, so the
  constants and the macro the splitters take from them are parameters: the half-fill
  thresholds \<^verbatim>\<open>BI_HALF\<close> and \<^verbatim>\<open>BL_HALF\<close>, the macro \<^verbatim>\<open>ALIGNED_LENGTH\<close>, and the sizes
  \<^verbatim>\<open>sizeof(ObjectID)\<close> and \<^verbatim>\<open>sizeof(InternalItem)\<close>.
\<close>

record BtM_consts =
  BI_HALF :: nat
  BL_HALF :: nat
  ALIGNED_LENGTH :: "nat \<Rightarrow> nat"
  sizeof_ObjectID :: nat
  sizeof_InternalItem :: nat

subsection \<open>Pages and items\<close>

text \<open>
  The header fields the splitters read or write; an internal page adds the leftmost
  child \<^verbatim>\<open>p0\<close>, a leaf the two links of the leaf chain.
\<close>

record BtreeHdr =
  pid :: PageID
  nSlots :: nat
  free :: nat

record BtreeIHdr = BtreeHdr +
  p0 :: ShortPageID

record BtreeLHdr = BtreeHdr +
  prevPage :: ShortPageID
  nextPage :: ShortPageID

record 'h BtreePage =
  hdr :: 'h
  data :: "byte list"
  slot :: "int \<Rightarrow> nat"

type_synonym BtreeInternal = "BtreeIHdr BtreePage"
type_synonym BtreeLeaf = "BtreeLHdr BtreePage"

text \<open>
  \<^verbatim>\<open>InternalItem\<close> is \<^verbatim>\<open>{spid, klen, kval[MAXKEYLEN]}\<close> and \<^verbatim>\<open>LeafItem\<close> is
  \<^verbatim>\<open>{oid, nObjects, klen, kval[MAXKEYLEN]}\<close>; the key fields are shared here, and the
  functions below give each struct's bytes in the struct's own order. An
  \<^verbatim>\<open>ObjectID\<close> is kept as its \<^verbatim>\<open>sizeof(ObjectID)\<close> bytes.
\<close>

record KeyFields =
  klen :: Two
  kval :: "byte list"

record InternalItem = KeyFields +
  spid :: ShortPageID

record LeafItem = KeyFields +
  oid :: "byte list"
  nObjects :: Two

definition InternalItem_bytes :: "InternalItem \<Rightarrow> byte list" where
  "InternalItem_bytes it = Four_bytes (spid it) @ Two_bytes (klen it) @ kval it"

definition InternalItem_of_bytes :: "byte list \<Rightarrow> InternalItem" where
  "InternalItem_of_bytes bs =
     \<lparr>klen = Two_of_bytes (drop 4 bs), kval = drop 6 bs, spid = Four_of_bytes bs\<rparr>"

text \<open>The bytes from \<^verbatim>\<open>&item->nObjects\<close> on: \<^verbatim>\<open>nObjects\<close>, \<^verbatim>\<open>klen\<close>, \<^verbatim>\<open>kval\<close>.\<close>

definition LeafItem_bytes :: "LeafItem \<Rightarrow> byte list" where
  "LeafItem_bytes it = Two_bytes (nObjects it) @ Two_bytes (klen it) @ kval it"

text \<open>
  The fields of the entry that starts at offset \<open>off\<close> of an entry region, as
  \<^verbatim>\<open>btm_InternalEntry\<close> \<^verbatim>\<open>{spid, klen, kval[]}\<close> and \<^verbatim>\<open>btm_LeafEntry\<close>
  \<^verbatim>\<open>{nObjects, klen, kval[]}\<close> lay them out.
\<close>

definition IEntry_spid :: "byte list \<Rightarrow> nat \<Rightarrow> ShortPageID" where
  "IEntry_spid d off = Four_of_bytes (drop off d)"

definition IEntry_klen :: "byte list \<Rightarrow> nat \<Rightarrow> Two" where
  "IEntry_klen d off = Two_of_bytes (drop (off + 4) d)"

definition LEntry_nObjects :: "byte list \<Rightarrow> nat \<Rightarrow> Two" where
  "LEntry_nObjects d off = Two_of_bytes (drop off d)"

definition LEntry_klen :: "byte list \<Rightarrow> nat \<Rightarrow> Two" where
  "LEntry_klen d off = Two_of_bytes (drop (off + 2) d)"

subsection \<open>The state of the redistribution loop\<close>

text \<open>
  \<open>mem\<close> is the buffer memory; the other fields are the loop's local variables, the
  C variable \<^verbatim>\<open>sum\<close> under the name \<open>sum'\<close>.
\<close>

record 'h split_state =
  mem :: "ShortPageID \<Rightarrow> 'h BtreePage"
  j :: nat
  k :: nat
  sum' :: nat
  fEntryOffset :: nat
  nEntryOffset :: nat

definition split_init :: "(ShortPageID \<Rightarrow> 'h BtreePage) \<Rightarrow> 'h split_state" where
  "split_init m = \<lparr>mem = m, j = 0, k = 0, sum' = 0, fEntryOffset = 0, nEntryOffset = 0\<rparr>"

text \<open>
  The three statements after each copy: \<^verbatim>\<open>page->slot[-1*j] = off; off += entryLen;
  page->hdr.free = off\<close>, together with the copied bytes \<open>d\<close>.
\<close>

definition set_entry ::
  "('a BtreeHdr_scheme) BtreePage \<Rightarrow> byte list \<Rightarrow> nat \<Rightarrow> nat \<Rightarrow> nat \<Rightarrow> ('a BtreeHdr_scheme) BtreePage" where
  "set_entry page d n off entryLen =
     page\<lparr>data := d, slot := (slot page)(-1 * int n := off),
          hdr := (hdr page)\<lparr>free := off + entryLen\<rparr>\<rparr>"

subsection \<open>edubtm\_SplitInternal\<close>

text \<open>
  The copy of one merged entry into \<^verbatim>\<open>fpage\<close> (lines 116-135): the result is
  \<^verbatim>\<open>entryLen\<close> and the new entry region.
\<close>

definition SplitInternal_copy_f ::
  "BtM_consts \<Rightarrow> BtreeInternal \<Rightarrow> int \<Rightarrow> InternalItem \<Rightarrow> nat \<Rightarrow> byte list \<Rightarrow> nat \<Rightarrow> nat \<times> byte list" where
  "SplitInternal_copy_f c tpage high item i d off =
     (if int (i + 1) < high then
        (let fEntry = slot tpage (-1 * int i);
             entryLen = to_Two (sizeof_ShortPageID + sizeof_Two
                                  + unat (IEntry_klen (data tpage) fEntry))
         in (entryLen, memcpy d off (data tpage) fEntry entryLen))
      else if int (i + 1) = high then
        (let entryLen = to_Two (sizeof_ShortPageID + sizeof_Two
                                  + ALIGNED_LENGTH c (unat (klen item)))
         in (entryLen, memcpy d off (InternalItem_bytes item) 0 entryLen))
      else
        (let fEntry = slot tpage (-1 * (int i - 1));
             entryLen = to_Two (sizeof_ShortPageID + sizeof_Two
                                  + unat (IEntry_klen (data tpage) fEntry))
         in (entryLen, memcpy d off (data tpage) fEntry entryLen)))"

text \<open>The copy into \<^verbatim>\<open>npage\<close> (lines 144-163).\<close>

definition SplitInternal_copy_n ::
  "BtM_consts \<Rightarrow> BtreeInternal \<Rightarrow> int \<Rightarrow> InternalItem \<Rightarrow> nat \<Rightarrow> byte list \<Rightarrow> nat \<Rightarrow> nat \<times> byte list" where
  "SplitInternal_copy_n c tpage high item i d off =
     (if int (i + 1) < high then
        (let nEntry = slot tpage (-1 * int i);
             entryLen = to_Two (sizeof_ShortPageID + sizeof_Two
                                  + unat (IEntry_klen (data tpage) nEntry))
         in (entryLen, memcpy d off (data tpage) nEntry entryLen))
      else if int (i + 1) = high then
        (let entryLen = to_Two (sizeof_ShortPageID + sizeof_Two + unat (klen item))
         in (entryLen, memcpy d off (InternalItem_bytes item) 0 entryLen))
      else
        (let nEntry = slot tpage (-1 * (int i - 1));
             entryLen = to_Two (sizeof_ShortPageID + sizeof_Two
                                  + unat (IEntry_klen (data tpage) nEntry))
         in (entryLen, memcpy d off (data tpage) nEntry entryLen)))"

text \<open>The body of the loop for one value of \<open>i\<close> (lines 113-169).\<close>

definition SplitInternal_step ::
  "BtM_consts \<Rightarrow> BtreeInternal \<Rightarrow> ShortPageID \<Rightarrow> ShortPageID \<Rightarrow> int \<Rightarrow> InternalItem \<Rightarrow> nat
     \<Rightarrow> BtreeIHdr split_state \<Rightarrow> BtreeIHdr split_state" where
  "SplitInternal_step c tpage fpage npage high item i s =
     (if sum' s < BI_HALF c then
        (let (entryLen, d) =
               SplitInternal_copy_f c tpage high item i (data (mem s fpage)) (fEntryOffset s)
         in s\<lparr>mem := (mem s)(fpage := set_entry (mem s fpage) d (j s) (fEntryOffset s) entryLen),
              fEntryOffset := fEntryOffset s + entryLen,
              j := j s + 1,
              sum' := sum' s + entryLen + sizeof_Two\<rparr>)
      else
        (let (entryLen, d) =
               SplitInternal_copy_n c tpage high item i (data (mem s npage)) (nEntryOffset s)
         in s\<lparr>mem := (mem s)(npage := set_entry (mem s npage) d (k s) (nEntryOffset s) entryLen),
              nEntryOffset := nEntryOffset s + entryLen,
              k := k s + 1,
              sum' := sum' s + entryLen + sizeof_Two\<rparr>))"

text \<open>
  \<^verbatim>\<open>for (i=0; i < maxLoop; i++)\<close>: the state after the iterations \<open>i = 0, ..., n - 1\<close>.
\<close>

primrec SplitInternal_loop ::
  "BtM_consts \<Rightarrow> BtreeInternal \<Rightarrow> ShortPageID \<Rightarrow> ShortPageID \<Rightarrow> int \<Rightarrow> InternalItem
     \<Rightarrow> BtreeIHdr split_state \<Rightarrow> nat \<Rightarrow> BtreeIHdr split_state" where
  "SplitInternal_loop c tpage fpage npage high item s 0 = s"
| "SplitInternal_loop c tpage fpage npage high item s (Suc n) =
     SplitInternal_step c tpage fpage npage high item n
       (SplitInternal_loop c tpage fpage npage high item s n)"

subsection \<open>The Page Store\<close>

text \<open>
  Modelled from the spec: \<^verbatim>\<open>btm_AllocPage\<close>, \<^verbatim>\<open>edubtm_InitInternal\<close>,
  \<^verbatim>\<open>edubtm_InitLeaf\<close>, \<^verbatim>\<open>BfM_GetTrain\<close> and \<^verbatim>\<open>BfM_FreeTrain\<close> are not part of the
  sources. By the interface of section 6 each returns an error code, negative on
  failure; allocation yields the new page's identifier and pinning the buffer of that
  page. Their results are the fields of this record, and the buffer memory given to a
  splitter holds the new page as initialisation left it. \<^verbatim>\<open>ERR(e)\<close> returns \<open>e\<close>.
\<close>

record PageStore =
  e_AllocPage :: int
  newPid :: PageID
  e_Init :: int
  e_GetTrain :: int
  e_FreeTrain :: int

definition eNOERROR :: int where
  "eNOERROR = 0"

text \<open>
  The statements after the loop (lines 171-175): the child of the entry at \<^verbatim>\<open>npage\<close>'s
  slot 0 becomes \<^verbatim>\<open>npage->hdr.p0\<close>, and the two slot counts are stored.
\<close>

definition SplitInternal_finish ::
  "ShortPageID \<Rightarrow> ShortPageID \<Rightarrow> BtreeIHdr split_state \<Rightarrow> ShortPageID \<Rightarrow> BtreeInternal" where
  "SplitInternal_finish fpage npage s =
     (let m1 = mem s;
          nEntry = slot (m1 npage) 0;
          m2 = m1(npage := (m1 npage)\<lparr>hdr := (hdr (m1 npage))
                              \<lparr>p0 := IEntry_spid (data (m1 npage)) nEntry\<rparr>\<rparr>);
          m3 = m2(fpage := (m2 fpage)\<lparr>hdr := (hdr (m2 fpage))\<lparr>nSlots := j s\<rparr>\<rparr>);
          m4 = m3(npage := (m3 npage)\<lparr>hdr := (hdr (m3 npage))\<lparr>nSlots := k s\<rparr>\<rparr>)
      in m4)"

text \<open>
  The function: the result is the return value, the buffer memory and \<^verbatim>\<open>*ritem\<close>.
  \<open>fpage\<close> is the number of the buffer the caller's \<^verbatim>\<open>fpage\<close> points to. Line 177
  copies \<^verbatim>\<open>sizeof(InternalItem)\<close> bytes from the entry at \<^verbatim>\<open>npage\<close>'s slot 0 to
  \<^verbatim>\<open>*ritem\<close>.
\<close>

definition edubtm_SplitInternal ::
  "BtM_consts \<Rightarrow> PageStore \<Rightarrow> (ShortPageID \<Rightarrow> BtreeInternal) \<Rightarrow> ShortPageID \<Rightarrow> int
     \<Rightarrow> InternalItem \<Rightarrow> InternalItem \<Rightarrow> int \<times> (ShortPageID \<Rightarrow> BtreeInternal) \<times> InternalItem" where
  "edubtm_SplitInternal c ps m fpage high item ritem =
     (let tpage = m fpage in
      if e_AllocPage ps < 0 then (e_AllocPage ps, m, ritem)
      else if e_Init ps < 0 then (e_Init ps, m, ritem)
      else if e_GetTrain ps < 0 then (e_GetTrain ps, m, ritem)
      else
        (let npage = pageNo (newPid ps);
             maxLoop = to_Two (nSlots (hdr (m fpage)) + 1);
             s = SplitInternal_loop c tpage fpage npage high item (split_init m) maxLoop;
             m4 = SplitInternal_finish fpage npage s;
             nEntry = slot (m4 npage) 0;
             ritem' = InternalItem_of_bytes
                        (take (sizeof_InternalItem c) (drop nEntry (data (m4 npage))))
         in if e_FreeTrain ps < 0 then (e_FreeTrain ps, m4, ritem')
            else (eNOERROR, m4, ritem')))"

subsection \<open>edubtm\_SplitLeaf\<close>

text \<open>
  The copy of one merged entry (lines 264-286 into \<^verbatim>\<open>fpage\<close>, the same statements in
  lines 295-317 into \<^verbatim>\<open>npage\<close>); the item takes two \<^verbatim>\<open>memcpy\<close> calls.
\<close>

definition SplitLeaf_copy ::
  "BtM_consts \<Rightarrow> BtreeLeaf \<Rightarrow> int \<Rightarrow> LeafItem \<Rightarrow> nat \<Rightarrow> byte list \<Rightarrow> nat \<Rightarrow> nat \<times> byte list" where
  "SplitLeaf_copy c tpage high item i d off =
     (if int (i + 1) < high then
        (let fEntry = slot tpage (-1 * int i);
             entryLen = to_Two (2 * sizeof_Two
                                  + ALIGNED_LENGTH c (unat (LEntry_klen (data tpage) fEntry))
                                  + sizeof_ObjectID c)
         in (entryLen, memcpy d off (data tpage) fEntry entryLen))
      else if int (i + 1) = high then
        (let entryLen = to_Two (2 * sizeof_Two + ALIGNED_LENGTH c (unat (klen item)));
             d1 = memcpy d off (LeafItem_bytes item) 0 entryLen;
             d2 = memcpy d1 (off + entryLen) (oid item) 0 (sizeof_ObjectID c)
         in (to_Two (entryLen + sizeof_ObjectID c), d2))
      else
        (let fEntry = slot tpage (-1 * (int i - 1));
             entryLen = to_Two (2 * sizeof_Two
                                  + ALIGNED_LENGTH c (unat (LEntry_klen (data tpage) fEntry))
                                  + sizeof_ObjectID c)
         in (entryLen, memcpy d off (data tpage) fEntry entryLen)))"

definition SplitLeaf_step ::
  "BtM_consts \<Rightarrow> BtreeLeaf \<Rightarrow> ShortPageID \<Rightarrow> ShortPageID \<Rightarrow> int \<Rightarrow> LeafItem \<Rightarrow> nat
     \<Rightarrow> BtreeLHdr split_state \<Rightarrow> BtreeLHdr split_state" where
  "SplitLeaf_step c tpage fpage npage high item i s =
     (if sum' s < BL_HALF c then
        (let (entryLen, d) =
               SplitLeaf_copy c tpage high item i (data (mem s fpage)) (fEntryOffset s)
         in s\<lparr>mem := (mem s)(fpage := set_entry (mem s fpage) d (j s) (fEntryOffset s) entryLen),
              fEntryOffset := fEntryOffset s + entryLen,
              j := j s + 1,
              sum' := sum' s + entryLen + sizeof_Two\<rparr>)
      else
        (let (entryLen, d) =
               SplitLeaf_copy c tpage high item i (data (mem s npage)) (nEntryOffset s)
         in s\<lparr>mem := (mem s)(npage := set_entry (mem s npage) d (k s) (nEntryOffset s) entryLen),
              nEntryOffset := nEntryOffset s + entryLen,
              k := k s + 1,
              sum' := sum' s + entryLen + sizeof_Two\<rparr>))"

primrec SplitLeaf_loop ::
  "BtM_consts \<Rightarrow> BtreeLeaf \<Rightarrow> ShortPageID \<Rightarrow> ShortPageID \<Rightarrow> int \<Rightarrow> LeafItem
     \<Rightarrow> BtreeLHdr split_state \<Rightarrow> nat \<Rightarrow> BtreeLHdr split_state" where
  "SplitLeaf_loop c tpage fpage npage high item s 0 = s"
| "SplitLeaf_loop c tpage fpage npage high item s (Suc n) =
     SplitLeaf_step c tpage fpage npage high item n
       (SplitLeaf_loop c tpage fpage npage high item s n)"

text \<open>
  The statements after the loop (lines 325-331): the two slot counts, then the new page
  is linked into the leaf chain behind \<^verbatim>\<open>fpage\<close>.
\<close>

definition SplitLeaf_finish ::
  "ShortPageID \<Rightarrow> ShortPageID \<Rightarrow> BtreeLHdr split_state \<Rightarrow> ShortPageID \<Rightarrow> BtreeLeaf" where
  "SplitLeaf_finish fpage npage s =
     (let m1 = mem s;
          m2 = m1(fpage := (m1 fpage)\<lparr>hdr := (hdr (m1 fpage))\<lparr>nSlots := j s\<rparr>\<rparr>);
          m3 = m2(npage := (m2 npage)\<lparr>hdr := (hdr (m2 npage))\<lparr>nSlots := k s\<rparr>\<rparr>);
          m4 = m3(npage := (m3 npage)\<lparr>hdr := (hdr (m3 npage))
                              \<lparr>prevPage := pageNo (pid (hdr (m3 fpage)))\<rparr>\<rparr>);
          m5 = m4(npage := (m4 npage)\<lparr>hdr := (hdr (m4 npage))
                              \<lparr>nextPage := nextPage (hdr (m4 fpage))\<rparr>\<rparr>);
          m6 = m5(fpage := (m5 fpage)\<lparr>hdr := (hdr (m5 fpage))
                              \<lparr>nextPage := pageNo (pid (hdr (m5 npage)))\<rparr>\<rparr>)
      in m6)"

text \<open>
  \<^verbatim>\<open>root\<close> is a parameter the C function never reads. The up-entry takes the new
  page's number and, by the \<^verbatim>\<open>memcpy\<close> of line 336, the
  \<^verbatim>\<open>sizeof(InternalItem) - sizeof(ShortPageID)\<close> bytes from \<^verbatim>\<open>&nEntry->klen\<close> on.
\<close>

definition edubtm_SplitLeaf ::
  "BtM_consts \<Rightarrow> PageStore \<Rightarrow> (ShortPageID \<Rightarrow> BtreeLeaf) \<Rightarrow> PageID \<Rightarrow> ShortPageID \<Rightarrow> int
     \<Rightarrow> LeafItem \<Rightarrow> InternalItem \<Rightarrow> int \<times> (ShortPageID \<Rightarrow> BtreeLeaf) \<times> InternalItem" where
  "edubtm_SplitLeaf c ps m root fpage high item ritem =
     (let tpage = m fpage in
      if e_AllocPage ps < 0 then (e_AllocPage ps, m, ritem)
      else if e_Init ps < 0 then (e_Init ps, m, ritem)
      else if e_GetTrain ps < 0 then (e_GetTrain ps, m, ritem)
      else
        (let npage = pageNo (newPid ps);
             maxLoop = to_Two (nSlots (hdr (m fpage)) + 1);
             s = SplitLeaf_loop c tpage fpage npage high item (split_init m) maxLoop;
             m6 = SplitLeaf_finish fpage npage s;
             nEntry = slot (m6 npage) 0;
             kbytes = take (sizeof_InternalItem c - sizeof_ShortPageID)
                        (drop (nEntry + sizeof_Two) (data (m6 npage)));
             ritem' = \<lparr>klen = Two_of_bytes kbytes, kval = drop sizeof_Two kbytes,
                       spid = pageNo (pid (hdr (m6 npage)))\<rparr>
         in if e_FreeTrain ps < 0 then (e_FreeTrain ps, m6, ritem')
            else (eNOERROR, m6, ritem')))"

subsection \<open>Entries as values\<close>

text \<open>
  What a reader of a page sees at a slot: an internal entry is its child, its key
  length and the \<open>klen\<close> key bytes; a leaf entry is its object count, its key length,
  the key bytes and the \<open>nObjects\<close> object identifiers stored behind the aligned key.
\<close>

definition IEntry_at :: "byte list \<Rightarrow> nat \<Rightarrow> ShortPageID \<times> Two \<times> byte list" where
  "IEntry_at d off =
     (IEntry_spid d off, IEntry_klen d off, take (unat (IEntry_klen d off)) (drop (off + 6) d))"

definition internal_entries :: "BtreeInternal \<Rightarrow> (ShortPageID \<times> Two \<times> byte list) list" where
  "internal_entries p = map (\<lambda>i. IEntry_at (data p) (slot p (- int i))) [0..<nSlots (hdr p)]"

definition InternalItem_entry :: "InternalItem \<Rightarrow> ShortPageID \<times> Two \<times> byte list" where
  "InternalItem_entry it = (spid it, klen it, take (unat (klen it)) (kval it))"

definition LEntry_at :: "BtM_consts \<Rightarrow> byte list \<Rightarrow> nat \<Rightarrow> Two \<times> Two \<times> byte list \<times> byte list" where
  "LEntry_at c d off =
     (LEntry_nObjects d off, LEntry_klen d off,
      take (unat (LEntry_klen d off)) (drop (off + 4) d),
      take (unat (LEntry_nObjects d off) * sizeof_ObjectID c)
        (drop (off + 4 + ALIGNED_LENGTH c (unat (LEntry_klen d off))) d))"

definition leaf_entries :: "BtM_consts \<Rightarrow> BtreeLeaf \<Rightarrow> (Two \<times> Two \<times> byte list \<times> byte list) list" where
  "leaf_entries c p = map (\<lambda>i. LEntry_at c (data p) (slot p (- int i))) [0..<nSlots (hdr p)]"

definition LeafItem_entry :: "LeafItem \<Rightarrow> Two \<times> Two \<times> byte list \<times> byte list" where
  "LeafItem_entry it = (nObjects it, klen it, take (unat (klen it)) (kval it), oid it)"

text \<open>The merged sequence: \<open>x\<close> put at the 1-based position \<open>high\<close> of \<open>xs\<close>.\<close>

definition merged :: "int \<Rightarrow> 'a \<Rightarrow> 'a list \<Rightarrow> 'a list" where
  "merged high x xs = take (nat (high - 1)) xs @ x # drop (nat (high - 1)) xs"

subsection \<open>Well-formed inputs\<close>

text \<open>
  A page the splitters can be given: offsets and counts fit the C type \<^verbatim>\<open>Two\<close>, and
  every entry lies inside the entry region with the length the splitter copies. An item
  is well-formed when its key, padded to the aligned length, lies inside \<^verbatim>\<open>kval\<close>.
\<close>

definition wf_internal :: "BtreeInternal \<Rightarrow> bool" where
  "wf_internal p \<longleftrightarrow>
     length (data p) < 32768 \<and> nSlots (hdr p) < 32767 \<and>
     list_all (\<lambda>i. slot p (- int i) + 6 + unat (IEntry_klen (data p) (slot p (- int i)))
                      \<le> length (data p)) [0..<nSlots (hdr p)]"

definition wf_InternalItem :: "BtM_consts \<Rightarrow> InternalItem \<Rightarrow> bool" where
  "wf_InternalItem c it \<longleftrightarrow>
     length (kval it) < 32768 \<and>
     unat (klen it) \<le> ALIGNED_LENGTH c (unat (klen it)) \<and>
     ALIGNED_LENGTH c (unat (klen it)) \<le> length (kval it)"

text \<open>
  A leaf entry is copied with room for one object identifier, so a leaf page is
  well-formed for the splitter when each entry holds exactly one.
\<close>

definition wf_leaf :: "BtM_consts \<Rightarrow> BtreeLeaf \<Rightarrow> bool" where
  "wf_leaf c p \<longleftrightarrow>
     length (data p) < 32768 \<and> nSlots (hdr p) < 32767 \<and>
     list_all (\<lambda>i. unat (LEntry_nObjects (data p) (slot p (- int i))) = 1 \<and>
                   unat (LEntry_klen (data p) (slot p (- int i)))
                      \<le> ALIGNED_LENGTH c (unat (LEntry_klen (data p) (slot p (- int i)))) \<and>
                   slot p (- int i) + 4
                      + ALIGNED_LENGTH c (unat (LEntry_klen (data p) (slot p (- int i))))
                      + sizeof_ObjectID c \<le> length (data p)) [0..<nSlots (hdr p)]"

definition wf_LeafItem :: "BtM_consts \<Rightarrow> LeafItem \<Rightarrow> bool" where
  "wf_LeafItem c it \<longleftrightarrow>
     length (kval it) < 32768 \<and>
     unat (nObjects it) = 1 \<and> length (oid it) = sizeof_ObjectID c \<and>
     unat (klen it) \<le> ALIGNED_LENGTH c (unat (klen it)) \<and>
     ALIGNED_LENGTH c (unat (klen it)) \<le> length (kval it)"

text \<open>
  The copies of a split stay inside the two entry regions: after the loop
  \<^verbatim>\<open>hdr.free\<close> of a page is the end of the last entry copied to it. \<open>m\<close> is the buffer
  memory before the call and \<open>m'\<close> after it.
\<close>

definition split_fits ::
  "(ShortPageID \<Rightarrow> ('a BtreeHdr_scheme) BtreePage) \<Rightarrow> (ShortPageID \<Rightarrow> ('a BtreeHdr_scheme) BtreePage)
     \<Rightarrow> ShortPageID \<Rightarrow> ShortPageID \<Rightarrow> bool" where
  "split_fits m m' fpage npage \<longleftrightarrow>
     free (hdr (m' fpage)) \<le> length (data (m fpage)) \<and>
     free (hdr (m' npage)) \<le> length (data (m npage)) \<and>
     length (data (m npage)) < 32768"

subsection \<open>The common shape of the two loops\<close>

text \<open>
  Both loops are the same walk with a different copy; the shared shape is used for the
  proofs only. \<open>copy_f i d off\<close> and \<open>copy_n i d off\<close> stand for the copy of the merged
  entry \<open>i\<close> to offset \<open>off\<close> of the entry region \<open>d\<close>.
\<close>

definition pack_step ::
  "nat \<Rightarrow> (nat \<Rightarrow> byte list \<Rightarrow> nat \<Rightarrow> nat \<times> byte list) \<Rightarrow> (nat \<Rightarrow> byte list \<Rightarrow> nat \<Rightarrow> nat \<times> byte list)
     \<Rightarrow> ShortPageID \<Rightarrow> ShortPageID \<Rightarrow> nat
     \<Rightarrow> ('a BtreeHdr_scheme) split_state \<Rightarrow> ('a BtreeHdr_scheme) split_state" where
  "pack_step HALF copy_f copy_n fpage npage i s =
     (if sum' s < HALF then
        (let (entryLen, d) = copy_f i (data (mem s fpage)) (fEntryOffset s)
         in s\<lparr>mem := (mem s)(fpage := set_entry (mem s fpage) d (j s) (fEntryOffset s) entryLen),
              fEntryOffset := fEntryOffset s + entryLen,
              j := j s + 1,
              sum' := sum' s + entryLen + sizeof_Two\<rparr>)
      else
        (let (entryLen, d) = copy_n i (data (mem s npage)) (nEntryOffset s)
         in s\<lparr>mem := (mem s)(npage := set_entry (mem s npage) d (k s) (nEntryOffset s) entryLen),
              nEntryOffset := nEntryOffset s + entryLen,
              k := k s + 1,
              sum' := sum' s + entryLen + sizeof_Two\<rparr>))"

primrec pack_loop ::
  "nat \<Rightarrow> (nat \<Rightarrow> byte list \<Rightarrow> nat \<Rightarrow> nat \<times> byte list) \<Rightarrow> (nat \<Rightarrow> byte list \<Rightarrow> nat \<Rightarrow> nat \<times> byte list)
     \<Rightarrow> ShortPageID \<Rightarrow> ShortPageID
     \<Rightarrow> ('a BtreeHdr_scheme) split_state \<Rightarrow> nat \<Rightarrow> ('a BtreeHdr_scheme) split_state" where
  "pack_loop HALF copy_f copy_n fpage npage s 0 = s"
| "pack_loop HALF copy_f copy_n fpage npage s (Suc n) =
     pack_step HALF copy_f copy_n fpage npage n (pack_loop HALF copy_f copy_n fpage npage s n)"

text \<open>
  A copy that behaves as one write of a fixed chunk of bytes: its length and its bytes
  are what it gives on the empty region.
\<close>

definition chunk_len :: "(nat \<Rightarrow> byte list \<Rightarrow> nat \<Rightarrow> nat \<times> byte list) \<Rightarrow> nat \<Rightarrow> nat" where
  "chunk_len copy i = fst (copy i [] 0)"

definition chunk :: "(nat \<Rightarrow> byte list \<Rightarrow> nat \<Rightarrow> nat \<times> byte list) \<Rightarrow> nat \<Rightarrow> byte list" where
  "chunk copy i = snd (copy i [] 0)"

definition chunk_copy :: "(nat \<Rightarrow> byte list \<Rightarrow> nat \<Rightarrow> nat \<times> byte list) \<Rightarrow> nat \<Rightarrow> bool" where
  "chunk_copy copy n \<longleftrightarrow>
     (\<forall>i<n. length (chunk copy i) = chunk_len copy i \<and>
       (\<forall>d off. off \<le> length d \<longrightarrow>
          copy i d off = (chunk_len copy i, take off d @ chunk copy i @ drop (off + chunk_len copy i) d)))"

text \<open>The offset of chunk \<open>t\<close> when the chunks \<open>a, a + 1, ...\<close> are laid side by side.\<close>

definition chunks :: "(nat \<Rightarrow> byte list \<Rightarrow> nat \<Rightarrow> nat \<times> byte list) \<Rightarrow> nat \<Rightarrow> nat \<Rightarrow> byte list" where
  "chunks copy a b = concat (map (chunk copy) [a..<b])"

subsection \<open>Concrete pages\<close>

text \<open>
  Small instances of the constants and of the inputs, used to run the two splitters.
\<close>

definition ex_consts :: BtM_consts where
  "ex_consts = \<lparr>BI_HALF = 24, BL_HALF = 28, ALIGNED_LENGTH = (\<lambda>l. (l + 3) div 4 * 4),
                 sizeof_ObjectID = 4, sizeof_InternalItem = 14\<rparr>"

definition ex_store :: PageStore where
  "ex_store = \<lparr>e_AllocPage = 0, newPid = \<lparr>pageNo = 2, volNo = 0\<rparr>, e_Init = 0,
                e_GetTrain = 0, e_FreeTrain = 0\<rparr>"

definition ex_store_fail :: PageStore where
  "ex_store_fail = \<lparr>e_AllocPage = -1, newPid = \<lparr>pageNo = 2, volNo = 0\<rparr>, e_Init = 0,
                     e_GetTrain = 0, e_FreeTrain = 0\<rparr>"

definition ex_IEntry :: "ShortPageID \<Rightarrow> byte \<Rightarrow> byte list" where
  "ex_IEntry child key = Four_bytes child @ Two_bytes 4 @ [key, 0, 0, 0]"

definition ex_ipage :: BtreeInternal where
  "ex_ipage = \<lparr>hdr = \<lparr>pid = \<lparr>pageNo = 1, volNo = 0\<rparr>, nSlots = 4, free = 40, p0 = 100\<rparr>,
                data = ex_IEntry 101 10 @ ex_IEntry 102 20 @ ex_IEntry 103 30 @ ex_IEntry 104 40
                       @ replicate 24 0,
                slot = (\<lambda>i. nat (- i) * 10)\<rparr>"

definition ex_inew :: BtreeInternal where
  "ex_inew = \<lparr>hdr = \<lparr>pid = \<lparr>pageNo = 2, volNo = 0\<rparr>, nSlots = 0, free = 0, p0 = 0\<rparr>,
               data = replicate 64 0, slot = (\<lambda>i. 0)\<rparr>"

definition ex_imem :: "ShortPageID \<Rightarrow> BtreeInternal" where
  "ex_imem = (\<lambda>p. ex_inew)(1 := ex_ipage)"

definition ex_iitem :: InternalItem where
  "ex_iitem = \<lparr>klen = 4, kval = [25, 0, 0, 0, 0, 0, 0, 0], spid = 105\<rparr>"

definition ex_ritem :: InternalItem where
  "ex_ritem = \<lparr>klen = 0, kval = [], spid = 0\<rparr>"

text \<open>An internal page whose three keys are 3 bytes long, stored at aligned offsets.\<close>

definition ex_IEntry3 :: "ShortPageID \<Rightarrow> byte \<Rightarrow> byte list" where
  "ex_IEntry3 child key = Four_bytes child @ Two_bytes 3 @ [key, key, key, 0]"

definition ex_ipage3 :: BtreeInternal where
  "ex_ipage3 = \<lparr>hdr = \<lparr>pid = \<lparr>pageNo = 1, volNo = 0\<rparr>, nSlots = 3, free = 30, p0 = 100\<rparr>,
                 data = ex_IEntry3 101 10 @ ex_IEntry3 102 20 @ ex_IEntry3 103 30 @ replicate 34 0,
                 slot = (\<lambda>i. nat (- i) * 10)\<rparr>"

definition ex_imem3 :: "ShortPageID \<Rightarrow> BtreeInternal" where
  "ex_imem3 = (\<lambda>p. ex_inew)(1 := ex_ipage3)"

definition ex_iitem3 :: InternalItem where
  "ex_iitem3 = \<lparr>klen = 3, kval = [40, 40, 40, 0, 0, 0, 0, 0], spid = 104\<rparr>"

text \<open>
  The same four entries as \<open>ex_ipage\<close> in another buffer: page 5, the entries stored
  back to front; the new page is then page 6.
\<close>

definition ex_ipage' :: BtreeInternal where
  "ex_ipage' = \<lparr>hdr = \<lparr>pid = \<lparr>pageNo = 5, volNo = 0\<rparr>, nSlots = 4, free = 44, p0 = 100\<rparr>,
                 data = [7, 7, 7, 7] @ ex_IEntry 104 40 @ ex_IEntry 103 30 @ ex_IEntry 102 20
                        @ ex_IEntry 101 10 @ replicate 20 9,
                 slot = (\<lambda>i. 34 - nat (- i) * 10)\<rparr>"

definition ex_inew' :: BtreeInternal where
  "ex_inew' = \<lparr>hdr = \<lparr>pid = \<lparr>pageNo = 6, volNo = 0\<rparr>, nSlots = 0, free = 0, p0 = 0\<rparr>,
                data = replicate 64 255, slot = (\<lambda>i. 3)\<rparr>"

definition ex_imem' :: "ShortPageID \<Rightarrow> BtreeInternal" where
  "ex_imem' = (\<lambda>p. ex_inew')(5 := ex_ipage')"

definition ex_store' :: PageStore where
  "ex_store' = \<lparr>e_AllocPage = 0, newPid = \<lparr>pageNo = 6, volNo = 0\<rparr>, e_Init = 0,
                 e_GetTrain = 0, e_FreeTrain = 0\<rparr>"

text \<open>
  A leaf with the keys 10, 20, 30, 40, one object each, between no page and page 7.
\<close>

definition ex_LEntry :: "byte \<Rightarrow> byte \<Rightarrow> byte list" where
  "ex_LEntry key obj = Two_bytes 1 @ Two_bytes 4 @ [key, 0, 0, 0] @ [obj, 0, 0, 0]"

definition ex_lpage :: BtreeLeaf where
  "ex_lpage = \<lparr>hdr = \<lparr>pid = \<lparr>pageNo = 1, volNo = 0\<rparr>, nSlots = 4, free = 48,
                       prevPage = 0, nextPage = 7\<rparr>,
                data = ex_LEntry 10 1 @ ex_LEntry 20 2 @ ex_LEntry 30 3 @ ex_LEntry 40 4
                       @ replicate 16 0,
                slot = (\<lambda>i. nat (- i) * 12)\<rparr>"

definition ex_lnew :: BtreeLeaf where
  "ex_lnew = \<lparr>hdr = \<lparr>pid = \<lparr>pageNo = 2, volNo = 0\<rparr>, nSlots = 0, free = 0,
                      prevPage = 0, nextPage = 0\<rparr>,
               data = replicate 64 0, slot = (\<lambda>i. 0)\<rparr>"

definition ex_lnext :: BtreeLeaf where
  "ex_lnext = \<lparr>hdr = \<lparr>pid = \<lparr>pageNo = 7, volNo = 0\<rparr>, nSlots = 0, free = 0,
                       prevPage = 1, nextPage = 0\<rparr>,
                data = replicate 64 0, slot = (\<lambda>i. 0)\<rparr>"

definition ex_lmem :: "ShortPageID \<Rightarrow> BtreeLeaf" where
  "ex_lmem = (\<lambda>p. ex_lnew)(1 := ex_lpage, 7 := ex_lnext)"

definition ex_litem :: LeafItem where
  "ex_litem = \<lparr>klen = 4, kval = [25, 0, 0, 0, 0, 0, 0, 0], oid = [9, 0, 0, 0], nObjects = 1\<rparr>"

definition ex_root :: PageID where
  "ex_root = \<lparr>pageNo = 1, volNo = 0\<rparr>"

text \<open>
  The same four leaf entries in another buffer: page 5, stored back to front, new page 6.
\<close>

definition ex_lpage' :: BtreeLeaf where
  "ex_lpage' = \<lparr>hdr = \<lparr>pid = \<lparr>pageNo = 5, volNo = 0\<rparr>, nSlots = 4, free = 52,
                        prevPage = 3, nextPage = 8\<rparr>,
                 data = [7, 7, 7, 7] @ ex_LEntry 40 4 @ ex_LEntry 30 3 @ ex_LEntry 20 2
                        @ ex_LEntry 10 1 @ replicate 12 9,
                 slot = (\<lambda>i. 40 - nat (- i) * 12)\<rparr>"

definition ex_lnew' :: BtreeLeaf where
  "ex_lnew' = \<lparr>hdr = \<lparr>pid = \<lparr>pageNo = 6, volNo = 0\<rparr>, nSlots = 0, free = 0,
                       prevPage = 0, nextPage = 0\<rparr>,
                data = replicate 64 255, slot = (\<lambda>i. 3)\<rparr>"

definition ex_lmem' :: "ShortPageID \<Rightarrow> BtreeLeaf" where
  "ex_lmem' = (\<lambda>p. ex_lnew')(5 := ex_lpage')"

text \<open>
  A leaf whose first entry holds two object identifiers (16 bytes), followed by an
  entry with one.
\<close>

definition ex_lpage2 :: BtreeLeaf where
  "ex_lpage2 = \<lparr>hdr = \<lparr>pid = \<lparr>pageNo = 1, volNo = 0\<rparr>, nSlots = 2, free = 28,
                        prevPage = 0, nextPage = 0\<rparr>,
                 data = (Two_bytes 2 @ Two_bytes 4 @ [10, 0, 0, 0] @ [1, 0, 0, 0] @ [2, 0, 0, 0])
                        @ ex_LEntry 20 3 @ replicate 36 0,
                 slot = (\<lambda>i. nat (- i) * 16)\<rparr>"

definition ex_lmem2 :: "ShortPageID \<Rightarrow> BtreeLeaf" where
  "ex_lmem2 = (\<lambda>p. ex_lnew)(1 := ex_lpage2)"

text \<open>
  A leaf whose last entry holds two object identifiers, in a memory whose other buffers
  are filled with zeros and in one whose other buffers are filled with ones.
\<close>

definition ex_lpage3 :: BtreeLeaf where
  "ex_lpage3 = \<lparr>hdr = \<lparr>pid = \<lparr>pageNo = 1, volNo = 0\<rparr>, nSlots = 2, free = 28,
                        prevPage = 0, nextPage = 0\<rparr>,
                 data = ex_LEntry 30 3
                        @ (Two_bytes 2 @ Two_bytes 4 @ [40, 0, 0, 0] @ [4, 0, 0, 0] @ [5, 0, 0, 0])
                        @ replicate 36 0,
                 slot = (\<lambda>i. nat (- i) * 12)\<rparr>"

definition ex_lmem3 :: "ShortPageID \<Rightarrow> BtreeLeaf" where
  "ex_lmem3 = (\<lambda>p. ex_lnew)(1 := ex_lpage3)"

definition ex_lmem3' :: "ShortPageID \<Rightarrow> BtreeLeaf" where
  "ex_lmem3' = (\<lambda>p. ex_lnew')(1 := ex_lpage3)"

text \<open>The page with the 3-byte keys in a memory whose other buffers are filled with ones.\<close>

definition ex_imem3' :: "ShortPageID \<Rightarrow> BtreeInternal" where
  "ex_imem3' = (\<lambda>p. ex_inew')(1 := ex_ipage3)"


section \<open>Properties of the redistribution loop\<close>

subsection \<open>The two loops are instances of the common shape\<close>

lemma SplitInternal_step_pack:
  "SplitInternal_step c tpage fpage npage high item i s =
     pack_step (BI_HALF c) (SplitInternal_copy_f c tpage high item)
       (SplitInternal_copy_n c tpage high item) fpage npage i s"
  by (simp add: SplitInternal_step_def pack_step_def)

lemma SplitInternal_loop_pack:
  "SplitInternal_loop c tpage fpage npage high item s n =
     pack_loop (BI_HALF c) (SplitInternal_copy_f c tpage high item)
       (SplitInternal_copy_n c tpage high item) fpage npage s n"
  by (induction n) (simp_all add: SplitInternal_step_pack)

lemma SplitLeaf_step_pack:
  "SplitLeaf_step c tpage fpage npage high item i s =
     pack_step (BL_HALF c) (SplitLeaf_copy c tpage high item)
       (SplitLeaf_copy c tpage high item) fpage npage i s"
  by (simp add: SplitLeaf_step_def pack_step_def)

lemma SplitLeaf_loop_pack:
  "SplitLeaf_loop c tpage fpage npage high item s n =
     pack_loop (BL_HALF c) (SplitLeaf_copy c tpage high item)
       (SplitLeaf_copy c tpage high item) fpage npage s n"
  by (induction n) (simp_all add: SplitLeaf_step_pack)

subsection \<open>One step\<close>

lemma pack_step_f:
  "sum' s < H \<Longrightarrow>
   pack_step H cf cn fp np i s =
     s\<lparr>mem := (mem s)(fp := set_entry (mem s fp) (snd (cf i (data (mem s fp)) (fEntryOffset s)))
                              (j s) (fEntryOffset s) (fst (cf i (data (mem s fp)) (fEntryOffset s)))),
       fEntryOffset := fEntryOffset s + fst (cf i (data (mem s fp)) (fEntryOffset s)),
       j := j s + 1,
       sum' := sum' s + fst (cf i (data (mem s fp)) (fEntryOffset s)) + 2\<rparr>"
  by (simp add: pack_step_def split_beta sizeof_Two_def)

lemma pack_step_n:
  "\<not> sum' s < H \<Longrightarrow>
   pack_step H cf cn fp np i s =
     s\<lparr>mem := (mem s)(np := set_entry (mem s np) (snd (cn i (data (mem s np)) (nEntryOffset s)))
                              (k s) (nEntryOffset s) (fst (cn i (data (mem s np)) (nEntryOffset s)))),
       nEntryOffset := nEntryOffset s + fst (cn i (data (mem s np)) (nEntryOffset s)),
       k := k s + 1,
       sum' := sum' s + fst (cn i (data (mem s np)) (nEntryOffset s)) + 2\<rparr>"
  by (simp add: pack_step_def split_beta sizeof_Two_def)

lemma set_entry_simps:
  "data (set_entry p d n off l) = d"
  "slot (set_entry p d n off l) = (slot p)(- int n := off)"
  "hdr (set_entry p d n off l) = (hdr p)\<lparr>free := off + l\<rparr>"
  by (simp_all add: set_entry_def)

subsection \<open>Counters\<close>

lemma pack_loop_counts:
  "j (pack_loop H cf cn fp np (split_init m) n) + k (pack_loop H cf cn fp np (split_init m) n) = n
   \<and> (0 < k (pack_loop H cf cn fp np (split_init m) n)
        \<longrightarrow> H \<le> sum' (pack_loop H cf cn fp np (split_init m) n))"
proof (induction n)
  case 0
  show ?case by (simp add: split_init_def)
next
  case (Suc n)
  let ?s = "pack_loop H cf cn fp np (split_init m) n"
  show ?case
  proof (cases "sum' ?s < H")
    case True
    with Suc show ?thesis by (simp add: pack_step_f)
  next
    case False
    with Suc show ?thesis by (simp add: pack_step_n)
  qed
qed

lemma pack_loop_j_k: "j (pack_loop H cf cn fp np (split_init m) n) + k (pack_loop H cf cn fp np (split_init m) n) = n"
  using pack_loop_counts by blast



subsection \<open>Frame\<close>

lemma pack_step_frame:
  "q \<noteq> fp \<Longrightarrow> q \<noteq> np \<Longrightarrow> mem (pack_step H cf cn fp np i s) q = mem s q"
  by (cases "sum' s < H") (simp_all add: pack_step_f pack_step_n)

lemma pack_loop_frame:
  "q \<noteq> fp \<Longrightarrow> q \<noteq> np \<Longrightarrow> mem (pack_loop H cf cn fp np s n) q = mem s q"
  by (induction n) (simp_all add: pack_step_frame)

lemma pack_step_hdr:
  "pid (hdr (mem (pack_step H cf cn fp np i s) q)) = pid (hdr (mem s q)) \<and>
   nSlots (hdr (mem (pack_step H cf cn fp np i s) q)) = nSlots (hdr (mem s q)) \<and>
   BtreeHdr.more (hdr (mem (pack_step H cf cn fp np i s) q)) = BtreeHdr.more (hdr (mem s q))"
  by (cases "sum' s < H") (simp_all add: pack_step_f pack_step_n set_entry_simps)

lemma pack_loop_hdr:
  "pid (hdr (mem (pack_loop H cf cn fp np s n) q)) = pid (hdr (mem s q)) \<and>
   nSlots (hdr (mem (pack_loop H cf cn fp np s n) q)) = nSlots (hdr (mem s q)) \<and>
   BtreeHdr.more (hdr (mem (pack_loop H cf cn fp np s n) q)) = BtreeHdr.more (hdr (mem s q))"
  by (induction n) (simp_all add: pack_step_hdr)

subsection \<open>Contents of the two pages after the walk\<close>

lemma chunk_copy_mono: "chunk_copy copy (Suc n) \<Longrightarrow> chunk_copy copy n"
  by (simp add: chunk_copy_def)

lemma chunk_copy_write:
  "chunk_copy copy (Suc n) \<Longrightarrow> off \<le> length d \<Longrightarrow>
   copy n d off = (length (chunk copy n), take off d @ chunk copy n @ drop (off + length (chunk copy n)) d)"
  by (simp add: chunk_copy_def)

lemma chunks_Suc: "a \<le> b \<Longrightarrow> chunks copy a (Suc b) = chunks copy a b @ chunk copy b"
  by (simp add: chunks_def)

lemma chunks_empty: "chunks copy a a = []"
  by (simp add: chunks_def)

lemma chunks_split:
  "a \<le> t \<Longrightarrow> t < b \<Longrightarrow> chunks copy a b = chunks copy a t @ chunk copy t @ chunks copy (Suc t) b"
proof -
  assume "a \<le> t" "t < b"
  then have "[a..<b] = [a..<t] @ t # [Suc t..<b]"
    by (metis le_add_diff_inverse less_imp_le_nat upt_add_eq_append upt_conv_Cons)
  then show ?thesis by (simp add: chunks_def)
qed

lemma pack_loop_content:
  assumes ne: "fp \<noteq> np"
  shows "chunk_copy cf n \<Longrightarrow> chunk_copy cn n \<Longrightarrow>
     fEntryOffset (pack_loop H cf cn fp np (split_init m) n)
       = length (chunks cf 0 (j (pack_loop H cf cn fp np (split_init m) n))) \<and>
     data (mem (pack_loop H cf cn fp np (split_init m) n) fp)
       = chunks cf 0 (j (pack_loop H cf cn fp np (split_init m) n))
         @ drop (fEntryOffset (pack_loop H cf cn fp np (split_init m) n)) (data (m fp)) \<and>
     (\<forall>t<j (pack_loop H cf cn fp np (split_init m) n).
        slot (mem (pack_loop H cf cn fp np (split_init m) n) fp) (- int t) = length (chunks cf 0 t)) \<and>
     nEntryOffset (pack_loop H cf cn fp np (split_init m) n)
       = length (chunks cn (j (pack_loop H cf cn fp np (split_init m) n)) n) \<and>
     data (mem (pack_loop H cf cn fp np (split_init m) n) np)
       = chunks cn (j (pack_loop H cf cn fp np (split_init m) n)) n
         @ drop (nEntryOffset (pack_loop H cf cn fp np (split_init m) n)) (data (m np)) \<and>
     (\<forall>t<k (pack_loop H cf cn fp np (split_init m) n).
        slot (mem (pack_loop H cf cn fp np (split_init m) n) np) (- int t)
          = length (chunks cn (j (pack_loop H cf cn fp np (split_init m) n))
                              (j (pack_loop H cf cn fp np (split_init m) n) + t)))"
proof (induction n)
  case 0
  show ?case by (simp add: split_init_def chunks_empty)
next
  case (Suc n)
  let ?s = "pack_loop H cf cn fp np (split_init m) n"
  have cf: "chunk_copy cf n" and cn: "chunk_copy cn n"
    using Suc.prems by (simp_all add: chunk_copy_mono)
  note IH = Suc.IH [OF cf cn]
  have cnt: "j ?s + k ?s = n" "0 < k ?s \<longrightarrow> H \<le> sum' ?s"
    using pack_loop_counts [of H cf cn fp np m n] by simp_all
  let ?s' = "pack_loop H cf cn fp np (split_init m) (Suc n)"
  have f1: "fEntryOffset ?s = length (chunks cf 0 (j ?s))"
    and f2: "data (mem ?s fp) = chunks cf 0 (j ?s) @ drop (fEntryOffset ?s) (data (m fp))"
    and f3: "\<forall>t<j ?s. slot (mem ?s fp) (- int t) = length (chunks cf 0 t)"
    and n1: "nEntryOffset ?s = length (chunks cn (j ?s) n)"
    and n2: "data (mem ?s np) = chunks cn (j ?s) n @ drop (nEntryOffset ?s) (data (m np))"
    and n3: "\<forall>t<k ?s. slot (mem ?s np) (- int t) = length (chunks cn (j ?s) (j ?s + t))"
    using IH by simp_all
  show ?case
  proof (cases "sum' ?s < H")
    case True
    with cnt have k0: "k ?s = 0" and jn: "j ?s = n" by auto
    have off: "fEntryOffset ?s \<le> length (data (mem ?s fp))"
      by (subst f2) (simp add: f1)
    have w: "cf n (data (mem ?s fp)) (fEntryOffset ?s)
             = (length (chunk cf n),
                take (fEntryOffset ?s) (data (mem ?s fp)) @ chunk cf n
                  @ drop (fEntryOffset ?s + length (chunk cf n)) (data (mem ?s fp)))"
      by (rule chunk_copy_write [OF Suc.prems(1) off])
    have tk: "take (fEntryOffset ?s) (data (mem ?s fp)) = chunks cf 0 n"
      by (subst f2) (simp add: f1 jn)
    have dr: "drop (fEntryOffset ?s + length (chunk cf n)) (data (mem ?s fp))
              = drop (fEntryOffset ?s + length (chunk cf n)) (data (m fp))"
      by (subst f2) (simp add: f1 jn add.commute)
    have j': "j ?s' = Suc n" and k': "k ?s' = 0"
      and fo': "fEntryOffset ?s' = fEntryOffset ?s + length (chunk cf n)"
      and no': "nEntryOffset ?s' = nEntryOffset ?s"
      and df': "data (mem ?s' fp) = chunks cf 0 n @ chunk cf n
                  @ drop (fEntryOffset ?s + length (chunk cf n)) (data (m fp))"
      and sf': "slot (mem ?s' fp) = (slot (mem ?s fp))(- int n := fEntryOffset ?s)"
      and dn': "data (mem ?s' np) = data (mem ?s np)"
      using True ne jn k0 by (simp_all add: pack_step_f set_entry_simps w tk dr)
    have n0: "nEntryOffset ?s = 0" using n1 jn by (simp add: chunks_empty)
    have c1: "fEntryOffset ?s' = length (chunks cf 0 (j ?s'))"
      by (simp only: j' fo') (simp add: chunks_Suc f1 jn)
    have c2: "data (mem ?s' fp) = chunks cf 0 (j ?s') @ drop (fEntryOffset ?s') (data (m fp))"
      by (simp only: j' fo' df') (simp add: chunks_Suc)
    have c3: "\<forall>t<j ?s'. slot (mem ?s' fp) (- int t) = length (chunks cf 0 t)"
      using f3 by (simp only: j' sf') (simp add: less_Suc_eq jn f1)
    have c4: "nEntryOffset ?s' = length (chunks cn (j ?s') (Suc n))"
      by (simp only: j' no') (simp add: n0 chunks_empty)
    have c5: "data (mem ?s' np) = chunks cn (j ?s') (Suc n) @ drop (nEntryOffset ?s') (data (m np))"
      by (simp only: j' no' dn') (simp add: n0 chunks_empty n2 jn)
    have c6: "\<forall>t<k ?s'. slot (mem ?s' np) (- int t) = length (chunks cn (j ?s') (j ?s' + t))"
      by (simp only: k') simp
    from c1 c2 c3 c4 c5 c6 show ?thesis by blast
  next
    case False
    let ?j = "j ?s"
    have jle: "?j \<le> n" and jk: "?j + k ?s = n" using cnt by simp_all
    have off: "nEntryOffset ?s \<le> length (data (mem ?s np))"
      by (subst n2) (simp add: n1)
    have w: "cn n (data (mem ?s np)) (nEntryOffset ?s)
             = (length (chunk cn n),
                take (nEntryOffset ?s) (data (mem ?s np)) @ chunk cn n
                  @ drop (nEntryOffset ?s + length (chunk cn n)) (data (mem ?s np)))"
      by (rule chunk_copy_write [OF Suc.prems(2) off])
    have tk: "take (nEntryOffset ?s) (data (mem ?s np)) = chunks cn ?j n"
      by (subst n2) (simp add: n1)
    have dr: "drop (nEntryOffset ?s + length (chunk cn n)) (data (mem ?s np))
              = drop (nEntryOffset ?s + length (chunk cn n)) (data (m np))"
      by (subst n2) (simp add: n1 add.commute)
    have j': "j ?s' = ?j" and k': "k ?s' = Suc (k ?s)"
      and fo': "fEntryOffset ?s' = fEntryOffset ?s"
      and no': "nEntryOffset ?s' = nEntryOffset ?s + length (chunk cn n)"
      and dn': "data (mem ?s' np) = chunks cn ?j n @ chunk cn n
                  @ drop (nEntryOffset ?s + length (chunk cn n)) (data (m np))"
      and sn': "slot (mem ?s' np) = (slot (mem ?s np))(- int (k ?s) := nEntryOffset ?s)"
      and df': "data (mem ?s' fp) = data (mem ?s fp)"
      and sf': "slot (mem ?s' fp) = slot (mem ?s fp)"
      using False ne by (simp_all add: pack_step_n set_entry_simps w tk dr)
    have c1: "fEntryOffset ?s' = length (chunks cf 0 (j ?s'))"
      by (simp only: j' fo' f1)
    have c2: "data (mem ?s' fp) = chunks cf 0 (j ?s') @ drop (fEntryOffset ?s') (data (m fp))"
      by (simp only: j' fo' df') (rule f2)
    have c3: "\<forall>t<j ?s'. slot (mem ?s' fp) (- int t) = length (chunks cf 0 t)"
      by (simp only: j' sf') (rule f3)
    have c4: "nEntryOffset ?s' = length (chunks cn (j ?s') (Suc n))"
      by (simp only: j' no') (simp add: chunks_Suc jle n1)
    have c5: "data (mem ?s' np) = chunks cn (j ?s') (Suc n) @ drop (nEntryOffset ?s') (data (m np))"
      by (simp only: j' no' dn') (simp add: chunks_Suc jle)
    have c6: "\<forall>t<k ?s'. slot (mem ?s' np) (- int t) = length (chunks cn (j ?s') (j ?s' + t))"
      using n3 by (simp only: j' k' sn') (simp add: less_Suc_eq jk n1)
    from c1 c2 c3 c4 c5 c6 show ?thesis by blast
  qed
qed

subsection \<open>Reading a slot back\<close>

lemma pack_loop_read_f:
  assumes "fp \<noteq> np" "chunk_copy cf n" "chunk_copy cn n"
    and "t < j (pack_loop H cf cn fp np (split_init m) n)"
  shows "\<exists>rest. drop (slot (mem (pack_loop H cf cn fp np (split_init m) n) fp) (- int t))
                   (data (mem (pack_loop H cf cn fp np (split_init m) n) fp))
               = chunk cf t @ rest"
proof -
  let ?s = "pack_loop H cf cn fp np (split_init m) n"
  note c = pack_loop_content [OF assms(1-3), of H m]
  have sl: "slot (mem ?s fp) (- int t) = length (chunks cf 0 t)"
    using c assms(4) by blast
  have d: "data (mem ?s fp) = chunks cf 0 (j ?s) @ drop (fEntryOffset ?s) (data (m fp))"
    using c by blast
  have sp: "chunks cf 0 (j ?s) = chunks cf 0 t @ chunk cf t @ chunks cf (Suc t) (j ?s)"
    by (rule chunks_split) (use assms(4) in simp_all)
  show ?thesis
    by (subst d, subst sp) (simp add: sl)
qed

lemma pack_loop_read_n:
  assumes "fp \<noteq> np" "chunk_copy cf n" "chunk_copy cn n"
    and "t < k (pack_loop H cf cn fp np (split_init m) n)"
  shows "\<exists>rest. drop (slot (mem (pack_loop H cf cn fp np (split_init m) n) np) (- int t))
                   (data (mem (pack_loop H cf cn fp np (split_init m) n) np))
               = chunk cn (j (pack_loop H cf cn fp np (split_init m) n) + t) @ rest"
proof -
  let ?s = "pack_loop H cf cn fp np (split_init m) n"
  note c = pack_loop_content [OF assms(1-3), of H m]
  have jk: "j ?s + k ?s = n" by (rule pack_loop_j_k)
  have sl: "slot (mem ?s np) (- int t) = length (chunks cn (j ?s) (j ?s + t))"
    using c assms(4) by blast
  have d: "data (mem ?s np) = chunks cn (j ?s) n @ drop (nEntryOffset ?s) (data (m np))"
    using c by blast
  have sp: "chunks cn (j ?s) n
            = chunks cn (j ?s) (j ?s + t) @ chunk cn (j ?s + t) @ chunks cn (Suc (j ?s + t)) n"
    by (rule chunks_split) (use assms(4) jk in simp_all)
  show ?thesis
    by (subst d, subst sp) (simp add: sl)
qed

subsection \<open>Bytes of the stored integers\<close>

lemma Two_of_bytes_take: "2 \<le> n \<Longrightarrow> Two_of_bytes (take n xs) = Two_of_bytes xs"
  by (simp add: Two_of_bytes_def)

lemma Four_of_bytes_take: "4 \<le> n \<Longrightarrow> Four_of_bytes (take n xs) = Four_of_bytes xs"
  by (simp add: Four_of_bytes_def)

lemma unat_byte_of_nat: "n < 256 \<Longrightarrow> unat (of_nat n :: byte) = n"
  by (simp add: unat_of_nat)

lemma bytes4_nat:
  "(x::nat) mod 256 + 256 * (x div 256 mod 256) + 65536 * (x div 65536 mod 256)
     + 16777216 * (x div 16777216) = x"
proof -
  define a b c r0 r1 r2 where "a = x div 256" and "b = a div 256" and "c = b div 256"
    and "r0 = x mod 256" and "r1 = a mod 256" and "r2 = b mod 256"
  have e1: "x = 256 * a + r0" by (simp add: a_def r0_def)
  have e2: "a = 256 * b + r1" by (simp add: b_def r1_def)
  have e3: "b = 256 * c + r2" by (simp add: c_def r2_def)
  have d2: "x div 65536 = b" by (simp add: a_def b_def div_mult2_eq)
  have d3: "x div 16777216 = c" by (simp add: a_def b_def c_def div_mult2_eq)
  have "r0 + 256 * r1 + 65536 * r2 + 16777216 * c = x"
    using e1 e2 e3 by linarith
  then show ?thesis
    by (simp only: d2 d3 flip: a_def r0_def r1_def r2_def)
qed

lemma Two_roundtrip: "Two_of_bytes (Two_bytes w @ ys) = w"
proof -
  have "unat w < 65536" using unsigned_less [of w, where ?'a = nat] by simp
  then have lt: "unat w div 256 < 256" by simp
  have b0: "(Two_bytes w @ ys) ! 0 = of_nat (unat w mod 256)"
   and b1: "(Two_bytes w @ ys) ! 1 = of_nat (unat w div 256)"
    by (simp_all add: Two_bytes_def)
  have u0: "unat (of_nat (unat w mod 256) :: byte) = unat w mod 256"
    by (rule unat_byte_of_nat) simp
  have u1: "unat (of_nat (unat w div 256) :: byte) = unat w div 256"
    by (rule unat_byte_of_nat) (rule lt)
  have "Two_of_bytes (Two_bytes w @ ys) = of_nat (unat w mod 256 + 256 * (unat w div 256))"
    by (simp only: Two_of_bytes_def b0 b1 u0 u1)
  also have "unat w mod 256 + 256 * (unat w div 256) = unat w" by simp
  finally show ?thesis by simp
qed

lemma Four_roundtrip: "Four_of_bytes (Four_bytes w @ ys) = w"
proof -
  have "unat w < 4294967296" using unsigned_less [of w, where ?'a = nat] by simp
  then have lt: "unat w div 16777216 < 256" by simp
  have b0: "(Four_bytes w @ ys) ! 0 = of_nat (unat w mod 256)"
   and b1: "(Four_bytes w @ ys) ! 1 = of_nat (unat w div 256 mod 256)"
   and b2: "(Four_bytes w @ ys) ! 2 = of_nat (unat w div 65536 mod 256)"
   and b3: "(Four_bytes w @ ys) ! 3 = of_nat (unat w div 16777216)"
    by (simp_all add: Four_bytes_def)
  have u0: "unat (of_nat (unat w mod 256) :: byte) = unat w mod 256"
    by (rule unat_byte_of_nat) simp
  have u1: "unat (of_nat (unat w div 256 mod 256) :: byte) = unat w div 256 mod 256"
    by (rule unat_byte_of_nat) simp
  have u2: "unat (of_nat (unat w div 65536 mod 256) :: byte) = unat w div 65536 mod 256"
    by (rule unat_byte_of_nat) simp
  have u3: "unat (of_nat (unat w div 16777216) :: byte) = unat w div 16777216"
    by (rule unat_byte_of_nat) (rule lt)
  have "Four_of_bytes (Four_bytes w @ ys)
        = of_nat (unat w mod 256 + 256 * (unat w div 256 mod 256)
                  + 65536 * (unat w div 65536 mod 256) + 16777216 * (unat w div 16777216))"
    by (simp only: Four_of_bytes_def b0 b1 b2 b3 u0 u1 u2 u3)
  also have "\<dots> = of_nat (unat w)" by (simp only: bytes4_nat)
  finally show ?thesis by simp
qed

lemma length_Two_bytes: "length (Two_bytes w) = 2"
  by (simp add: Two_bytes_def)

lemma length_Four_bytes: "length (Four_bytes w) = 4"
  by (simp add: Four_bytes_def)

subsection \<open>The merged sequence\<close>

lemma length_merged: "length (merged high x xs) = Suc (length xs)"
  by (simp add: merged_def)

lemma insert_nth_aux:
  assumes "p \<le> length xs" "i \<le> length xs"
  shows "(take p xs @ x # drop p xs) ! i = (if i < p then xs ! i else if i = p then x else xs ! (i - 1))"
proof -
  have lt: "length (take p xs) = p" using assms by simp
  consider "i < p" | "i = p" | "p < i" by linarith
  then show ?thesis
  proof cases
    case 1
    then have "i < length (take p xs)" by (simp only: lt)
    then have "(take p xs @ x # drop p xs) ! i = take p xs ! i" by (rule nth_append_left)
    also have "\<dots> = xs ! i" using 1 by (rule nth_take)
    finally show ?thesis using 1 by (simp only: if_True)
  next
    case 2
    have "(take p xs @ x # drop p xs) ! length (take p xs) = x" by (rule nth_append_length)
    then have "(take p xs @ x # drop p xs) ! p = x" by (simp only: lt)
    then show ?thesis unfolding 2 by (simp only: less_irrefl if_False if_True refl)
  next
    case 3
    define d where "d = i - p - 1"
    have d: "i = p + Suc d" using 3 by (simp add: d_def)
    have "(take p xs @ x # drop p xs) ! (p + Suc d) = (x # drop p xs) ! Suc d"
      using nth_append_length_plus [of "take p xs" "x # drop p xs" "Suc d"] by (simp only: lt)
    also have "\<dots> = drop p xs ! d" by simp
    also have "\<dots> = xs ! (p + d)" using assms(1) by simp
    finally show ?thesis using d by simp
  qed
qed

lemma merged_nth:
  assumes "1 \<le> high" "high \<le> int (length xs) + 1" "i \<le> length xs"
  shows "merged high x xs ! i =
           (if int (i + 1) < high then xs ! i
            else if int (i + 1) = high then x else xs ! (i - 1))"
proof -
  define p where "p = nat (high - 1)"
  have h: "high = int p + 1" using assms(1) by (simp add: p_def)
  have p: "p \<le> length xs" using assms(2) by (simp add: p_def)
  have "merged high x xs ! i = (if i < p then xs ! i else if i = p then x else xs ! (i - 1))"
    unfolding merged_def p_def [symmetric] by (rule insert_nth_aux [OF p assms(3)])
  then show ?thesis by (simp add: h)
qed

subsection \<open>Decoding an internal entry from a prefix\<close>

lemma IEntry_at_drop: "IEntry_at d off = IEntry_at (drop off d) 0"
  by (simp add: IEntry_at_def IEntry_spid_def IEntry_klen_def add.commute)

lemma IEntry_klen_prefix:
  assumes "take L xs = take L ys" "6 \<le> L"
  shows "IEntry_klen xs 0 = IEntry_klen ys 0"
proof -
  have "Two_of_bytes (drop 4 xs) = Two_of_bytes (take (L - 4) (drop 4 xs))"
    using assms(2) by (simp add: Two_of_bytes_take)
  also have "\<dots> = Two_of_bytes (drop 4 (take L xs))" by (simp add: drop_take)
  also have "\<dots> = Two_of_bytes (drop 4 (take L ys))" by (simp add: assms(1))
  also have "\<dots> = Two_of_bytes (take (L - 4) (drop 4 ys))" by (simp add: drop_take)
  also have "\<dots> = Two_of_bytes (drop 4 ys)" using assms(2) by (simp add: Two_of_bytes_take)
  finally show ?thesis by (simp add: IEntry_klen_def)
qed

lemma IEntry_at_prefix:
  assumes eq: "take L xs = take L ys" and L: "6 + unat (IEntry_klen xs 0) \<le> L"
  shows "IEntry_at xs 0 = IEntry_at ys 0"
proof -
  have L6: "6 \<le> L" using L by simp
  have kl: "IEntry_klen xs 0 = IEntry_klen ys 0" by (rule IEntry_klen_prefix [OF eq L6])
  have "Four_of_bytes xs = Four_of_bytes (take L xs)" using L6 by (simp add: Four_of_bytes_take)
  also have "\<dots> = Four_of_bytes ys" using L6 by (simp add: eq Four_of_bytes_take)
  finally have sp: "IEntry_spid xs 0 = IEntry_spid ys 0" by (simp add: IEntry_spid_def)
  let ?k = "unat (IEntry_klen xs 0)"
  have "take ?k (drop 6 xs) = take ?k (take (L - 6) (drop 6 xs))"
    using L by (simp add: min_def)
  also have "\<dots> = take ?k (drop 6 (take L xs))" by (simp add: drop_take)
  also have "\<dots> = take ?k (drop 6 (take L ys))" by (simp add: eq)
  also have "\<dots> = take ?k (take (L - 6) (drop 6 ys))" by (simp add: drop_take)
  also have "\<dots> = take ?k (drop 6 ys)" using L by (simp add: min_def)
  finally have kv: "take ?k (drop 6 xs) = take ?k (drop 6 ys)" .
  show ?thesis using sp kl kv by (simp add: IEntry_at_def)
qed

lemma IEntry_read_old:
  assumes "off + 6 + unat (IEntry_klen src off) \<le> length src"
  shows "IEntry_at (take (6 + unat (IEntry_klen src off)) (drop off src) @ rest) 0 = IEntry_at src off"
proof -
  let ?L = "6 + unat (IEntry_klen src off)"
  have kl: "IEntry_klen (drop off src) 0 = IEntry_klen src off"
    by (simp add: IEntry_klen_def add.commute)
  have le: "?L \<le> length src - off" using assms by simp
  have tk: "take ?L (drop off src) = take ?L (take ?L (drop off src) @ rest)"
    using le by simp
  have L: "6 + unat (IEntry_klen (drop off src) 0) \<le> ?L"
    by (simp only: kl)
  have "IEntry_at (drop off src) 0 = IEntry_at (take ?L (drop off src) @ rest) 0"
    by (rule IEntry_at_prefix [OF tk L])
  then show ?thesis by (simp only: IEntry_at_drop [of src off])
qed

lemma IEntry_at_item: "IEntry_at (InternalItem_bytes it) 0 = InternalItem_entry it"
proof -
  have s: "IEntry_spid (InternalItem_bytes it) 0 = spid it"
    by (simp add: IEntry_spid_def InternalItem_bytes_def Four_roundtrip)
  have k: "IEntry_klen (InternalItem_bytes it) 0 = klen it"
    by (simp add: IEntry_klen_def InternalItem_bytes_def length_Four_bytes Two_roundtrip)
  have v: "drop 6 (InternalItem_bytes it) = kval it"
    by (simp add: InternalItem_bytes_def length_Four_bytes length_Two_bytes)
  show ?thesis by (simp add: IEntry_at_def InternalItem_entry_def s k v)
qed

lemma length_InternalItem_bytes: "length (InternalItem_bytes it) = 6 + length (kval it)"
  by (simp add: InternalItem_bytes_def length_Four_bytes length_Two_bytes)

lemma IEntry_read_item:
  assumes "6 + unat (klen it) \<le> L" "L \<le> length (InternalItem_bytes it)"
  shows "IEntry_at (take L (InternalItem_bytes it) @ rest) 0 = InternalItem_entry it"
proof -
  have k: "IEntry_klen (InternalItem_bytes it) 0 = klen it"
    by (simp add: IEntry_klen_def InternalItem_bytes_def length_Four_bytes Two_roundtrip)
  have tk: "take L (InternalItem_bytes it) = take L (take L (InternalItem_bytes it) @ rest)"
    using assms(2) by simp
  have L: "6 + unat (IEntry_klen (InternalItem_bytes it) 0) \<le> L"
    using assms(1) by (simp only: k)
  have "IEntry_at (InternalItem_bytes it) 0 = IEntry_at (take L (InternalItem_bytes it) @ rest) 0"
    by (rule IEntry_at_prefix [OF tk L])
  then show ?thesis by (simp only: IEntry_at_item)
qed

subsection \<open>The copies of edubtm\_SplitInternal are chunk writes\<close>

lemma SplitInternal_copy_f_shape:
  "SplitInternal_copy_f c tp high item i d off =
     (chunk_len (SplitInternal_copy_f c tp high item) i,
      take off d @ chunk (SplitInternal_copy_f c tp high item) i
        @ drop (off + chunk_len (SplitInternal_copy_f c tp high item) i) d)"
  by (simp add: SplitInternal_copy_f_def chunk_len_def chunk_def memcpy_def Let_def)

lemma SplitInternal_copy_n_shape:
  "SplitInternal_copy_n c tp high item i d off =
     (chunk_len (SplitInternal_copy_n c tp high item) i,
      take off d @ chunk (SplitInternal_copy_n c tp high item) i
        @ drop (off + chunk_len (SplitInternal_copy_n c tp high item) i) d)"
  by (simp add: SplitInternal_copy_n_def chunk_len_def chunk_def memcpy_def Let_def)

lemma wf_internal_slot:
  "wf_internal p \<Longrightarrow> i < nSlots (hdr p) \<Longrightarrow>
   slot p (- int i) + 6 + unat (IEntry_klen (data p) (slot p (- int i))) \<le> length (data p)"
  by (simp add: wf_internal_def list_all_iff)

lemma to_Two_id: "n < 65536 \<Longrightarrow> to_Two n = n"
  by (simp add: to_Two_def)

lemma to_Two_maxLoop: "n < 65535 \<Longrightarrow> to_Two (n + 1) = n + 1"
  by (simp add: to_Two_def)

lemma wf_internal_len:
  assumes "wf_internal p" "i < nSlots (hdr p)"
  shows "to_Two (6 + unat (IEntry_klen (data p) (slot p (- int i))))
           = 6 + unat (IEntry_klen (data p) (slot p (- int i)))"
proof -
  have "length (data p) < 32768" using assms(1) by (simp add: wf_internal_def)
  with wf_internal_slot [OF assms] show ?thesis by (intro to_Two_id) linarith
qed

lemma wf_InternalItem_len:
  assumes "wf_InternalItem c it"
  shows "to_Two (6 + ALIGNED_LENGTH c (unat (klen it))) = 6 + ALIGNED_LENGTH c (unat (klen it))"
    and "to_Two (6 + unat (klen it)) = 6 + unat (klen it)"
proof -
  have "length (kval it) < 32768" "unat (klen it) \<le> ALIGNED_LENGTH c (unat (klen it))"
    "ALIGNED_LENGTH c (unat (klen it)) \<le> length (kval it)"
    using assms by (simp_all add: wf_InternalItem_def)
  then show "to_Two (6 + ALIGNED_LENGTH c (unat (klen it))) = 6 + ALIGNED_LENGTH c (unat (klen it))"
    and "to_Two (6 + unat (klen it)) = 6 + unat (klen it)"
    by (intro to_Two_id; linarith)+
qed

lemma SplitInternal_chunk_f:
  "chunk (SplitInternal_copy_f c tp high item) i =
     (if int (i + 1) < high then
        take (to_Two (6 + unat (IEntry_klen (data tp) (slot tp (- int i)))))
          (drop (slot tp (- int i)) (data tp))
      else if int (i + 1) = high then
        take (to_Two (6 + ALIGNED_LENGTH c (unat (klen item)))) (InternalItem_bytes item)
      else
        take (to_Two (6 + unat (IEntry_klen (data tp) (slot tp (- (int i - 1))))))
          (drop (slot tp (- (int i - 1))) (data tp)))"
  by (simp add: SplitInternal_copy_f_def chunk_def memcpy_def Let_def
        sizeof_ShortPageID_def sizeof_Two_def)

lemma SplitInternal_chunk_n:
  "chunk (SplitInternal_copy_n c tp high item) i =
     (if int (i + 1) < high then
        take (to_Two (6 + unat (IEntry_klen (data tp) (slot tp (- int i)))))
          (drop (slot tp (- int i)) (data tp))
      else if int (i + 1) = high then
        take (to_Two (6 + unat (klen item))) (InternalItem_bytes item)
      else
        take (to_Two (6 + unat (IEntry_klen (data tp) (slot tp (- (int i - 1))))))
          (drop (slot tp (- (int i - 1))) (data tp)))"
  by (simp add: SplitInternal_copy_n_def chunk_def memcpy_def Let_def
        sizeof_ShortPageID_def sizeof_Two_def)

lemma SplitInternal_chunk_len_f:
  "chunk_len (SplitInternal_copy_f c tp high item) i =
     (if int (i + 1) < high then to_Two (6 + unat (IEntry_klen (data tp) (slot tp (- int i))))
      else if int (i + 1) = high then to_Two (6 + ALIGNED_LENGTH c (unat (klen item)))
      else to_Two (6 + unat (IEntry_klen (data tp) (slot tp (- (int i - 1))))))"
  by (simp add: SplitInternal_copy_f_def chunk_len_def Let_def
        sizeof_ShortPageID_def sizeof_Two_def)

lemma SplitInternal_chunk_len_n:
  "chunk_len (SplitInternal_copy_n c tp high item) i =
     (if int (i + 1) < high then to_Two (6 + unat (IEntry_klen (data tp) (slot tp (- int i))))
      else if int (i + 1) = high then to_Two (6 + unat (klen item))
      else to_Two (6 + unat (IEntry_klen (data tp) (slot tp (- (int i - 1))))))"
  by (simp add: SplitInternal_copy_n_def chunk_len_def Let_def
        sizeof_ShortPageID_def sizeof_Two_def)

lemma SplitInternal_chunk_copy:
  assumes wf: "wf_internal tp" and it: "wf_InternalItem c item"
    and h1: "1 \<le> high" and h2: "high \<le> int (nSlots (hdr tp)) + 1"
  shows "chunk_copy (SplitInternal_copy_f c tp high item) (Suc (nSlots (hdr tp)))"
    and "chunk_copy (SplitInternal_copy_n c tp high item) (Suc (nSlots (hdr tp)))"
proof -
  have A: "unat (klen item) \<le> ALIGNED_LENGTH c (unat (klen item))"
    and B: "ALIGNED_LENGTH c (unat (klen item)) \<le> length (kval item)"
    using it by (simp_all add: wf_InternalItem_def)
  have len: "length (chunk (SplitInternal_copy_f c tp high item) i)
               = chunk_len (SplitInternal_copy_f c tp high item) i
           \<and> length (chunk (SplitInternal_copy_n c tp high item) i)
               = chunk_len (SplitInternal_copy_n c tp high item) i"
    if i: "i < Suc (nSlots (hdr tp))" for i
  proof -
    consider "int (i + 1) < high" | "int (i + 1) = high" | "high < int (i + 1)" by linarith
    then show ?thesis
    proof cases
      case 1
      then have lt: "i < nSlots (hdr tp)" using h2 by linarith
      from wf_internal_slot [OF wf lt] 1 show ?thesis
        by (simp add: SplitInternal_chunk_f SplitInternal_chunk_n
              SplitInternal_chunk_len_f SplitInternal_chunk_len_n wf_internal_len [OF wf lt])
    next
      case 2
      with A B show ?thesis
        by (simp add: SplitInternal_chunk_f SplitInternal_chunk_n
              SplitInternal_chunk_len_f SplitInternal_chunk_len_n length_InternalItem_bytes
              wf_InternalItem_len [OF it])
    next
      case 3
      then have pos: "0 < i" using h1 by linarith
      then have lt: "i - 1 < nSlots (hdr tp)" using i by simp
      have e: "int (i - 1) = int i - 1" using pos by simp
      have w: "slot tp (- (int i - 1)) + 6
                 + unat (IEntry_klen (data tp) (slot tp (- (int i - 1)))) \<le> length (data tp)"
        using wf_internal_slot [OF wf lt] by (simp only: e)
      have wl: "to_Two (6 + unat (IEntry_klen (data tp) (slot tp (- (int i - 1)))))
                  = 6 + unat (IEntry_klen (data tp) (slot tp (- (int i - 1))))"
        using wf_internal_len [OF wf lt] by (simp only: e)
      from w wl 3 show ?thesis
        by (simp add: SplitInternal_chunk_f SplitInternal_chunk_n
              SplitInternal_chunk_len_f SplitInternal_chunk_len_n)
    qed
  qed
  show "chunk_copy (SplitInternal_copy_f c tp high item) (Suc (nSlots (hdr tp)))"
    unfolding chunk_copy_def
  proof (intro allI impI conjI)
    fix i assume "i < Suc (nSlots (hdr tp))"
    then show "length (chunk (SplitInternal_copy_f c tp high item) i)
                 = chunk_len (SplitInternal_copy_f c tp high item) i"
      using len by blast
  next
    fix i d off
    show "SplitInternal_copy_f c tp high item i d off =
            (chunk_len (SplitInternal_copy_f c tp high item) i,
             take off d @ chunk (SplitInternal_copy_f c tp high item) i
               @ drop (off + chunk_len (SplitInternal_copy_f c tp high item) i) d)"
      by (rule SplitInternal_copy_f_shape)
  qed
  show "chunk_copy (SplitInternal_copy_n c tp high item) (Suc (nSlots (hdr tp)))"
    unfolding chunk_copy_def
  proof (intro allI impI conjI)
    fix i assume "i < Suc (nSlots (hdr tp))"
    then show "length (chunk (SplitInternal_copy_n c tp high item) i)
                 = chunk_len (SplitInternal_copy_n c tp high item) i"
      using len by blast
  next
    fix i d off
    show "SplitInternal_copy_n c tp high item i d off =
            (chunk_len (SplitInternal_copy_n c tp high item) i,
             take off d @ chunk (SplitInternal_copy_n c tp high item) i
               @ drop (off + chunk_len (SplitInternal_copy_n c tp high item) i) d)"
      by (rule SplitInternal_copy_n_shape)
  qed
qed

subsection \<open>What each chunk of edubtm\_SplitInternal decodes to\<close>

lemma internal_entries_nth:
  "i < nSlots (hdr p) \<Longrightarrow> internal_entries p ! i = IEntry_at (data p) (slot p (- int i))"
  by (simp add: internal_entries_def)

lemma length_internal_entries: "length (internal_entries p) = nSlots (hdr p)"
  by (simp add: internal_entries_def)

lemma SplitInternal_chunk_entry:
  assumes wf: "wf_internal tp" and it: "wf_InternalItem c item"
    and h1: "1 \<le> high" and h2: "high \<le> int (nSlots (hdr tp)) + 1"
    and i: "i < Suc (nSlots (hdr tp))"
  shows "IEntry_at (chunk (SplitInternal_copy_f c tp high item) i @ rest) 0
           = merged high (InternalItem_entry item) (internal_entries tp) ! i"
    and "IEntry_at (chunk (SplitInternal_copy_n c tp high item) i @ rest) 0
           = merged high (InternalItem_entry item) (internal_entries tp) ! i"
proof -
  have A: "unat (klen item) \<le> ALIGNED_LENGTH c (unat (klen item))"
    and B: "ALIGNED_LENGTH c (unat (klen item)) \<le> length (kval item)"
    using it by (simp_all add: wf_InternalItem_def)
  have m: "merged high (InternalItem_entry item) (internal_entries tp) ! i =
           (if int (i + 1) < high then internal_entries tp ! i
            else if int (i + 1) = high then InternalItem_entry item
            else internal_entries tp ! (i - 1))"
    by (rule merged_nth) (use h1 h2 i in \<open>simp_all add: length_internal_entries\<close>)
  have "IEntry_at (chunk (SplitInternal_copy_f c tp high item) i @ rest) 0
           = merged high (InternalItem_entry item) (internal_entries tp) ! i
      \<and> IEntry_at (chunk (SplitInternal_copy_n c tp high item) i @ rest) 0
           = merged high (InternalItem_entry item) (internal_entries tp) ! i"
  proof -
    consider "int (i + 1) < high" | "int (i + 1) = high" | "high < int (i + 1)" by linarith
    then show ?thesis
    proof cases
      case 1
      then have lt: "i < nSlots (hdr tp)" using h2 by linarith
      from IEntry_read_old [OF wf_internal_slot [OF wf lt]] 1 lt show ?thesis
        by (simp add: m SplitInternal_chunk_f SplitInternal_chunk_n internal_entries_nth
              wf_internal_len [OF wf lt])
    next
      case 2
      have f: "IEntry_at (take (6 + ALIGNED_LENGTH c (unat (klen item))) (InternalItem_bytes item) @ rest) 0
               = InternalItem_entry item"
        by (rule IEntry_read_item) (use A B in \<open>simp_all add: length_InternalItem_bytes\<close>)
      have n: "IEntry_at (take (6 + unat (klen item)) (InternalItem_bytes item) @ rest) 0
               = InternalItem_entry item"
        by (rule IEntry_read_item) (use A B in \<open>simp_all add: length_InternalItem_bytes\<close>)
      from 2 f n show ?thesis
        by (simp add: m SplitInternal_chunk_f SplitInternal_chunk_n wf_InternalItem_len [OF it])
    next
      case 3
      then have pos: "0 < i" using h1 by linarith
      then have lt: "i - 1 < nSlots (hdr tp)" using i by simp
      have e: "int (i - 1) = int i - 1" using pos by simp
      have r: "IEntry_at (take (6 + unat (IEntry_klen (data tp) (slot tp (- (int i - 1)))))
                           (drop (slot tp (- (int i - 1))) (data tp)) @ rest) 0
               = IEntry_at (data tp) (slot tp (- (int i - 1)))"
        using IEntry_read_old [OF wf_internal_slot [OF wf lt], of rest] by (simp only: e)
      have n: "internal_entries tp ! (i - 1) = IEntry_at (data tp) (slot tp (- (int i - 1)))"
        using internal_entries_nth [OF lt] by (simp only: e)
      have wl: "to_Two (6 + unat (IEntry_klen (data tp) (slot tp (- (int i - 1)))))
                  = 6 + unat (IEntry_klen (data tp) (slot tp (- (int i - 1))))"
        using wf_internal_len [OF wf lt] by (simp only: e)
      from 3 r n wl show ?thesis
        by (simp add: m SplitInternal_chunk_f SplitInternal_chunk_n)
    qed
  qed
  then show "IEntry_at (chunk (SplitInternal_copy_f c tp high item) i @ rest) 0
           = merged high (InternalItem_entry item) (internal_entries tp) ! i"
    and "IEntry_at (chunk (SplitInternal_copy_n c tp high item) i @ rest) 0
           = merged high (InternalItem_entry item) (internal_entries tp) ! i"
    by simp_all
qed

subsection \<open>The result of edubtm\_SplitInternal in terms of the loop\<close>

lemma edubtm_SplitInternal_fail:
  "e_AllocPage ps < 0 \<or> e_Init ps < 0 \<or> e_GetTrain ps < 0 \<Longrightarrow>
   edubtm_SplitInternal c ps m fp high item ritem =
     ((if e_AllocPage ps < 0 then e_AllocPage ps
       else if e_Init ps < 0 then e_Init ps else e_GetTrain ps), m, ritem)"
  by (auto simp add: edubtm_SplitInternal_def)

lemma SplitInternal_finish_simps:
  "data (SplitInternal_finish fp np s q) = data (mem s q)"
  "slot (SplitInternal_finish fp np s q) = slot (mem s q)"
  "free (hdr (SplitInternal_finish fp np s q)) = free (hdr (mem s q))"
  "pid (hdr (SplitInternal_finish fp np s q)) = pid (hdr (mem s q))"
  "q \<noteq> fp \<Longrightarrow> q \<noteq> np \<Longrightarrow> SplitInternal_finish fp np s q = mem s q"
  "nSlots (hdr (SplitInternal_finish fp np s np)) = k s"
  "fp \<noteq> np \<Longrightarrow> nSlots (hdr (SplitInternal_finish fp np s fp)) = j s"
  "p0 (hdr (SplitInternal_finish fp np s np)) = IEntry_spid (data (mem s np)) (slot (mem s np) 0)"
  "fp \<noteq> np \<Longrightarrow> p0 (hdr (SplitInternal_finish fp np s fp)) = p0 (hdr (mem s fp))"
  by (simp_all add: SplitInternal_finish_def Let_def)

lemma edubtm_SplitInternal_ok:
  assumes ok: "0 \<le> e_AllocPage ps" "0 \<le> e_Init ps" "0 \<le> e_GetTrain ps"
    and s: "s = SplitInternal_loop c (m fp) fp (pageNo (newPid ps)) high item (split_init m)
                  (to_Two (nSlots (hdr (m fp)) + 1))"
  shows "fst (snd (edubtm_SplitInternal c ps m fp high item ritem))
           = SplitInternal_finish fp (pageNo (newPid ps)) s"
    and "snd (snd (edubtm_SplitInternal c ps m fp high item ritem)) =
           InternalItem_of_bytes (take (sizeof_InternalItem c)
             (drop (slot (mem s (pageNo (newPid ps))) 0) (data (mem s (pageNo (newPid ps))))))"
  using ok unfolding s
  by (simp_all add: edubtm_SplitInternal_def Let_def SplitInternal_finish_simps)

lemma edubtm_SplitInternal_mem:
  assumes ok: "0 \<le> e_AllocPage ps" "0 \<le> e_Init ps" "0 \<le> e_GetTrain ps"
    and s: "s = SplitInternal_loop c (m fp) fp (pageNo (newPid ps)) high item (split_init m)
                  (to_Two (nSlots (hdr (m fp)) + 1))"
    and m': "m' = fst (snd (edubtm_SplitInternal c ps m fp high item ritem))"
  shows "data (m' q) = data (mem s q)"
    and "slot (m' q) = slot (mem s q)"
    and "free (hdr (m' q)) = free (hdr (mem s q))"
    and "pid (hdr (m' q)) = pid (hdr (mem s q))"
    and "q \<noteq> fp \<Longrightarrow> q \<noteq> pageNo (newPid ps) \<Longrightarrow> m' q = mem s q"
    and "nSlots (hdr (m' (pageNo (newPid ps)))) = k s"
    and "fp \<noteq> pageNo (newPid ps) \<Longrightarrow> nSlots (hdr (m' fp)) = j s"
    and "p0 (hdr (m' (pageNo (newPid ps))))
           = IEntry_spid (data (mem s (pageNo (newPid ps)))) (slot (mem s (pageNo (newPid ps))) 0)"
    and "fp \<noteq> pageNo (newPid ps) \<Longrightarrow> p0 (hdr (m' fp)) = p0 (hdr (mem s fp))"
  unfolding m' edubtm_SplitInternal_ok(1) [OF ok s]
  by (simp_all add: SplitInternal_finish_simps)

lemma edubtm_SplitInternal_ritem:
  assumes ok: "0 \<le> e_AllocPage ps" "0 \<le> e_Init ps" "0 \<le> e_GetTrain ps"
    and s: "s = SplitInternal_loop c (m fp) fp (pageNo (newPid ps)) high item (split_init m)
                  (to_Two (nSlots (hdr (m fp)) + 1))"
  shows "snd (snd (edubtm_SplitInternal c ps m fp high item ritem)) =
           InternalItem_of_bytes (take (sizeof_InternalItem c)
             (drop (slot (mem s (pageNo (newPid ps))) 0) (data (mem s (pageNo (newPid ps))))))"
  by (rule edubtm_SplitInternal_ok(2) [OF ok s])

lemma edubtm_SplitInternal_ret:
  assumes ok: "0 \<le> e_AllocPage ps" "0 \<le> e_Init ps" "0 \<le> e_GetTrain ps"
  shows "fst (edubtm_SplitInternal c ps m fp high item ritem) =
           (if e_FreeTrain ps < 0 then e_FreeTrain ps else eNOERROR)"
  using ok by (simp add: edubtm_SplitInternal_def Let_def)

subsection \<open>Lists read off by index\<close>

lemma map_nth_take: "n \<le> length xs \<Longrightarrow> map (\<lambda>i. xs ! i) [0..<n] = take n xs"
  by (rule nth_equalityI) simp_all

lemma map_nth_drop: "a + n = length xs \<Longrightarrow> map (\<lambda>i. xs ! (a + i)) [0..<n] = drop a xs"
  by (rule nth_equalityI) auto

subsection \<open>The entries of the two pages after edubtm\_SplitInternal\<close>

lemma SplitInternal_entries:
  assumes ok: "0 \<le> e_AllocPage ps" "0 \<le> e_Init ps" "0 \<le> e_GetTrain ps"
    and ne: "fp \<noteq> pageNo (newPid ps)"
    and wf: "wf_internal (m fp)" and it: "wf_InternalItem c item"
    and h1: "1 \<le> high" and h2: "high \<le> int (nSlots (hdr (m fp))) + 1"
    and s: "s = SplitInternal_loop c (m fp) fp (pageNo (newPid ps)) high item (split_init m)
                  (nSlots (hdr (m fp)) + 1)"
    and m': "m' = fst (snd (edubtm_SplitInternal c ps m fp high item ritem))"
  shows "internal_entries (m' fp)
           = take (j s) (merged high (InternalItem_entry item) (internal_entries (m fp)))"
    and "internal_entries (m' (pageNo (newPid ps)))
           = drop (j s) (merged high (InternalItem_entry item) (internal_entries (m fp)))"
    and "j s + k s = nSlots (hdr (m fp)) + 1"
proof -
  let ?np = "pageNo (newPid ps)"
  let ?n = "nSlots (hdr (m fp))"
  let ?cf = "SplitInternal_copy_f c (m fp) high item"
  let ?cn = "SplitInternal_copy_n c (m fp) high item"
  let ?M = "merged high (InternalItem_entry item) (internal_entries (m fp))"
  have sp: "s = pack_loop (BI_HALF c) ?cf ?cn fp ?np (split_init m) (Suc ?n)"
    by (simp add: s SplitInternal_loop_pack)
  have cc: "chunk_copy ?cf (Suc ?n)" "chunk_copy ?cn (Suc ?n)"
    by (rule SplitInternal_chunk_copy [OF wf it h1 h2])+
  have jk: "j s + k s = Suc ?n" unfolding sp by (rule pack_loop_j_k)
  then show "j s + k s = nSlots (hdr (m fp)) + 1" by simp
  have lM: "length ?M = Suc ?n" by (simp add: length_merged length_internal_entries)
  have rf: "IEntry_at (data (mem s fp)) (slot (mem s fp) (- int t)) = ?M ! t" if t: "t < j s" for t
  proof -
    from t have t': "t < j (pack_loop (BI_HALF c) ?cf ?cn fp ?np (split_init m) (Suc ?n))"
      by (simp only: sp)
    from pack_loop_read_f [OF ne cc t'] obtain rest where
      "drop (slot (mem s fp) (- int t)) (data (mem s fp)) = chunk ?cf t @ rest"
      unfolding sp by blast
    then have "IEntry_at (data (mem s fp)) (slot (mem s fp) (- int t)) = IEntry_at (chunk ?cf t @ rest) 0"
      by (simp add: IEntry_at_drop [of "data (mem s fp)"])
    also have "\<dots> = ?M ! t"
      by (rule SplitInternal_chunk_entry(1) [OF wf it h1 h2]) (use t jk in simp)
    finally show ?thesis .
  qed
  have rn: "IEntry_at (data (mem s ?np)) (slot (mem s ?np) (- int t)) = ?M ! (j s + t)"
    if t: "t < k s" for t
  proof -
    from t have t': "t < k (pack_loop (BI_HALF c) ?cf ?cn fp ?np (split_init m) (Suc ?n))"
      by (simp only: sp)
    from pack_loop_read_n [OF ne cc t'] obtain rest where
      "drop (slot (mem s ?np) (- int t)) (data (mem s ?np)) = chunk ?cn (j s + t) @ rest"
      unfolding sp by blast
    then have "IEntry_at (data (mem s ?np)) (slot (mem s ?np) (- int t))
               = IEntry_at (chunk ?cn (j s + t) @ rest) 0"
      by (simp add: IEntry_at_drop [of "data (mem s ?np)"])
    also have "\<dots> = ?M ! (j s + t)"
      by (rule SplitInternal_chunk_entry(2) [OF wf it h1 h2]) (use t jk in simp)
    finally show ?thesis .
  qed
  have "nSlots (hdr (m fp)) < 65535" using wf by (simp add: wf_internal_def)
  then have s2: "s = SplitInternal_loop c (m fp) fp (pageNo (newPid ps)) high item (split_init m)
                       (to_Two (nSlots (hdr (m fp)) + 1))"
    by (simp only: s to_Two_maxLoop)
  note pr = edubtm_SplitInternal_mem [OF ok s2 m']
  have "internal_entries (m' fp) = map (\<lambda>t. ?M ! t) [0..<j s]"
    using rf by (simp add: internal_entries_def pr(1,2) pr(7) [OF ne])
  also have "\<dots> = take (j s) ?M" by (rule map_nth_take) (use jk lM in simp)
  finally show "internal_entries (m' fp) = take (j s) ?M" .
  have "internal_entries (m' ?np) = map (\<lambda>t. ?M ! (j s + t)) [0..<k s]"
    using rn by (simp add: internal_entries_def pr(1,2,6))
  also have "\<dots> = drop (j s) ?M" by (rule map_nth_drop) (use jk lM in simp)
  finally show "internal_entries (m' ?np) = drop (j s) ?M" .
qed

subsection \<open>Decoding a leaf entry from a prefix\<close>

lemma LEntry_at_drop: "LEntry_at c d off = LEntry_at c (drop off d) 0"
  by (simp add: LEntry_at_def LEntry_nObjects_def LEntry_klen_def add.commute add.assoc)

lemma LEntry_fields_prefix:
  assumes "take L xs = take L ys" "4 \<le> L"
  shows "LEntry_klen xs 0 = LEntry_klen ys 0" and "LEntry_nObjects xs 0 = LEntry_nObjects ys 0"
proof -
  have "Two_of_bytes (drop 2 xs) = Two_of_bytes (take (L - 2) (drop 2 xs))"
    using assms(2) by (simp add: Two_of_bytes_take)
  also have "\<dots> = Two_of_bytes (drop 2 (take L xs))" by (simp add: drop_take)
  also have "\<dots> = Two_of_bytes (drop 2 (take L ys))" by (simp add: assms(1))
  also have "\<dots> = Two_of_bytes (take (L - 2) (drop 2 ys))" by (simp add: drop_take)
  also have "\<dots> = Two_of_bytes (drop 2 ys)" using assms(2) by (simp add: Two_of_bytes_take)
  finally show "LEntry_klen xs 0 = LEntry_klen ys 0" by (simp add: LEntry_klen_def numeral_2_eq_2)
  have "Two_of_bytes xs = Two_of_bytes (take L xs)" using assms(2) by (simp add: Two_of_bytes_take)
  also have "\<dots> = Two_of_bytes ys" using assms(2) by (simp add: assms(1) Two_of_bytes_take)
  finally show "LEntry_nObjects xs 0 = LEntry_nObjects ys 0" by (simp add: LEntry_nObjects_def)
qed

lemma take_drop_prefix:
  assumes "take L xs = take L ys" "a + n \<le> L"
  shows "take n (drop a xs) = take n (drop a ys)"
proof -
  have "take n (drop a xs) = take n (take (L - a) (drop a xs))" using assms(2) by (simp add: min_def)
  also have "\<dots> = take n (drop a (take L xs))" by (simp add: drop_take)
  also have "\<dots> = take n (drop a (take L ys))" by (simp add: assms(1))
  also have "\<dots> = take n (take (L - a) (drop a ys))" by (simp add: drop_take)
  also have "\<dots> = take n (drop a ys)" using assms(2) by (simp add: min_def)
  finally show ?thesis .
qed

lemma LEntry_at_prefix:
  assumes eq: "take L xs = take L ys"
    and L: "4 + ALIGNED_LENGTH c (unat (LEntry_klen xs 0))
              + unat (LEntry_nObjects xs 0) * sizeof_ObjectID c \<le> L"
    and al: "unat (LEntry_klen xs 0) \<le> ALIGNED_LENGTH c (unat (LEntry_klen xs 0))"
  shows "LEntry_at c xs 0 = LEntry_at c ys 0"
proof -
  have L4: "4 \<le> L" using L by simp
  note f = LEntry_fields_prefix [OF eq L4]
  have kv: "take (unat (LEntry_klen xs 0)) (drop 4 xs) = take (unat (LEntry_klen xs 0)) (drop 4 ys)"
    by (rule take_drop_prefix [OF eq]) (use L al in simp)
  have ov: "take (unat (LEntry_nObjects xs 0) * sizeof_ObjectID c)
              (drop (4 + ALIGNED_LENGTH c (unat (LEntry_klen xs 0))) xs)
          = take (unat (LEntry_nObjects xs 0) * sizeof_ObjectID c)
              (drop (4 + ALIGNED_LENGTH c (unat (LEntry_klen xs 0))) ys)"
    by (rule take_drop_prefix [OF eq]) (use L in simp)
  show ?thesis
    using kv ov by (simp add: LEntry_at_def f [symmetric])
qed

lemma LEntry_read_old:
  assumes b: "off + 4 + ALIGNED_LENGTH c (unat (LEntry_klen src off)) + sizeof_ObjectID c \<le> length src"
    and n1: "unat (LEntry_nObjects src off) = 1"
    and al: "unat (LEntry_klen src off) \<le> ALIGNED_LENGTH c (unat (LEntry_klen src off))"
  shows "LEntry_at c (take (4 + ALIGNED_LENGTH c (unat (LEntry_klen src off)) + sizeof_ObjectID c)
                        (drop off src) @ rest) 0
         = LEntry_at c src off"
proof -
  let ?L = "4 + ALIGNED_LENGTH c (unat (LEntry_klen src off)) + sizeof_ObjectID c"
  have kl: "LEntry_klen (drop off src) 0 = LEntry_klen src off"
    by (simp add: LEntry_klen_def add.commute)
  have no: "LEntry_nObjects (drop off src) 0 = LEntry_nObjects src off"
    by (simp add: LEntry_nObjects_def)
  have le: "?L \<le> length src - off" using b by simp
  have tk: "take ?L (drop off src) = take ?L (take ?L (drop off src) @ rest)"
    using le by simp
  have L: "4 + ALIGNED_LENGTH c (unat (LEntry_klen (drop off src) 0))
              + unat (LEntry_nObjects (drop off src) 0) * sizeof_ObjectID c \<le> ?L"
    by (simp add: kl no n1)
  have al': "unat (LEntry_klen (drop off src) 0)
               \<le> ALIGNED_LENGTH c (unat (LEntry_klen (drop off src) 0))"
    using al by (simp only: kl)
  have "LEntry_at c (drop off src) 0 = LEntry_at c (take ?L (drop off src) @ rest) 0"
    by (rule LEntry_at_prefix [OF tk L al'])
  then show ?thesis by (simp only: LEntry_at_drop [of c src off])
qed

lemma length_LeafItem_bytes: "length (LeafItem_bytes it) = 4 + length (kval it)"
  by (simp add: LeafItem_bytes_def length_Two_bytes)

lemma LEntry_read_item:
  assumes it: "wf_LeafItem c it"
  shows "LEntry_at c ((take (4 + ALIGNED_LENGTH c (unat (klen it))) (LeafItem_bytes it)
                        @ take (sizeof_ObjectID c) (oid it)) @ rest) 0
         = LeafItem_entry it"
proof -
  let ?A = "ALIGNED_LENGTH c (unat (klen it))"
  have n1: "unat (nObjects it) = 1" and lo: "length (oid it) = sizeof_ObjectID c"
    and A: "unat (klen it) \<le> ?A" and B: "?A \<le> length (kval it)"
    using it by (simp_all add: wf_LeafItem_def)
  have tk: "take (4 + ?A) (LeafItem_bytes it) = Two_bytes (nObjects it) @ Two_bytes (klen it) @ take ?A (kval it)"
    by (simp add: LeafItem_bytes_def length_Two_bytes)
  let ?bs = "Two_bytes (nObjects it) @ Two_bytes (klen it) @ take ?A (kval it) @ oid it @ rest"
  have e: "(take (4 + ?A) (LeafItem_bytes it) @ take (sizeof_ObjectID c) (oid it)) @ rest = ?bs"
    by (simp add: tk lo)
  have no: "LEntry_nObjects ?bs 0 = nObjects it"
    by (simp add: LEntry_nObjects_def Two_roundtrip)
  have kl: "LEntry_klen ?bs 0 = klen it"
    by (simp add: LEntry_klen_def length_Two_bytes Two_roundtrip)
  have d4: "drop 4 ?bs = take ?A (kval it) @ oid it @ rest"
    by (simp add: length_Two_bytes)
  have "take (unat (klen it)) (take ?A (kval it) @ oid it @ rest) = take (unat (klen it)) (kval it)"
    using A B by (simp add: min_def)
  then have kv: "take (unat (klen it)) (drop 4 ?bs) = take (unat (klen it)) (kval it)"
    by (simp only: d4)
  have d4A: "drop (4 + ?A) ?bs = oid it @ rest"
    using B by (simp add: length_Two_bytes)
  have "take (sizeof_ObjectID c) (oid it @ rest) = oid it"
    by (simp add: lo)
  then have ov: "take (sizeof_ObjectID c) (drop (4 + ?A) ?bs) = oid it"
    by (simp only: d4A)
  have "LEntry_at c ?bs 0 =
          (LEntry_nObjects ?bs 0, LEntry_klen ?bs 0,
           take (unat (LEntry_klen ?bs 0)) (drop 4 ?bs),
           take (unat (LEntry_nObjects ?bs 0) * sizeof_ObjectID c)
             (drop (4 + ALIGNED_LENGTH c (unat (LEntry_klen ?bs 0))) ?bs))"
    by (simp only: LEntry_at_def add_0)
  also have "\<dots> = LeafItem_entry it"
    by (simp only: no kl kv n1 ov mult_1 LeafItem_entry_def)
  finally show ?thesis by (simp only: e)
qed

subsection \<open>The copy of edubtm\_SplitLeaf is a chunk write\<close>

lemma SplitLeaf_chunk:
  "chunk (SplitLeaf_copy c tp high item) i =
     (if int (i + 1) < high then
        take (to_Two (4 + ALIGNED_LENGTH c (unat (LEntry_klen (data tp) (slot tp (- int i))))
                        + sizeof_ObjectID c))
          (drop (slot tp (- int i)) (data tp))
      else if int (i + 1) = high then
        take (to_Two (4 + ALIGNED_LENGTH c (unat (klen item)))) (LeafItem_bytes item)
          @ take (sizeof_ObjectID c) (oid item)
      else
        take (to_Two (4 + ALIGNED_LENGTH c (unat (LEntry_klen (data tp) (slot tp (- (int i - 1)))))
                        + sizeof_ObjectID c))
          (drop (slot tp (- (int i - 1))) (data tp)))"
  by (simp add: SplitLeaf_copy_def chunk_def memcpy_def Let_def sizeof_Two_def)

lemma SplitLeaf_chunk_len:
  "chunk_len (SplitLeaf_copy c tp high item) i =
     (if int (i + 1) < high then
        to_Two (4 + ALIGNED_LENGTH c (unat (LEntry_klen (data tp) (slot tp (- int i))))
                  + sizeof_ObjectID c)
      else if int (i + 1) = high then
        to_Two (to_Two (4 + ALIGNED_LENGTH c (unat (klen item))) + sizeof_ObjectID c)
      else
        to_Two (4 + ALIGNED_LENGTH c (unat (LEntry_klen (data tp) (slot tp (- (int i - 1)))))
                  + sizeof_ObjectID c))"
  by (simp add: SplitLeaf_copy_def chunk_len_def Let_def sizeof_Two_def)

lemma wf_LeafItem_len:
  assumes "wf_LeafItem c it"
  shows "to_Two (4 + ALIGNED_LENGTH c (unat (klen it))) = 4 + ALIGNED_LENGTH c (unat (klen it))"
proof -
  have "length (kval it) < 32768" "ALIGNED_LENGTH c (unat (klen it)) \<le> length (kval it)"
    using assms by (simp_all add: wf_LeafItem_def)
  then show ?thesis by (intro to_Two_id) linarith
qed

lemma two_memcpy:
  assumes "off \<le> length d" "length b = l"
  shows "memcpy (take off d @ b @ drop (off + l) d) (off + l) src 0 n
         = take off d @ (b @ take n src) @ drop (off + (l + n)) d"
proof -
  let ?d1 = "take off d @ b @ drop (off + l) d"
  have l1: "length (take off d @ b) = off + l" using assms by simp
  have t: "take (off + l) ?d1 = take off d @ b"
    using l1 by (metis append.assoc append_eq_conv_conj)
  have e1: "drop (off + l) ?d1 = drop (off + l) d"
    using l1 by (metis append.assoc append_eq_conv_conj)
  have "drop (n + (off + l)) ?d1 = drop n (drop (off + l) ?d1)" by (simp only: drop_drop)
  also have "\<dots> = drop n (drop (off + l) d)" by (simp only: e1)
  also have "\<dots> = drop (n + (off + l)) d" by (simp only: drop_drop)
  finally have dr0: "drop (n + (off + l)) ?d1 = drop (n + (off + l)) d" .
  have a1: "off + l + n = n + (off + l)" and a2: "off + (l + n) = n + (off + l)" by simp_all
  have dr: "drop (off + l + n) ?d1 = drop (off + (l + n)) d" by (simp only: a1 a2 dr0)
  show ?thesis
    unfolding memcpy_def by (simp only: t dr drop_0 append_assoc)
qed

lemma SplitLeaf_copy_shape:
  assumes off: "off \<le> length d"
    and it: "ALIGNED_LENGTH c (unat (klen item)) \<le> length (kval item)"
    and bd: "4 + ALIGNED_LENGTH c (unat (klen item)) + sizeof_ObjectID c < 65536"
  shows "SplitLeaf_copy c tp high item i d off =
     (chunk_len (SplitLeaf_copy c tp high item) i,
      take off d @ chunk (SplitLeaf_copy c tp high item) i
        @ drop (off + chunk_len (SplitLeaf_copy c tp high item) i) d)"
proof (cases "int (i + 1) = high")
  case True
  let ?l = "4 + ALIGNED_LENGTH c (unat (klen item))"
  let ?b = "take ?l (LeafItem_bytes item)"
  have w1: "to_Two ?l = ?l" using bd by (intro to_Two_id) linarith
  have w2: "to_Two (?l + sizeof_ObjectID c) = ?l + sizeof_ObjectID c"
    using bd by (intro to_Two_id) linarith
  have lb: "length ?b = ?l" using it by (simp add: length_LeafItem_bytes)
  have c: "SplitLeaf_copy c tp high item i d off =
             (?l + sizeof_ObjectID c,
              memcpy (take off d @ ?b @ drop (off + ?l) d) (off + ?l) (oid item) 0 (sizeof_ObjectID c))"
    using True by (simp add: SplitLeaf_copy_def Let_def sizeof_Two_def memcpy_def w1 w2)
  show ?thesis
    using True
    by (simp only: c two_memcpy [OF off lb])
       (simp add: SplitLeaf_chunk SplitLeaf_chunk_len w1 w2)
next
  case False
  then show ?thesis
    by (simp add: SplitLeaf_copy_def chunk_len_def chunk_def memcpy_def Let_def)
qed

lemma wf_leaf_slot:
  assumes "wf_leaf c p" "i < nSlots (hdr p)"
  shows "unat (LEntry_nObjects (data p) (slot p (- int i))) = 1"
    and "unat (LEntry_klen (data p) (slot p (- int i)))
           \<le> ALIGNED_LENGTH c (unat (LEntry_klen (data p) (slot p (- int i))))"
    and "slot p (- int i) + 4 + ALIGNED_LENGTH c (unat (LEntry_klen (data p) (slot p (- int i))))
           + sizeof_ObjectID c \<le> length (data p)"
  using assms by (simp_all add: wf_leaf_def list_all_iff)

lemma wf_leaf_len:
  assumes "wf_leaf c p" "i < nSlots (hdr p)"
  shows "to_Two (4 + ALIGNED_LENGTH c (unat (LEntry_klen (data p) (slot p (- int i))))
                   + sizeof_ObjectID c)
           = 4 + ALIGNED_LENGTH c (unat (LEntry_klen (data p) (slot p (- int i))))
               + sizeof_ObjectID c"
proof -
  have "length (data p) < 32768" using assms(1) by (simp add: wf_leaf_def)
  with wf_leaf_slot(3) [OF assms] show ?thesis by (intro to_Two_id) linarith
qed

lemma SplitLeaf_chunk_copy:
  assumes wf: "wf_leaf c tp" and it: "wf_LeafItem c item"
    and h1: "1 \<le> high" and h2: "high \<le> int (nSlots (hdr tp)) + 1"
    and bd: "4 + ALIGNED_LENGTH c (unat (klen item)) + sizeof_ObjectID c < 65536"
  shows "chunk_copy (SplitLeaf_copy c tp high item) (Suc (nSlots (hdr tp)))"
proof -
  have B: "ALIGNED_LENGTH c (unat (klen item)) \<le> length (kval item)"
    and lo: "length (oid item) = sizeof_ObjectID c"
    using it by (simp_all add: wf_LeafItem_def)
  have len: "length (chunk (SplitLeaf_copy c tp high item) i)
               = chunk_len (SplitLeaf_copy c tp high item) i"
    if i: "i < Suc (nSlots (hdr tp))" for i
  proof -
    consider "int (i + 1) < high" | "int (i + 1) = high" | "high < int (i + 1)" by linarith
    then show ?thesis
    proof cases
      case 1
      then have lt: "i < nSlots (hdr tp)" using h2 by linarith
      from wf_leaf_slot(3) [OF wf lt] wf_leaf_len [OF wf lt] 1 show ?thesis
        by (simp add: SplitLeaf_chunk SplitLeaf_chunk_len)
    next
      case 2
      have w2: "to_Two (4 + ALIGNED_LENGTH c (unat (klen item)) + sizeof_ObjectID c)
                  = 4 + ALIGNED_LENGTH c (unat (klen item)) + sizeof_ObjectID c"
        using bd by (intro to_Two_id)
      from 2 B lo w2 show ?thesis
        by (simp add: SplitLeaf_chunk SplitLeaf_chunk_len length_LeafItem_bytes
              wf_LeafItem_len [OF it])
    next
      case 3
      then have pos: "0 < i" using h1 by linarith
      then have lt: "i - 1 < nSlots (hdr tp)" using i by simp
      have e: "int (i - 1) = int i - 1" using pos by simp
      have w: "slot tp (- (int i - 1)) + 4
                 + ALIGNED_LENGTH c (unat (LEntry_klen (data tp) (slot tp (- (int i - 1)))))
                 + sizeof_ObjectID c \<le> length (data tp)"
        using wf_leaf_slot(3) [OF wf lt] by (simp only: e)
      have wl: "to_Two (4 + ALIGNED_LENGTH c (unat (LEntry_klen (data tp) (slot tp (- (int i - 1)))))
                          + sizeof_ObjectID c)
                  = 4 + ALIGNED_LENGTH c (unat (LEntry_klen (data tp) (slot tp (- (int i - 1)))))
                      + sizeof_ObjectID c"
        using wf_leaf_len [OF wf lt] by (simp only: e)
      from w wl 3 show ?thesis
        by (simp add: SplitLeaf_chunk SplitLeaf_chunk_len)
    qed
  qed
  show ?thesis
    unfolding chunk_copy_def
  proof (intro allI impI conjI)
    fix i assume "i < Suc (nSlots (hdr tp))"
    then show "length (chunk (SplitLeaf_copy c tp high item) i)
                 = chunk_len (SplitLeaf_copy c tp high item) i"
      using len by blast
  next
    fix i d off assume "off \<le> length (d :: byte list)"
    then show "SplitLeaf_copy c tp high item i d off =
            (chunk_len (SplitLeaf_copy c tp high item) i,
             take off d @ chunk (SplitLeaf_copy c tp high item) i
               @ drop (off + chunk_len (SplitLeaf_copy c tp high item) i) d)"
      by (rule SplitLeaf_copy_shape) (rule B, rule bd)
  qed
qed

subsection \<open>What each chunk of edubtm\_SplitLeaf decodes to\<close>

lemma leaf_entries_nth:
  "i < nSlots (hdr p) \<Longrightarrow> leaf_entries c p ! i = LEntry_at c (data p) (slot p (- int i))"
  by (simp add: leaf_entries_def)

lemma length_leaf_entries: "length (leaf_entries c p) = nSlots (hdr p)"
  by (simp add: leaf_entries_def)

lemma SplitLeaf_chunk_entry:
  assumes wf: "wf_leaf c tp" and it: "wf_LeafItem c item"
    and h1: "1 \<le> high" and h2: "high \<le> int (nSlots (hdr tp)) + 1"
    and i: "i < Suc (nSlots (hdr tp))"
  shows "LEntry_at c (chunk (SplitLeaf_copy c tp high item) i @ rest) 0
           = merged high (LeafItem_entry item) (leaf_entries c tp) ! i"
proof -
  have m: "merged high (LeafItem_entry item) (leaf_entries c tp) ! i =
           (if int (i + 1) < high then leaf_entries c tp ! i
            else if int (i + 1) = high then LeafItem_entry item
            else leaf_entries c tp ! (i - 1))"
    by (rule merged_nth) (use h1 h2 i in \<open>simp_all add: length_leaf_entries\<close>)
  consider "int (i + 1) < high" | "int (i + 1) = high" | "high < int (i + 1)" by linarith
  then show ?thesis
  proof cases
    case 1
    then have lt: "i < nSlots (hdr tp)" using h2 by linarith
    note w = wf_leaf_slot [OF wf lt]
    from LEntry_read_old [OF w(3) w(1) w(2)] wf_leaf_len [OF wf lt] 1 lt show ?thesis
      by (simp add: m SplitLeaf_chunk leaf_entries_nth)
  next
    case 2
    from LEntry_read_item [OF it] 2 show ?thesis
      by (simp add: m SplitLeaf_chunk wf_LeafItem_len [OF it])
  next
    case 3
    then have pos: "0 < i" using h1 by linarith
    then have lt: "i - 1 < nSlots (hdr tp)" using i by simp
    have e: "int (i - 1) = int i - 1" using pos by simp
    note w = wf_leaf_slot [OF wf lt]
    have r: "LEntry_at c (take (4 + ALIGNED_LENGTH c (unat (LEntry_klen (data tp) (slot tp (- (int i - 1)))))
                                  + sizeof_ObjectID c)
                           (drop (slot tp (- (int i - 1))) (data tp)) @ rest) 0
               = LEntry_at c (data tp) (slot tp (- (int i - 1)))"
      using LEntry_read_old [OF w(3) w(1) w(2), of rest] by (simp only: e)
    have n: "leaf_entries c tp ! (i - 1) = LEntry_at c (data tp) (slot tp (- (int i - 1)))"
      using leaf_entries_nth [OF lt, of c] by (simp only: e)
    have wl: "to_Two (4 + ALIGNED_LENGTH c (unat (LEntry_klen (data tp) (slot tp (- (int i - 1)))))
                        + sizeof_ObjectID c)
                = 4 + ALIGNED_LENGTH c (unat (LEntry_klen (data tp) (slot tp (- (int i - 1)))))
                    + sizeof_ObjectID c"
      using wf_leaf_len [OF wf lt] by (simp only: e)
    from 3 r n wl show ?thesis
      by (simp add: m SplitLeaf_chunk)
  qed
qed

subsection \<open>The loop leaves every header field but free alone\<close>

lemma pack_step_hdr_free:
  "hdr (mem (pack_step H cf cn fp np i s) q)
     = (hdr (mem s q))\<lparr>free := free (hdr (mem (pack_step H cf cn fp np i s) q))\<rparr>"
  by (cases "sum' s < H") (simp_all add: pack_step_f pack_step_n set_entry_simps)

lemma pack_loop_hdr_free:
  "hdr (mem (pack_loop H cf cn fp np s n) q)
     = (hdr (mem s q))\<lparr>free := free (hdr (mem (pack_loop H cf cn fp np s n) q))\<rparr>"
proof (induction n)
  case 0
  show ?case by simp
next
  case (Suc n)
  let ?s1 = "pack_loop H cf cn fp np s n"
  let ?s2 = "pack_step H cf cn fp np n ?s1"
  have "hdr (mem ?s2 q) = (hdr (mem ?s1 q))\<lparr>free := free (hdr (mem ?s2 q))\<rparr>"
    by (rule pack_step_hdr_free)
  also have "\<dots> = ((hdr (mem s q))\<lparr>free := free (hdr (mem ?s1 q))\<rparr>)\<lparr>free := free (hdr (mem ?s2 q))\<rparr>"
    using Suc by simp
  also have "\<dots> = (hdr (mem s q))\<lparr>free := free (hdr (mem ?s2 q))\<rparr>" by simp
  finally show ?case by simp
qed

lemma pack_loop_links:
  fixes s :: "BtreeLHdr split_state"
  shows "prevPage (hdr (mem (pack_loop H cf cn fp np s n) q)) = prevPage (hdr (mem s q))"
    and "nextPage (hdr (mem (pack_loop H cf cn fp np s n) q)) = nextPage (hdr (mem s q))"
  by (subst pack_loop_hdr_free, simp)+

lemma pack_loop_pid:
  "pid (hdr (mem (pack_loop H cf cn fp np s n) q)) = pid (hdr (mem s q))"
  using pack_loop_hdr by blast

subsection \<open>The result of edubtm\_SplitLeaf in terms of the loop\<close>

lemma edubtm_SplitLeaf_fail:
  assumes "e_AllocPage ps < 0 \<or> e_Init ps < 0 \<or> e_GetTrain ps < 0"
  shows "edubtm_SplitLeaf c ps m root fp high item ritem =
     ((if e_AllocPage ps < 0 then e_AllocPage ps
       else if e_Init ps < 0 then e_Init ps else e_GetTrain ps), m, ritem)"
proof (cases "e_AllocPage ps < 0")
  case True
  then show ?thesis by (simp add: edubtm_SplitLeaf_def)
next
  case a: False
  show ?thesis
  proof (cases "e_Init ps < 0")
    case True
    with a show ?thesis by (simp add: edubtm_SplitLeaf_def)
  next
    case False
    with a assms have "e_GetTrain ps < 0" by simp
    with a False show ?thesis by (simp add: edubtm_SplitLeaf_def)
  qed
qed

lemma SplitLeaf_finish_simps:
  "data (SplitLeaf_finish fp np s q) = data (mem s q)"
  "slot (SplitLeaf_finish fp np s q) = slot (mem s q)"
  "free (hdr (SplitLeaf_finish fp np s q)) = free (hdr (mem s q))"
  "pid (hdr (SplitLeaf_finish fp np s q)) = pid (hdr (mem s q))"
  "q \<noteq> fp \<Longrightarrow> q \<noteq> np \<Longrightarrow> SplitLeaf_finish fp np s q = mem s q"
  "fp \<noteq> np \<Longrightarrow> nSlots (hdr (SplitLeaf_finish fp np s np)) = k s"
  "fp \<noteq> np \<Longrightarrow> nSlots (hdr (SplitLeaf_finish fp np s fp)) = j s"
  "fp \<noteq> np \<Longrightarrow> prevPage (hdr (SplitLeaf_finish fp np s np)) = pageNo (pid (hdr (mem s fp)))"
  "fp \<noteq> np \<Longrightarrow> nextPage (hdr (SplitLeaf_finish fp np s np)) = nextPage (hdr (mem s fp))"
  "fp \<noteq> np \<Longrightarrow> nextPage (hdr (SplitLeaf_finish fp np s fp)) = pageNo (pid (hdr (mem s np)))"
  "fp \<noteq> np \<Longrightarrow> prevPage (hdr (SplitLeaf_finish fp np s fp)) = prevPage (hdr (mem s fp))"
  by (simp_all add: SplitLeaf_finish_def Let_def)

lemma edubtm_SplitLeaf_ok:
  assumes ok: "0 \<le> e_AllocPage ps" "0 \<le> e_Init ps" "0 \<le> e_GetTrain ps"
    and s: "s = SplitLeaf_loop c (m fp) fp (pageNo (newPid ps)) high item (split_init m)
                  (to_Two (nSlots (hdr (m fp)) + 1))"
  shows "fst (snd (edubtm_SplitLeaf c ps m root fp high item ritem))
           = SplitLeaf_finish fp (pageNo (newPid ps)) s"
    and "spid (snd (snd (edubtm_SplitLeaf c ps m root fp high item ritem)))
           = pageNo (pid (hdr (mem s (pageNo (newPid ps)))))"
    and "klen (snd (snd (edubtm_SplitLeaf c ps m root fp high item ritem)))
           = Two_of_bytes (take (sizeof_InternalItem c - 4)
               (drop (slot (mem s (pageNo (newPid ps))) 0 + 2) (data (mem s (pageNo (newPid ps))))))"
    and "kval (snd (snd (edubtm_SplitLeaf c ps m root fp high item ritem)))
           = drop 2 (take (sizeof_InternalItem c - 4)
               (drop (slot (mem s (pageNo (newPid ps))) 0 + 2) (data (mem s (pageNo (newPid ps))))))"
  using ok unfolding s
  by (simp_all add: edubtm_SplitLeaf_def Let_def SplitLeaf_finish_simps
        sizeof_Two_def sizeof_ShortPageID_def)

lemma edubtm_SplitLeaf_mem:
  assumes ok: "0 \<le> e_AllocPage ps" "0 \<le> e_Init ps" "0 \<le> e_GetTrain ps"
    and s: "s = SplitLeaf_loop c (m fp) fp (pageNo (newPid ps)) high item (split_init m)
                  (to_Two (nSlots (hdr (m fp)) + 1))"
    and m': "m' = fst (snd (edubtm_SplitLeaf c ps m root fp high item ritem))"
  shows "data (m' q) = data (mem s q)"
    and "slot (m' q) = slot (mem s q)"
    and "free (hdr (m' q)) = free (hdr (mem s q))"
    and "pid (hdr (m' q)) = pid (hdr (mem s q))"
    and "q \<noteq> fp \<Longrightarrow> q \<noteq> pageNo (newPid ps) \<Longrightarrow> m' q = mem s q"
    and "fp \<noteq> pageNo (newPid ps) \<Longrightarrow> nSlots (hdr (m' (pageNo (newPid ps)))) = k s"
    and "fp \<noteq> pageNo (newPid ps) \<Longrightarrow> nSlots (hdr (m' fp)) = j s"
    and "fp \<noteq> pageNo (newPid ps) \<Longrightarrow>
           prevPage (hdr (m' (pageNo (newPid ps)))) = pageNo (pid (hdr (mem s fp)))"
    and "fp \<noteq> pageNo (newPid ps) \<Longrightarrow>
           nextPage (hdr (m' (pageNo (newPid ps)))) = nextPage (hdr (mem s fp))"
    and "fp \<noteq> pageNo (newPid ps) \<Longrightarrow>
           nextPage (hdr (m' fp)) = pageNo (pid (hdr (mem s (pageNo (newPid ps)))))"
    and "fp \<noteq> pageNo (newPid ps) \<Longrightarrow> prevPage (hdr (m' fp)) = prevPage (hdr (mem s fp))"
  unfolding m' edubtm_SplitLeaf_ok(1) [OF ok s]
  by (simp_all add: SplitLeaf_finish_simps)

lemma edubtm_SplitLeaf_ret:
  assumes ok: "0 \<le> e_AllocPage ps" "0 \<le> e_Init ps" "0 \<le> e_GetTrain ps"
  shows "fst (edubtm_SplitLeaf c ps m root fp high item ritem) =
           (if e_FreeTrain ps < 0 then e_FreeTrain ps else eNOERROR)"
  using ok by (simp add: edubtm_SplitLeaf_def Let_def)

subsection \<open>The entries of the two pages after edubtm\_SplitLeaf\<close>

lemma SplitLeaf_entries_bd:
  assumes ok: "0 \<le> e_AllocPage ps" "0 \<le> e_Init ps" "0 \<le> e_GetTrain ps"
    and ne: "fp \<noteq> pageNo (newPid ps)"
    and wf: "wf_leaf c (m fp)" and it: "wf_LeafItem c item"
    and h1: "1 \<le> high" and h2: "high \<le> int (nSlots (hdr (m fp))) + 1"
    and bd: "4 + ALIGNED_LENGTH c (unat (klen item)) + sizeof_ObjectID c < 65536"
    and s: "s = SplitLeaf_loop c (m fp) fp (pageNo (newPid ps)) high item (split_init m)
                  (nSlots (hdr (m fp)) + 1)"
    and m': "m' = fst (snd (edubtm_SplitLeaf c ps m root fp high item ritem))"
  shows "leaf_entries c (m' fp)
           = take (j s) (merged high (LeafItem_entry item) (leaf_entries c (m fp)))"
    and "leaf_entries c (m' (pageNo (newPid ps)))
           = drop (j s) (merged high (LeafItem_entry item) (leaf_entries c (m fp)))"
    and "j s + k s = nSlots (hdr (m fp)) + 1"
proof -
  let ?np = "pageNo (newPid ps)"
  let ?n = "nSlots (hdr (m fp))"
  let ?cp = "SplitLeaf_copy c (m fp) high item"
  let ?M = "merged high (LeafItem_entry item) (leaf_entries c (m fp))"
  have sp: "s = pack_loop (BL_HALF c) ?cp ?cp fp ?np (split_init m) (Suc ?n)"
    by (simp add: s SplitLeaf_loop_pack)
  have cc: "chunk_copy ?cp (Suc ?n)"
    by (rule SplitLeaf_chunk_copy [OF wf it h1 h2 bd])
  have jk: "j s + k s = Suc ?n" unfolding sp by (rule pack_loop_j_k)
  then show "j s + k s = nSlots (hdr (m fp)) + 1" by simp
  have lM: "length ?M = Suc ?n" by (simp add: length_merged length_leaf_entries)
  have rf: "LEntry_at c (data (mem s fp)) (slot (mem s fp) (- int t)) = ?M ! t" if t: "t < j s" for t
  proof -
    from t have t': "t < j (pack_loop (BL_HALF c) ?cp ?cp fp ?np (split_init m) (Suc ?n))"
      by (simp only: sp)
    from pack_loop_read_f [OF ne cc cc t'] obtain rest where
      "drop (slot (mem s fp) (- int t)) (data (mem s fp)) = chunk ?cp t @ rest"
      unfolding sp by blast
    then have "LEntry_at c (data (mem s fp)) (slot (mem s fp) (- int t)) = LEntry_at c (chunk ?cp t @ rest) 0"
      by (simp add: LEntry_at_drop [of c "data (mem s fp)"])
    also have "\<dots> = ?M ! t"
      by (rule SplitLeaf_chunk_entry [OF wf it h1 h2]) (use t jk in simp)
    finally show ?thesis .
  qed
  have rn: "LEntry_at c (data (mem s ?np)) (slot (mem s ?np) (- int t)) = ?M ! (j s + t)"
    if t: "t < k s" for t
  proof -
    from t have t': "t < k (pack_loop (BL_HALF c) ?cp ?cp fp ?np (split_init m) (Suc ?n))"
      by (simp only: sp)
    from pack_loop_read_n [OF ne cc cc t'] obtain rest where
      "drop (slot (mem s ?np) (- int t)) (data (mem s ?np)) = chunk ?cp (j s + t) @ rest"
      unfolding sp by blast
    then have "LEntry_at c (data (mem s ?np)) (slot (mem s ?np) (- int t))
               = LEntry_at c (chunk ?cp (j s + t) @ rest) 0"
      by (simp add: LEntry_at_drop [of c "data (mem s ?np)"])
    also have "\<dots> = ?M ! (j s + t)"
      by (rule SplitLeaf_chunk_entry [OF wf it h1 h2]) (use t jk in simp)
    finally show ?thesis .
  qed
  have "nSlots (hdr (m fp)) < 65535" using wf by (simp add: wf_leaf_def)
  then have s2: "s = SplitLeaf_loop c (m fp) fp (pageNo (newPid ps)) high item (split_init m)
                       (to_Two (nSlots (hdr (m fp)) + 1))"
    by (simp only: s to_Two_maxLoop)
  note pr = edubtm_SplitLeaf_mem [OF ok s2 m']
  have "leaf_entries c (m' fp) = map (\<lambda>t. ?M ! t) [0..<j s]"
    using rf by (simp add: leaf_entries_def pr(1,2) pr(7) [OF ne])
  also have "\<dots> = take (j s) ?M" by (rule map_nth_take) (use jk lM in simp)
  finally show "leaf_entries c (m' fp) = take (j s) ?M" .
  have "leaf_entries c (m' ?np) = map (\<lambda>t. ?M ! (j s + t)) [0..<k s]"
    using rn by (simp add: leaf_entries_def pr(1,2) pr(6) [OF ne])
  also have "\<dots> = drop (j s) ?M" by (rule map_nth_drop) (use jk lM in simp)
  finally show "leaf_entries c (m' ?np) = drop (j s) ?M" .
qed

text \<open>
  A page without entries: the loop runs once and copies the item. Here the length of
  the copy plays no part in what is read back, so no bound on \<^verbatim>\<open>sizeof(ObjectID)\<close> is
  needed.
\<close>

lemma SplitLeaf_copy_item:
  assumes it: "wf_LeafItem c item"
  shows "LEntry_at c (snd (SplitLeaf_copy c tp 1 item 0 d 0)) 0 = LeafItem_entry item"
proof -
  let ?l = "4 + ALIGNED_LENGTH c (unat (klen item))"
  let ?b = "take ?l (LeafItem_bytes item)"
  let ?d1 = "?b @ drop ?l d"
  have B: "ALIGNED_LENGTH c (unat (klen item)) \<le> length (kval item)"
    using it by (simp add: wf_LeafItem_def)
  have lb: "length ?b = ?l" using B by (simp add: length_LeafItem_bytes)
  have t: "take ?l ?d1 = ?b" using lb by simp
  have "snd (SplitLeaf_copy c tp 1 item 0 d 0)
          = memcpy (memcpy d 0 (LeafItem_bytes item) 0 ?l) ?l (oid item) 0 (sizeof_ObjectID c)"
    by (simp add: SplitLeaf_copy_def Let_def sizeof_Two_def wf_LeafItem_len [OF it])
  also have "memcpy d 0 (LeafItem_bytes item) 0 ?l = ?d1"
    by (simp add: memcpy_def)
  also have "memcpy ?d1 ?l (oid item) 0 (sizeof_ObjectID c)
               = (?b @ take (sizeof_ObjectID c) (oid item)) @ drop (?l + sizeof_ObjectID c) ?d1"
    unfolding memcpy_def by (simp only: t drop_0 append_assoc)
  finally have e: "snd (SplitLeaf_copy c tp 1 item 0 d 0)
          = (?b @ take (sizeof_ObjectID c) (oid item)) @ drop (?l + sizeof_ObjectID c) ?d1" .
  show ?thesis by (simp only: e LEntry_read_item [OF it])
qed

lemma SplitLeaf_entries_empty:
  assumes ok: "0 \<le> e_AllocPage ps" "0 \<le> e_Init ps" "0 \<le> e_GetTrain ps"
    and ne: "fp \<noteq> pageNo (newPid ps)"
    and it: "wf_LeafItem c item"
    and n0: "nSlots (hdr (m fp)) = 0"
    and h1: "1 \<le> high" and h2: "high \<le> int (nSlots (hdr (m fp))) + 1"
    and s: "s = SplitLeaf_loop c (m fp) fp (pageNo (newPid ps)) high item (split_init m)
                  (nSlots (hdr (m fp)) + 1)"
    and m': "m' = fst (snd (edubtm_SplitLeaf c ps m root fp high item ritem))"
  shows "leaf_entries c (m' fp)
           = take (j s) (merged high (LeafItem_entry item) (leaf_entries c (m fp)))"
    and "leaf_entries c (m' (pageNo (newPid ps)))
           = drop (j s) (merged high (LeafItem_entry item) (leaf_entries c (m fp)))"
    and "j s + k s = nSlots (hdr (m fp)) + 1"
proof -
  let ?np = "pageNo (newPid ps)"
  let ?cp = "SplitLeaf_copy c (m fp) 1 item"
  let ?s0 = "split_init m :: BtreeLHdr split_state"
  have hi: "high = 1" using h1 h2 n0 by simp
  have M: "merged high (LeafItem_entry item) (leaf_entries c (m fp)) = [LeafItem_entry item]"
    by (simp add: merged_def leaf_entries_def n0)
  have sp: "s = pack_step (BL_HALF c) ?cp ?cp fp ?np 0 ?s0"
    by (simp add: s n0 hi SplitLeaf_step_pack)
  have i0: "sum' ?s0 = 0" "j ?s0 = 0" "k ?s0 = 0" "fEntryOffset ?s0 = 0" "nEntryOffset ?s0 = 0"
    "mem ?s0 = m"
    by (simp_all add: split_init_def)
  have "nSlots (hdr (m fp)) < 65535" using n0 by simp
  then have s2: "s = SplitLeaf_loop c (m fp) fp (pageNo (newPid ps)) high item (split_init m)
                       (to_Two (nSlots (hdr (m fp)) + 1))"
    by (simp only: s to_Two_maxLoop)
  note pr = edubtm_SplitLeaf_mem [OF ok s2 m']
  have "leaf_entries c (m' fp) = take (j s) [LeafItem_entry item]
      \<and> leaf_entries c (m' ?np) = drop (j s) [LeafItem_entry item]
      \<and> j s + k s = 1"
  proof (cases "0 < BL_HALF c")
    case True
    then have lt: "sum' ?s0 < BL_HALF c" by (simp add: i0)
    have js: "j s = 1" and ks: "k s = 0"
      and d: "data (mem s fp) = snd (?cp 0 (data (m fp)) 0)"
      and sl: "slot (mem s fp) 0 = 0"
      unfolding sp pack_step_f [OF lt] by (simp_all add: i0 set_entry_simps)
    have "leaf_entries c (m' fp) = [LEntry_at c (data (mem s fp)) (slot (mem s fp) 0)]"
      by (simp add: leaf_entries_def pr(1,2) pr(7) [OF ne] js)
    also have "\<dots> = [LeafItem_entry item]"
      by (simp only: d sl SplitLeaf_copy_item [OF it])
    finally have a: "leaf_entries c (m' fp) = [LeafItem_entry item]" .
    have b: "leaf_entries c (m' ?np) = []"
      by (simp add: leaf_entries_def pr(6) [OF ne] ks)
    from a b js ks show ?thesis by simp
  next
    case False
    then have ge: "\<not> sum' ?s0 < BL_HALF c" by (simp add: i0)
    have js: "j s = 0" and ks: "k s = 1"
      and d: "data (mem s ?np) = snd (?cp 0 (data (m ?np)) 0)"
      and sl: "slot (mem s ?np) 0 = 0"
      unfolding sp pack_step_n [OF ge] by (simp_all add: i0 set_entry_simps)
    have "leaf_entries c (m' ?np) = [LEntry_at c (data (mem s ?np)) (slot (mem s ?np) 0)]"
      by (simp add: leaf_entries_def pr(1,2) pr(6) [OF ne] ks)
    also have "\<dots> = [LeafItem_entry item]"
      by (simp only: d sl SplitLeaf_copy_item [OF it])
    finally have a: "leaf_entries c (m' ?np) = [LeafItem_entry item]" .
    have b: "leaf_entries c (m' fp) = []"
      by (simp add: leaf_entries_def pr(7) [OF ne] js)
    from a b js ks show ?thesis by simp
  qed
  then show "leaf_entries c (m' fp)
           = take (j s) (merged high (LeafItem_entry item) (leaf_entries c (m fp)))"
    and "leaf_entries c (m' (pageNo (newPid ps)))
           = drop (j s) (merged high (LeafItem_entry item) (leaf_entries c (m fp)))"
    and "j s + k s = nSlots (hdr (m fp)) + 1"
    by (simp_all only: M n0)
qed

lemma SplitLeaf_entries:
  assumes ok: "0 \<le> e_AllocPage ps" "0 \<le> e_Init ps" "0 \<le> e_GetTrain ps"
    and ne: "fp \<noteq> pageNo (newPid ps)"
    and wf: "wf_leaf c (m fp)" and it: "wf_LeafItem c item"
    and h1: "1 \<le> high" and h2: "high \<le> int (nSlots (hdr (m fp))) + 1"
    and s: "s = SplitLeaf_loop c (m fp) fp (pageNo (newPid ps)) high item (split_init m)
                  (nSlots (hdr (m fp)) + 1)"
    and m': "m' = fst (snd (edubtm_SplitLeaf c ps m root fp high item ritem))"
  shows "leaf_entries c (m' fp)
           = take (j s) (merged high (LeafItem_entry item) (leaf_entries c (m fp)))"
    and "leaf_entries c (m' (pageNo (newPid ps)))
           = drop (j s) (merged high (LeafItem_entry item) (leaf_entries c (m fp)))"
    and "j s + k s = nSlots (hdr (m fp)) + 1"
proof -
  have "leaf_entries c (m' fp)
           = take (j s) (merged high (LeafItem_entry item) (leaf_entries c (m fp)))
      \<and> leaf_entries c (m' (pageNo (newPid ps)))
           = drop (j s) (merged high (LeafItem_entry item) (leaf_entries c (m fp)))
      \<and> j s + k s = nSlots (hdr (m fp)) + 1"
  proof (cases "nSlots (hdr (m fp)) = 0")
    case True
    from SplitLeaf_entries_empty [OF ok ne it True h1 h2 s m'] show ?thesis by blast
  next
    case False
    then have p: "0 < nSlots (hdr (m fp))" by simp
    have "length (data (m fp)) < 32768" using wf by (simp add: wf_leaf_def)
    with wf_leaf_slot(3) [OF wf p] have o: "sizeof_ObjectID c < 32764" by linarith
    have "length (kval item) < 32768" "ALIGNED_LENGTH c (unat (klen item)) \<le> length (kval item)"
      using it by (simp_all add: wf_LeafItem_def)
    with o have bd: "4 + ALIGNED_LENGTH c (unat (klen item)) + sizeof_ObjectID c < 65536"
      by linarith
    from SplitLeaf_entries_bd [OF ok ne wf it h1 h2 bd s m'] show ?thesis by blast
  qed
  then show "leaf_entries c (m' fp)
           = take (j s) (merged high (LeafItem_entry item) (leaf_entries c (m fp)))"
    and "leaf_entries c (m' (pageNo (newPid ps)))
           = drop (j s) (merged high (LeafItem_entry item) (leaf_entries c (m fp)))"
    and "j s + k s = nSlots (hdr (m fp)) + 1"
    by simp_all
qed

subsection \<open>The split point depends on the entry lengths only\<close>




subsection \<open>When the new page receives an entry\<close>


lemma pack_loop_slot0:
  assumes ne: "fp \<noteq> np"
  shows "(k (pack_loop H cf cn fp np (split_init m) n) = 0
            \<longrightarrow> nEntryOffset (pack_loop H cf cn fp np (split_init m) n) = 0)
       \<and> (0 < k (pack_loop H cf cn fp np (split_init m) n)
            \<longrightarrow> slot (mem (pack_loop H cf cn fp np (split_init m) n) np) 0 = 0)"
proof (induction n)
  case 0
  show ?case by (simp add: split_init_def)
next
  case (Suc n)
  let ?s = "pack_loop H cf cn fp np (split_init m) n"
  show ?case
  proof (cases "sum' ?s < H")
    case True
    with Suc ne show ?thesis by (simp add: pack_step_f)
  next
    case False
    show ?thesis
    proof (cases "k ?s = 0")
      case True
      with Suc False show ?thesis by (simp add: pack_step_n set_entry_simps)
    next
      case k: False
      with Suc False show ?thesis by (simp add: pack_step_n set_entry_simps)
    qed
  qed
qed

subsection \<open>The up-entry read from the new page\<close>



subsection \<open>Running the splitters on the concrete pages\<close>

lemma SplitInternal_loop_numeral:
  "SplitInternal_loop c tpage fpage npage high item s (numeral v) =
     SplitInternal_step c tpage fpage npage high item (pred_numeral v)
       (SplitInternal_loop c tpage fpage npage high item s (pred_numeral v))"
  by (simp add: numeral_eq_Suc)

lemma list_all_upt_numeral:
  "list_all P [0..<numeral v] = (list_all P [0..<pred_numeral v] \<and> P (pred_numeral v))"
  by (simp add: numeral_eq_Suc)

lemma map_upt_numeral:
  "map f [0..<numeral v] = map f [0..<pred_numeral v] @ [f (pred_numeral v)]"
  by (simp add: numeral_eq_Suc)


lemma SplitLeaf_loop_numeral:
  "SplitLeaf_loop c tpage fpage npage high item s (numeral v) =
     SplitLeaf_step c tpage fpage npage high item (pred_numeral v)
       (SplitLeaf_loop c tpage fpage npage high item s (pred_numeral v))"
  by (simp add: numeral_eq_Suc)

text \<open>
  The copies and the loop bodies with their local variables substituted, for running
  them on concrete pages.
\<close>

lemma SplitInternal_copy_f_eval:
  "SplitInternal_copy_f c tpage high item i d off =
     (if int (i + 1) < high then
        (to_Two (6 + unat (IEntry_klen (data tpage) (slot tpage (- int i)))),
         memcpy d off (data tpage) (slot tpage (- int i))
           (to_Two (6 + unat (IEntry_klen (data tpage) (slot tpage (- int i))))))
      else if int (i + 1) = high then
        (to_Two (6 + ALIGNED_LENGTH c (unat (klen item))),
         memcpy d off (InternalItem_bytes item) 0 (to_Two (6 + ALIGNED_LENGTH c (unat (klen item)))))
      else
        (to_Two (6 + unat (IEntry_klen (data tpage) (slot tpage (- (int i - 1))))),
         memcpy d off (data tpage) (slot tpage (- (int i - 1)))
           (to_Two (6 + unat (IEntry_klen (data tpage) (slot tpage (- (int i - 1))))))))"
  by (simp add: SplitInternal_copy_f_def Let_def sizeof_ShortPageID_def sizeof_Two_def)

lemma SplitInternal_copy_n_eval:
  "SplitInternal_copy_n c tpage high item i d off =
     (if int (i + 1) < high then
        (to_Two (6 + unat (IEntry_klen (data tpage) (slot tpage (- int i)))),
         memcpy d off (data tpage) (slot tpage (- int i))
           (to_Two (6 + unat (IEntry_klen (data tpage) (slot tpage (- int i))))))
      else if int (i + 1) = high then
        (to_Two (6 + unat (klen item)),
         memcpy d off (InternalItem_bytes item) 0 (to_Two (6 + unat (klen item))))
      else
        (to_Two (6 + unat (IEntry_klen (data tpage) (slot tpage (- (int i - 1))))),
         memcpy d off (data tpage) (slot tpage (- (int i - 1)))
           (to_Two (6 + unat (IEntry_klen (data tpage) (slot tpage (- (int i - 1))))))))"
  by (simp add: SplitInternal_copy_n_def Let_def sizeof_ShortPageID_def sizeof_Two_def)

lemma SplitLeaf_copy_eval:
  "SplitLeaf_copy c tpage high item i d off =
     (if int (i + 1) < high then
        (to_Two (4 + ALIGNED_LENGTH c (unat (LEntry_klen (data tpage) (slot tpage (- int i))))
                   + sizeof_ObjectID c),
         memcpy d off (data tpage) (slot tpage (- int i))
           (to_Two (4 + ALIGNED_LENGTH c (unat (LEntry_klen (data tpage) (slot tpage (- int i))))
                      + sizeof_ObjectID c)))
      else if int (i + 1) = high then
        (to_Two (to_Two (4 + ALIGNED_LENGTH c (unat (klen item))) + sizeof_ObjectID c),
         memcpy (memcpy d off (LeafItem_bytes item) 0 (to_Two (4 + ALIGNED_LENGTH c (unat (klen item)))))
           (off + to_Two (4 + ALIGNED_LENGTH c (unat (klen item)))) (oid item) 0 (sizeof_ObjectID c))
      else
        (to_Two (4 + ALIGNED_LENGTH c (unat (LEntry_klen (data tpage) (slot tpage (- (int i - 1)))))
                   + sizeof_ObjectID c),
         memcpy d off (data tpage) (slot tpage (- (int i - 1)))
           (to_Two (4 + ALIGNED_LENGTH c (unat (LEntry_klen (data tpage) (slot tpage (- (int i - 1)))))
                      + sizeof_ObjectID c))))"
  by (simp add: SplitLeaf_copy_def Let_def sizeof_Two_def)

lemma SplitInternal_step_eval:
  "SplitInternal_step c tpage fpage npage high item i s =
     (if sum' s < BI_HALF c then
        s\<lparr>mem := (mem s)(fpage := set_entry (mem s fpage)
                  (snd (SplitInternal_copy_f c tpage high item i (data (mem s fpage)) (fEntryOffset s)))
                  (j s) (fEntryOffset s)
                  (fst (SplitInternal_copy_f c tpage high item i (data (mem s fpage)) (fEntryOffset s)))),
          fEntryOffset := fEntryOffset s
            + fst (SplitInternal_copy_f c tpage high item i (data (mem s fpage)) (fEntryOffset s)),
          j := j s + 1,
          sum' := sum' s
            + fst (SplitInternal_copy_f c tpage high item i (data (mem s fpage)) (fEntryOffset s)) + 2\<rparr>
      else
        s\<lparr>mem := (mem s)(npage := set_entry (mem s npage)
                  (snd (SplitInternal_copy_n c tpage high item i (data (mem s npage)) (nEntryOffset s)))
                  (k s) (nEntryOffset s)
                  (fst (SplitInternal_copy_n c tpage high item i (data (mem s npage)) (nEntryOffset s)))),
          nEntryOffset := nEntryOffset s
            + fst (SplitInternal_copy_n c tpage high item i (data (mem s npage)) (nEntryOffset s)),
          k := k s + 1,
          sum' := sum' s
            + fst (SplitInternal_copy_n c tpage high item i (data (mem s npage)) (nEntryOffset s)) + 2\<rparr>)"
  by (simp add: SplitInternal_step_pack pack_step_f pack_step_n)

lemma SplitLeaf_step_eval:
  "SplitLeaf_step c tpage fpage npage high item i s =
     (if sum' s < BL_HALF c then
        s\<lparr>mem := (mem s)(fpage := set_entry (mem s fpage)
                  (snd (SplitLeaf_copy c tpage high item i (data (mem s fpage)) (fEntryOffset s)))
                  (j s) (fEntryOffset s)
                  (fst (SplitLeaf_copy c tpage high item i (data (mem s fpage)) (fEntryOffset s)))),
          fEntryOffset := fEntryOffset s
            + fst (SplitLeaf_copy c tpage high item i (data (mem s fpage)) (fEntryOffset s)),
          j := j s + 1,
          sum' := sum' s
            + fst (SplitLeaf_copy c tpage high item i (data (mem s fpage)) (fEntryOffset s)) + 2\<rparr>
      else
        s\<lparr>mem := (mem s)(npage := set_entry (mem s npage)
                  (snd (SplitLeaf_copy c tpage high item i (data (mem s npage)) (nEntryOffset s)))
                  (k s) (nEntryOffset s)
                  (fst (SplitLeaf_copy c tpage high item i (data (mem s npage)) (nEntryOffset s)))),
          nEntryOffset := nEntryOffset s
            + fst (SplitLeaf_copy c tpage high item i (data (mem s npage)) (nEntryOffset s)),
          k := k s + 1,
          sum' := sum' s
            + fst (SplitLeaf_copy c tpage high item i (data (mem s npage)) (nEntryOffset s)) + 2\<rparr>)"
  by (simp add: SplitLeaf_step_pack pack_step_f pack_step_n)

lemmas ex_eval = list_all_upt_numeral map_upt_numeral to_Two_def
  ex_IEntry3_def ex_ipage3_def ex_imem3_def ex_iitem3_def ex_ipage'_def ex_inew'_def ex_imem'_def
  ex_store'_def ex_LEntry_def ex_lpage_def ex_lnew_def ex_lnext_def ex_lmem_def ex_litem_def
  ex_root_def ex_lpage'_def ex_lnew'_def ex_lmem'_def ex_lpage2_def ex_lmem2_def
  ex_lpage3_def ex_lmem3_def ex_lmem3'_def ex_imem3'_def
  LEntry_klen_def LEntry_nObjects_def LeafItem_bytes_def
  SplitLeaf_step_eval SplitLeaf_copy_eval SplitLeaf_loop_numeral ex_store_fail_def ex_consts_def ex_store_def ex_IEntry_def ex_ipage_def ex_inew_def ex_imem_def
  ex_iitem_def ex_ritem_def
  memcpy_def Two_bytes_def Four_bytes_def Two_of_bytes_def Four_of_bytes_def
  IEntry_klen_def IEntry_spid_def InternalItem_bytes_def InternalItem_of_bytes_def
  sizeof_Two_def sizeof_ShortPageID_def split_init_def
  SplitInternal_step_eval SplitInternal_copy_f_eval SplitInternal_copy_n_eval set_entry_def Let_def
  SplitInternal_loop_numeral

lemma ex_wf: "wf_internal ex_ipage"
  by (simp add: wf_internal_def ex_eval)

lemma ex_wfi: "wf_InternalItem ex_consts ex_iitem"
  by (simp add: wf_InternalItem_def ex_eval)

lemma ex_wfl: "wf_leaf ex_consts ex_lpage" "wf_leaf ex_consts ex_lpage'"
  by (simp_all add: wf_leaf_def ex_eval)

lemma ex_wfli: "wf_LeafItem ex_consts ex_litem"
  by (simp add: wf_LeafItem_def ex_eval)




section \<open>Failure before the loop, frame, leaf chain\<close>

text \<open>
  C6. If \<^verbatim>\<open>btm_AllocPage\<close>, the initialisation of the new page or \<^verbatim>\<open>BfM_GetTrain\<close>
  fails, either splitter returns the error code of the failing call and has written
  nothing: the buffer memory, and in it the source page \<^verbatim>\<open>fpage\<close> byte for byte, and
  \<^verbatim>\<open>*ritem\<close> are as on entry.
\<close>

theorem split_failure_leaves_source:
  assumes "e_AllocPage ps < 0 \<or> e_Init ps < 0 \<or> e_GetTrain ps < 0"
  shows "edubtm_SplitInternal c ps mi fp high iitem ritem =
           ((if e_AllocPage ps < 0 then e_AllocPage ps
             else if e_Init ps < 0 then e_Init ps else e_GetTrain ps), mi, ritem)
       \<and> edubtm_SplitLeaf c ps ml root fp high litem ritem =
           ((if e_AllocPage ps < 0 then e_AllocPage ps
             else if e_Init ps < 0 then e_Init ps else e_GetTrain ps), ml, ritem)"
  using edubtm_SplitInternal_fail [OF assms] edubtm_SplitLeaf_fail [OF assms] by simp

theorem split_failure_leaves_source_witness:
  "(e_AllocPage ex_store_fail < 0 \<or> e_Init ex_store_fail < 0 \<or> e_GetTrain ex_store_fail < 0)
   \<and> edubtm_SplitInternal ex_consts ex_store_fail ex_imem 1 3 ex_iitem ex_ritem
       = (-1, ex_imem, ex_ritem)
   \<and> edubtm_SplitLeaf ex_consts ex_store_fail ex_lmem ex_root 1 3 ex_litem ex_ritem
       = (-1, ex_lmem, ex_ritem)"
proof -
  have h: "e_AllocPage ex_store_fail < 0 \<or> e_Init ex_store_fail < 0 \<or> e_GetTrain ex_store_fail < 0"
    by (simp add: ex_store_fail_def)
  have e: "e_AllocPage ex_store_fail = -1" by (simp add: ex_store_fail_def)
  show ?thesis
    using split_failure_leaves_source [OF h, of ex_consts ex_imem 1 3 ex_iitem ex_ritem
        ex_lmem ex_root ex_litem] h
    by (simp add: e)
qed

text \<open>
  C7. Whatever the outcome of a call, a page other than the source page and the newly
  allocated page is the same after \<^verbatim>\<open>edubtm_SplitInternal\<close> or \<^verbatim>\<open>edubtm_SplitLeaf\<close>
  as before; for a leaf split that includes the leaf that was the source's next page.
\<close>

theorem split_frame:
  assumes "q \<noteq> fp" "q \<noteq> pageNo (newPid ps)"
  shows "fst (snd (edubtm_SplitInternal c ps mi fp high iitem ritem)) q = mi q
       \<and> fst (snd (edubtm_SplitLeaf c ps ml root fp high litem ritem)) q = ml q"
proof (cases "e_AllocPage ps < 0 \<or> e_Init ps < 0 \<or> e_GetTrain ps < 0")
  case True
  then show ?thesis
    by (simp add: edubtm_SplitInternal_fail [OF True] edubtm_SplitLeaf_fail [OF True])
next
  case False
  then have ok: "0 \<le> e_AllocPage ps" "0 \<le> e_Init ps" "0 \<le> e_GetTrain ps" by simp_all
  have "fst (snd (edubtm_SplitInternal c ps mi fp high iitem ritem)) q
        = mem (SplitInternal_loop c (mi fp) fp (pageNo (newPid ps)) high iitem (split_init mi)
                 (to_Two (nSlots (hdr (mi fp)) + 1))) q"
    by (rule edubtm_SplitInternal_mem(5) [OF ok refl refl assms])
  also have "\<dots> = mi q"
    by (simp only: SplitInternal_loop_pack pack_loop_frame [OF assms]) (simp add: split_init_def)
  finally have i: "fst (snd (edubtm_SplitInternal c ps mi fp high iitem ritem)) q = mi q" .
  have "fst (snd (edubtm_SplitLeaf c ps ml root fp high litem ritem)) q
        = mem (SplitLeaf_loop c (ml fp) fp (pageNo (newPid ps)) high litem (split_init ml)
                 (to_Two (nSlots (hdr (ml fp)) + 1))) q"
    by (rule edubtm_SplitLeaf_mem(5) [OF ok refl refl assms])
  also have "\<dots> = ml q"
    by (simp only: SplitLeaf_loop_pack pack_loop_frame [OF assms]) (simp add: split_init_def)
  finally have l: "fst (snd (edubtm_SplitLeaf c ps ml root fp high litem ritem)) q = ml q" .
  from i l show ?thesis by simp
qed

theorem split_frame_witness:
  "(7 :: ShortPageID) \<noteq> 1 \<and> 7 \<noteq> pageNo (newPid ex_store)
   \<and> fst (snd (edubtm_SplitInternal ex_consts ex_store ex_imem 1 3 ex_iitem ex_ritem)) 7 = ex_imem 7
   \<and> fst (snd (edubtm_SplitLeaf ex_consts ex_store ex_lmem ex_root 1 3 ex_litem ex_ritem)) 7 = ex_lnext"
proof -
  have h1: "(7 :: ShortPageID) \<noteq> 1" by simp
  have h2: "7 \<noteq> pageNo (newPid ex_store)" by (simp add: ex_store_def)
  have l: "ex_lmem 7 = ex_lnext" by (simp add: ex_lmem_def)
  show ?thesis
    using split_frame [OF h1 h2, of ex_consts ex_imem 3 ex_iitem ex_ritem ex_lmem ex_root ex_litem]
      h1 h2
    by (simp only: l) simp
qed

text \<open>
  C4. After \<^verbatim>\<open>edubtm_SplitLeaf\<close> has obtained the new page, whatever the page contents,
  the item and \<^verbatim>\<open>high\<close> are: the new page's previous-page link is the source page's
  page number, its next-page link is the link the source page had on entry, and the
  source page's next-page link is the new page's page number.
\<close>

theorem SplitLeaf_chain_links:
  assumes "0 \<le> e_AllocPage ps" "0 \<le> e_Init ps" "0 \<le> e_GetTrain ps"
    and "fp \<noteq> pageNo (newPid ps)"
    and "edubtm_SplitLeaf c ps m root fp high item ritem = (e, m', ritem')"
  shows "prevPage (hdr (m' (pageNo (newPid ps)))) = pageNo (pid (hdr (m fp)))
       \<and> nextPage (hdr (m' (pageNo (newPid ps)))) = nextPage (hdr (m fp))
       \<and> nextPage (hdr (m' fp)) = pageNo (pid (hdr (m' (pageNo (newPid ps)))))"
proof -
  let ?np = "pageNo (newPid ps)"
  let ?s = "SplitLeaf_loop c (m fp) fp ?np high item (split_init m)
              (to_Two (nSlots (hdr (m fp)) + 1))"
  have m': "m' = fst (snd (edubtm_SplitLeaf c ps m root fp high item ritem))"
    using assms(5) by simp
  note pr = edubtm_SplitLeaf_mem [OF assms(1-3) refl m']
  have pidf: "pid (hdr (mem ?s fp)) = pid (hdr (m fp))"
    by (simp only: SplitLeaf_loop_pack pack_loop_pid) (simp add: split_init_def)
  have nxf: "nextPage (hdr (mem ?s fp)) = nextPage (hdr (m fp))"
    by (simp only: SplitLeaf_loop_pack pack_loop_links) (simp add: split_init_def)
  show ?thesis
    by (simp only: pr(8) [OF assms(4)] pr(9) [OF assms(4)] pr(10) [OF assms(4)] pr(4) pidf nxf)
qed

theorem SplitLeaf_chain_links_witness:
  "0 \<le> e_AllocPage ex_store \<and> 0 \<le> e_Init ex_store \<and> 0 \<le> e_GetTrain ex_store
   \<and> 1 \<noteq> pageNo (newPid ex_store)
   \<and> prevPage (hdr (fst (snd (edubtm_SplitLeaf ex_consts ex_store ex_lmem ex_root 1 3 ex_litem ex_ritem)) 2)) = 1
   \<and> nextPage (hdr (fst (snd (edubtm_SplitLeaf ex_consts ex_store ex_lmem ex_root 1 3 ex_litem ex_ritem)) 2)) = 7
   \<and> nextPage (hdr (fst (snd (edubtm_SplitLeaf ex_consts ex_store ex_lmem ex_root 1 3 ex_litem ex_ritem)) 1))
       = pageNo (pid (hdr (fst (snd (edubtm_SplitLeaf ex_consts ex_store ex_lmem ex_root 1 3 ex_litem ex_ritem)) 2)))"
proof -
  have ok: "0 \<le> e_AllocPage ex_store" "0 \<le> e_Init ex_store" "0 \<le> e_GetTrain ex_store"
    by (simp_all add: ex_store_def)
  have ne: "1 \<noteq> pageNo (newPid ex_store)" by (simp add: ex_store_def)
  have np: "pageNo (newPid ex_store) = 2" by (simp add: ex_store_def)
  have f: "pageNo (pid (hdr (ex_lmem 1))) = 1" "nextPage (hdr (ex_lmem 1)) = 7"
    by (simp_all add: ex_lmem_def ex_lpage_def)
  have eq: "edubtm_SplitLeaf ex_consts ex_store ex_lmem ex_root 1 3 ex_litem ex_ritem
            = (fst (edubtm_SplitLeaf ex_consts ex_store ex_lmem ex_root 1 3 ex_litem ex_ritem),
               fst (snd (edubtm_SplitLeaf ex_consts ex_store ex_lmem ex_root 1 3 ex_litem ex_ritem)),
               snd (snd (edubtm_SplitLeaf ex_consts ex_store ex_lmem ex_root 1 3 ex_litem ex_ritem)))"
    by simp
  show ?thesis
    using SplitLeaf_chain_links [OF ok ne eq] ok ne
    by (simp only: np f) simp
qed

section \<open>Entry counts and order\<close>

text \<open>
  The two stored counts add up to the number of iterations, after either splitter: every
  entry the loop has copied is counted in exactly one of the two pages. For a source
  page with \<open>n < 65535\<close> entries that is \<open>n + 1\<close>.
\<close>

lemma split_nSlots_sum:
  assumes "0 \<le> e_AllocPage ps" "0 \<le> e_Init ps" "0 \<le> e_GetTrain ps"
    and "fp \<noteq> pageNo (newPid ps)"
    and "edubtm_SplitInternal c ps mi fp ih iitem ritem = (ei, mi', ri)"
    and "edubtm_SplitLeaf c ps ml root fp lh litem ritem = (el, ml', rl)"
  shows "nSlots (hdr (mi' fp)) + nSlots (hdr (mi' (pageNo (newPid ps))))
           = to_Two (nSlots (hdr (mi fp)) + 1)"
    and "nSlots (hdr (ml' fp)) + nSlots (hdr (ml' (pageNo (newPid ps))))
           = to_Two (nSlots (hdr (ml fp)) + 1)"
proof -
  let ?np = "pageNo (newPid ps)"
  let ?si = "SplitInternal_loop c (mi fp) fp ?np ih iitem (split_init mi)
               (to_Two (nSlots (hdr (mi fp)) + 1))"
  let ?sl = "SplitLeaf_loop c (ml fp) fp ?np lh litem (split_init ml)
               (to_Two (nSlots (hdr (ml fp)) + 1))"
  have mi': "mi' = fst (snd (edubtm_SplitInternal c ps mi fp ih iitem ritem))"
    using assms(5) by simp
  have ml': "ml' = fst (snd (edubtm_SplitLeaf c ps ml root fp lh litem ritem))"
    using assms(6) by simp
  note pi = edubtm_SplitInternal_mem [OF assms(1-3) refl mi']
  note pl = edubtm_SplitLeaf_mem [OF assms(1-3) refl ml']
  have ji: "j ?si + k ?si = to_Two (nSlots (hdr (mi fp)) + 1)"
    by (simp only: SplitInternal_loop_pack pack_loop_j_k)
  have jl: "j ?sl + k ?sl = to_Two (nSlots (hdr (ml fp)) + 1)"
    by (simp only: SplitLeaf_loop_pack pack_loop_j_k)
  show "nSlots (hdr (mi' fp)) + nSlots (hdr (mi' ?np)) = to_Two (nSlots (hdr (mi fp)) + 1)"
    by (simp only: pi(6) pi(7) [OF assms(4)] ji)
  show "nSlots (hdr (ml' fp)) + nSlots (hdr (ml' ?np)) = to_Two (nSlots (hdr (ml fp)) + 1)"
    by (simp only: pl(6) [OF assms(4)] pl(7) [OF assms(4)] jl)
qed

text \<open>
  C3, as the code has it. For a split whose copies stay inside the two pages, with
  \<open>high\<close> between 1 and \<open>n + 1\<close>: the entries of the source page in slot order followed
  by the entries of the new page in slot order are the \<open>n\<close> original entries with the
  new entry put at position \<open>high\<close>. For \<^verbatim>\<open>edubtm_SplitInternal\<close> this holds for every
  page; for \<^verbatim>\<open>edubtm_SplitLeaf\<close> it holds when each leaf entry and the new item hold
  exactly one object identifier, which is all a leaf copy carries.
\<close>

theorem split_order_preserved:
  assumes "0 \<le> e_AllocPage ps" "0 \<le> e_Init ps" "0 \<le> e_GetTrain ps"
    and "fp \<noteq> pageNo (newPid ps)"
  shows "(wf_internal (mi fp) \<and> wf_InternalItem c iitem
            \<and> 1 \<le> ih \<and> ih \<le> int (nSlots (hdr (mi fp))) + 1
            \<and> edubtm_SplitInternal c ps mi fp ih iitem ritem = (ei, mi', ri)
            \<and> split_fits mi mi' fp (pageNo (newPid ps))
          \<longrightarrow> internal_entries (mi' fp) @ internal_entries (mi' (pageNo (newPid ps)))
                = merged ih (InternalItem_entry iitem) (internal_entries (mi fp)))
       \<and> (wf_leaf c (ml fp) \<and> wf_LeafItem c litem
            \<and> 1 \<le> lh \<and> lh \<le> int (nSlots (hdr (ml fp))) + 1
            \<and> edubtm_SplitLeaf c ps ml root fp lh litem ritem = (el, ml', rl)
            \<and> split_fits ml ml' fp (pageNo (newPid ps))
          \<longrightarrow> leaf_entries c (ml' fp) @ leaf_entries c (ml' (pageNo (newPid ps)))
                = merged lh (LeafItem_entry litem) (leaf_entries c (ml fp)))"
proof (intro conjI impI)
  assume a: "wf_internal (mi fp) \<and> wf_InternalItem c iitem
            \<and> 1 \<le> ih \<and> ih \<le> int (nSlots (hdr (mi fp))) + 1
            \<and> edubtm_SplitInternal c ps mi fp ih iitem ritem = (ei, mi', ri)
            \<and> split_fits mi mi' fp (pageNo (newPid ps))"
  then have m': "mi' = fst (snd (edubtm_SplitInternal c ps mi fp ih iitem ritem))" by simp
  from a have wf: "wf_internal (mi fp)" and it: "wf_InternalItem c iitem"
    and h1: "1 \<le> ih" and h2: "ih \<le> int (nSlots (hdr (mi fp))) + 1" by simp_all
  note e = SplitInternal_entries [OF assms wf it h1 h2 refl m']
  show "internal_entries (mi' fp) @ internal_entries (mi' (pageNo (newPid ps)))
        = merged ih (InternalItem_entry iitem) (internal_entries (mi fp))"
    by (simp only: e(1) e(2) append_take_drop_id)
next
  assume a: "wf_leaf c (ml fp) \<and> wf_LeafItem c litem
            \<and> 1 \<le> lh \<and> lh \<le> int (nSlots (hdr (ml fp))) + 1
            \<and> edubtm_SplitLeaf c ps ml root fp lh litem ritem = (el, ml', rl)
            \<and> split_fits ml ml' fp (pageNo (newPid ps))"
  then have m': "ml' = fst (snd (edubtm_SplitLeaf c ps ml root fp lh litem ritem))" by simp
  from a have wf: "wf_leaf c (ml fp)" and it: "wf_LeafItem c litem"
    and h1: "1 \<le> lh" and h2: "lh \<le> int (nSlots (hdr (ml fp))) + 1" by simp_all
  note e = SplitLeaf_entries [OF assms wf it h1 h2 refl m']
  show "leaf_entries c (ml' fp) @ leaf_entries c (ml' (pageNo (newPid ps)))
        = merged lh (LeafItem_entry litem) (leaf_entries c (ml fp))"
    by (simp only: e(1) e(2) append_take_drop_id)
qed

lemma ex_internal_fits:
  "split_fits ex_imem (fst (snd (edubtm_SplitInternal ex_consts ex_store ex_imem 1 3 ex_iitem ex_ritem)))
     1 2"
proof -
  have ok: "0 \<le> e_AllocPage ex_store" "0 \<le> e_Init ex_store" "0 \<le> e_GetTrain ex_store"
    by (simp_all add: ex_store_def)
  have np: "pageNo (newPid ex_store) = 2" by (simp add: ex_store_def)
  have n: "to_Two (nSlots (hdr (ex_imem 1)) + 1) = 5" by (simp add: to_Two_def ex_imem_def ex_ipage_def)
  note pr = edubtm_SplitInternal_mem(3) [OF ok refl refl, where c = ex_consts and m = ex_imem
      and fp = 1 and high = 3 and item = ex_iitem and ritem = ex_ritem, unfolded np n]
  have f1: "free (hdr (mem (SplitInternal_loop ex_consts (ex_imem 1) 1 2 3 ex_iitem (split_init ex_imem) 5) 1)) = 20"
    by (simp add: ex_eval)
  have f2: "free (hdr (mem (SplitInternal_loop ex_consts (ex_imem 1) 1 2 3 ex_iitem (split_init ex_imem) 5) 2)) = 30"
    by (simp add: ex_eval)
  have l: "length (data (ex_imem 1)) = 64" "length (data (ex_imem 2)) = 64"
    by (simp_all add: ex_eval)
  show ?thesis
    by (simp only: split_fits_def pr f1 f2 l) simp
qed

lemma ex_leaf_fits:
  "split_fits ex_lmem (fst (snd (edubtm_SplitLeaf ex_consts ex_store ex_lmem ex_root 1 3 ex_litem ex_ritem)))
     1 2"
proof -
  have ok: "0 \<le> e_AllocPage ex_store" "0 \<le> e_Init ex_store" "0 \<le> e_GetTrain ex_store"
    by (simp_all add: ex_store_def)
  have np: "pageNo (newPid ex_store) = 2" by (simp add: ex_store_def)
  have n: "to_Two (nSlots (hdr (ex_lmem 1)) + 1) = 5" by (simp add: to_Two_def ex_lmem_def ex_lpage_def)
  note pr = edubtm_SplitLeaf_mem(3) [OF ok refl refl, where c = ex_consts and m = ex_lmem
      and root = ex_root and fp = 1 and high = 3 and item = ex_litem and ritem = ex_ritem,
      unfolded np n]
  have f1: "free (hdr (mem (SplitLeaf_loop ex_consts (ex_lmem 1) 1 2 3 ex_litem (split_init ex_lmem) 5) 1)) = 24"
    by (simp add: ex_eval)
  have f2: "free (hdr (mem (SplitLeaf_loop ex_consts (ex_lmem 1) 1 2 3 ex_litem (split_init ex_lmem) 5) 2)) = 36"
    by (simp add: ex_eval)
  have l: "length (data (ex_lmem 1)) = 64" "length (data (ex_lmem 2)) = 64"
    by (simp_all add: ex_eval)
  show ?thesis
    by (simp only: split_fits_def pr f1 f2 l) simp
qed

lemma ex_internal_entries:
  "internal_entries ex_ipage
     = [(101, 4, [10, 0, 0, 0]), (102, 4, [20, 0, 0, 0]), (103, 4, [30, 0, 0, 0]), (104, 4, [40, 0, 0, 0])]"
  by (simp add: internal_entries_def IEntry_at_def ex_eval)

lemma ex_leaf_entries:
  "leaf_entries ex_consts ex_lpage
     = [(1, 4, [10, 0, 0, 0], [1, 0, 0, 0]), (1, 4, [20, 0, 0, 0], [2, 0, 0, 0]),
        (1, 4, [30, 0, 0, 0], [3, 0, 0, 0]), (1, 4, [40, 0, 0, 0], [4, 0, 0, 0])]"
  by (simp add: leaf_entries_def LEntry_at_def ex_eval)

theorem split_order_preserved_witness:
  "0 \<le> e_AllocPage ex_store \<and> 0 \<le> e_Init ex_store \<and> 0 \<le> e_GetTrain ex_store
   \<and> 1 \<noteq> pageNo (newPid ex_store)
   \<and> wf_internal (ex_imem 1) \<and> wf_InternalItem ex_consts ex_iitem
   \<and> (1 :: int) \<le> 3 \<and> 3 \<le> int (nSlots (hdr (ex_imem 1))) + 1
   \<and> split_fits ex_imem (fst (snd (edubtm_SplitInternal ex_consts ex_store ex_imem 1 3 ex_iitem ex_ritem))) 1 2
   \<and> internal_entries (fst (snd (edubtm_SplitInternal ex_consts ex_store ex_imem 1 3 ex_iitem ex_ritem)) 1)
       @ internal_entries (fst (snd (edubtm_SplitInternal ex_consts ex_store ex_imem 1 3 ex_iitem ex_ritem)) 2)
       = [(101, 4, [10, 0, 0, 0]), (102, 4, [20, 0, 0, 0]), (105, 4, [25, 0, 0, 0]),
          (103, 4, [30, 0, 0, 0]), (104, 4, [40, 0, 0, 0])]
   \<and> wf_leaf ex_consts (ex_lmem 1) \<and> wf_LeafItem ex_consts ex_litem
   \<and> 3 \<le> int (nSlots (hdr (ex_lmem 1))) + 1
   \<and> split_fits ex_lmem (fst (snd (edubtm_SplitLeaf ex_consts ex_store ex_lmem ex_root 1 3 ex_litem ex_ritem))) 1 2
   \<and> leaf_entries ex_consts (fst (snd (edubtm_SplitLeaf ex_consts ex_store ex_lmem ex_root 1 3 ex_litem ex_ritem)) 1)
       @ leaf_entries ex_consts (fst (snd (edubtm_SplitLeaf ex_consts ex_store ex_lmem ex_root 1 3 ex_litem ex_ritem)) 2)
       = [(1, 4, [10, 0, 0, 0], [1, 0, 0, 0]), (1, 4, [20, 0, 0, 0], [2, 0, 0, 0]),
          (1, 4, [25, 0, 0, 0], [9, 0, 0, 0]),
          (1, 4, [30, 0, 0, 0], [3, 0, 0, 0]), (1, 4, [40, 0, 0, 0], [4, 0, 0, 0])]"
proof -
  have ok: "0 \<le> e_AllocPage ex_store" "0 \<le> e_Init ex_store" "0 \<le> e_GetTrain ex_store"
    by (simp_all add: ex_store_def)
  have ne: "1 \<noteq> pageNo (newPid ex_store)" by (simp add: ex_store_def)
  have np: "pageNo (newPid ex_store) = 2" by (simp add: ex_store_def)
  have p: "ex_imem 1 = ex_ipage" "ex_lmem 1 = ex_lpage" by (simp_all add: ex_imem_def ex_lmem_def)
  have wi: "wf_internal (ex_imem 1)" by (simp only: p ex_wf)
  have wl: "wf_leaf ex_consts (ex_lmem 1)" by (simp only: p ex_wfl)
  have h: "(1 :: int) \<le> 3" "3 \<le> int (nSlots (hdr (ex_imem 1))) + 1"
    "3 \<le> int (nSlots (hdr (ex_lmem 1))) + 1"
    by (simp_all add: p ex_ipage_def ex_lpage_def)
  have mi: "merged 3 (InternalItem_entry ex_iitem) (internal_entries (ex_imem 1))
            = [(101, 4, [10, 0, 0, 0]), (102, 4, [20, 0, 0, 0]), (105, 4, [25, 0, 0, 0]),
               (103, 4, [30, 0, 0, 0]), (104, 4, [40, 0, 0, 0])]"
    by (simp add: p ex_internal_entries merged_def InternalItem_entry_def ex_iitem_def)
  have ml: "merged 3 (LeafItem_entry ex_litem) (leaf_entries ex_consts (ex_lmem 1))
            = [(1, 4, [10, 0, 0, 0], [1, 0, 0, 0]), (1, 4, [20, 0, 0, 0], [2, 0, 0, 0]),
               (1, 4, [25, 0, 0, 0], [9, 0, 0, 0]),
               (1, 4, [30, 0, 0, 0], [3, 0, 0, 0]), (1, 4, [40, 0, 0, 0], [4, 0, 0, 0])]"
    by (simp add: p ex_leaf_entries merged_def LeafItem_entry_def ex_litem_def)
  have fi: "split_fits ex_imem (fst (snd (edubtm_SplitInternal ex_consts ex_store ex_imem 1 3 ex_iitem ex_ritem)))
              1 (pageNo (newPid ex_store))"
    by (simp only: np ex_internal_fits)
  have fl: "split_fits ex_lmem (fst (snd (edubtm_SplitLeaf ex_consts ex_store ex_lmem ex_root 1 3 ex_litem ex_ritem)))
              1 (pageNo (newPid ex_store))"
    by (simp only: np ex_leaf_fits)
  have ei: "edubtm_SplitInternal ex_consts ex_store ex_imem 1 3 ex_iitem ex_ritem
            = (fst (edubtm_SplitInternal ex_consts ex_store ex_imem 1 3 ex_iitem ex_ritem),
               fst (snd (edubtm_SplitInternal ex_consts ex_store ex_imem 1 3 ex_iitem ex_ritem)),
               snd (snd (edubtm_SplitInternal ex_consts ex_store ex_imem 1 3 ex_iitem ex_ritem)))"
    by simp
  have el: "edubtm_SplitLeaf ex_consts ex_store ex_lmem ex_root 1 3 ex_litem ex_ritem
            = (fst (edubtm_SplitLeaf ex_consts ex_store ex_lmem ex_root 1 3 ex_litem ex_ritem),
               fst (snd (edubtm_SplitLeaf ex_consts ex_store ex_lmem ex_root 1 3 ex_litem ex_ritem)),
               snd (snd (edubtm_SplitLeaf ex_consts ex_store ex_lmem ex_root 1 3 ex_litem ex_ritem)))"
    by simp
  note t = split_order_preserved [OF ok ne, where c = ex_consts and ritem = ex_ritem
      and mi = ex_imem and iitem = ex_iitem and ih = 3
      and ei = "fst (edubtm_SplitInternal ex_consts ex_store ex_imem 1 3 ex_iitem ex_ritem)"
      and mi' = "fst (snd (edubtm_SplitInternal ex_consts ex_store ex_imem 1 3 ex_iitem ex_ritem))"
      and ri = "snd (snd (edubtm_SplitInternal ex_consts ex_store ex_imem 1 3 ex_iitem ex_ritem))"
      and ml = ex_lmem and litem = ex_litem and lh = 3 and root = ex_root
      and el = "fst (edubtm_SplitLeaf ex_consts ex_store ex_lmem ex_root 1 3 ex_litem ex_ritem)"
      and ml' = "fst (snd (edubtm_SplitLeaf ex_consts ex_store ex_lmem ex_root 1 3 ex_litem ex_ritem))"
      and rl = "snd (snd (edubtm_SplitLeaf ex_consts ex_store ex_lmem ex_root 1 3 ex_litem ex_ritem))"]
  from t have ci: "internal_entries (fst (snd (edubtm_SplitInternal ex_consts ex_store ex_imem 1 3 ex_iitem ex_ritem)) 1)
       @ internal_entries (fst (snd (edubtm_SplitInternal ex_consts ex_store ex_imem 1 3 ex_iitem ex_ritem)) (pageNo (newPid ex_store)))
       = merged 3 (InternalItem_entry ex_iitem) (internal_entries (ex_imem 1))"
    using wi ex_wfi h fi ei by blast
  from t have cl: "leaf_entries ex_consts (fst (snd (edubtm_SplitLeaf ex_consts ex_store ex_lmem ex_root 1 3 ex_litem ex_ritem)) 1)
       @ leaf_entries ex_consts (fst (snd (edubtm_SplitLeaf ex_consts ex_store ex_lmem ex_root 1 3 ex_litem ex_ritem)) (pageNo (newPid ex_store)))
       = merged 3 (LeafItem_entry ex_litem) (leaf_entries ex_consts (ex_lmem 1))"
    using wl ex_wfli h fl el by blast
  show ?thesis
    using ok ne wi ex_wfi h ex_internal_fits ex_leaf_fits wl ex_wfli
      ci [unfolded np mi] cl [unfolded np ml]
    by blast
qed

text \<open>
  C3 as stated fails for a leaf entry with more than one object identifier: the copy
  of an entry has room for one. On a leaf whose first entry holds the identifiers 1 and
  2, the entry read back after the split has lost the second one.
\<close>

theorem SplitLeaf_two_objects_counterexample:
  "leaf_entries ex_consts
       (fst (snd (edubtm_SplitLeaf ex_consts ex_store ex_lmem2 ex_root 1 3 ex_litem ex_ritem)) 1)
     @ leaf_entries ex_consts
       (fst (snd (edubtm_SplitLeaf ex_consts ex_store ex_lmem2 ex_root 1 3 ex_litem ex_ritem)) 2)
     = [(2, 4, [10, 0, 0, 0], [1, 0, 0, 0, 1, 0, 4, 0]), (1, 4, [20, 0, 0, 0], [3, 0, 0, 0]),
        (1, 4, [25, 0, 0, 0], [9, 0, 0, 0])]
   \<and> merged 3 (LeafItem_entry ex_litem) (leaf_entries ex_consts (ex_lmem2 1))
     = [(2, 4, [10, 0, 0, 0], [1, 0, 0, 0, 2, 0, 0, 0]), (1, 4, [20, 0, 0, 0], [3, 0, 0, 0]),
        (1, 4, [25, 0, 0, 0], [9, 0, 0, 0])]
   \<and> leaf_entries ex_consts
       (fst (snd (edubtm_SplitLeaf ex_consts ex_store ex_lmem2 ex_root 1 3 ex_litem ex_ritem)) 1)
     @ leaf_entries ex_consts
       (fst (snd (edubtm_SplitLeaf ex_consts ex_store ex_lmem2 ex_root 1 3 ex_litem ex_ritem)) 2)
     \<noteq> merged 3 (LeafItem_entry ex_litem) (leaf_entries ex_consts (ex_lmem2 1))"
proof -
  have ok: "0 \<le> e_AllocPage ex_store" "0 \<le> e_Init ex_store" "0 \<le> e_GetTrain ex_store"
    by (simp_all add: ex_store_def)
  have np: "pageNo (newPid ex_store) = 2" by (simp add: ex_store_def)
  have ne: "(1 :: ShortPageID) \<noteq> 2" by simp
  have n: "to_Two (nSlots (hdr (ex_lmem2 1)) + 1) = 3" by (simp add: to_Two_def ex_lmem2_def ex_lpage2_def)
  note pr = edubtm_SplitLeaf_mem [OF ok refl refl, where c = ex_consts and m = ex_lmem2
      and root = ex_root and fp = 1 and high = 3 and item = ex_litem and ritem = ex_ritem,
      unfolded np n]
  let ?s = "SplitLeaf_loop ex_consts (ex_lmem2 1) 1 2 3 ex_litem (split_init ex_lmem2) 3"
  have j: "j ?s = 2" and k: "k ?s = 1" by (simp_all add: ex_eval)
  have d1: "take 24 (data (mem ?s 1))
            = [2, 0, 4, 0, 10, 0, 0, 0, 1, 0, 0, 0, 1, 0, 4, 0, 20, 0, 0, 0, 3, 0, 0, 0]"
    by (simp add: ex_eval)
  have s1: "slot (mem ?s 1) 0 = 0" "slot (mem ?s 1) (- 1) = 12" by (simp_all add: ex_eval)
  have d2: "take 12 (data (mem ?s 2)) = [1, 0, 4, 0, 25, 0, 0, 0, 9, 0, 0, 0]"
    by (simp add: ex_eval)
  have s2: "slot (mem ?s 2) 0 = 0" by (simp add: ex_eval)
  have e10: "LEntry_at ex_consts (data (mem ?s 1)) 0 = LEntry_at ex_consts (take 24 (data (mem ?s 1))) 0"
    by (rule LEntry_at_prefix [where L = 24, symmetric]) (simp_all add: d1 ex_eval)
  have e11: "LEntry_at ex_consts (data (mem ?s 1)) 12
             = LEntry_at ex_consts (drop 12 (take 24 (data (mem ?s 1)))) 0"
    unfolding LEntry_at_drop [of ex_consts "data (mem ?s 1)" 12]
    by (rule LEntry_at_prefix [where L = 12, symmetric])
       (simp_all add: d1 ex_eval)
  have e20: "LEntry_at ex_consts (data (mem ?s 2)) 0 = LEntry_at ex_consts (take 12 (data (mem ?s 2))) 0"
    by (rule LEntry_at_prefix [where L = 12, symmetric]) (simp_all add: d2 ex_eval)
  have a: "leaf_entries ex_consts
             (fst (snd (edubtm_SplitLeaf ex_consts ex_store ex_lmem2 ex_root 1 3 ex_litem ex_ritem)) 1)
           = [(2, 4, [10, 0, 0, 0], [1, 0, 0, 0, 1, 0, 4, 0]), (1, 4, [20, 0, 0, 0], [3, 0, 0, 0])]"
    by (simp only: leaf_entries_def pr(1) pr(2) pr(7) [OF ne] j)
       (simp add: s1 e10 e11 d1 LEntry_at_def ex_eval)
  have b: "leaf_entries ex_consts
             (fst (snd (edubtm_SplitLeaf ex_consts ex_store ex_lmem2 ex_root 1 3 ex_litem ex_ritem)) 2)
           = [(1, 4, [25, 0, 0, 0], [9, 0, 0, 0])]"
    by (simp only: leaf_entries_def pr(1) pr(2) pr(6) [OF ne] k)
       (simp add: s2 e20 d2 LEntry_at_def ex_eval)
  have c: "merged 3 (LeafItem_entry ex_litem) (leaf_entries ex_consts (ex_lmem2 1))
           = [(2, 4, [10, 0, 0, 0], [1, 0, 0, 0, 2, 0, 0, 0]), (1, 4, [20, 0, 0, 0], [3, 0, 0, 0]),
              (1, 4, [25, 0, 0, 0], [9, 0, 0, 0])]"
    by (simp add: merged_def LeafItem_entry_def leaf_entries_def LEntry_at_def ex_eval)
  show ?thesis by (simp only: a b c) simp
qed

section \<open>The partition is a function of the entries\<close>















section \<open>The new page is not left empty\<close>




section \<open>Where the code departs from the specification\<close>

text \<open>
  C1. The key of the up-entry is the key of the entry at the new page's slot 0 in both
  splitters, and \<^verbatim>\<open>edubtm_SplitLeaf\<close> stores the new page's number in \<^verbatim>\<open>ritem->spid\<close>.
  \<^verbatim>\<open>edubtm_SplitInternal\<close> copies the whole entry instead, child included: on the page
  with the keys 10, 20, 30, 40 and the new entry (child 105, key 25) at \<open>high = 3\<close> the
  call succeeds, the new page is page 2, and the up-entry has the key 25 and the page
  number 105.
\<close>

theorem SplitInternal_upentry_at_failing_input:
  "fst (edubtm_SplitInternal ex_consts ex_store ex_imem 1 3 ex_iitem ex_ritem) = eNOERROR
   \<and> klen (snd (snd (edubtm_SplitInternal ex_consts ex_store ex_imem 1 3 ex_iitem ex_ritem))) = 4
   \<and> take 4 (kval (snd (snd (edubtm_SplitInternal ex_consts ex_store ex_imem 1 3 ex_iitem ex_ritem))))
       = [25, 0, 0, 0]
   \<and> spid (snd (snd (edubtm_SplitInternal ex_consts ex_store ex_imem 1 3 ex_iitem ex_ritem))) = 105
   \<and> pageNo (newPid ex_store) = 2
   \<and> pageNo (pid (hdr (fst (snd (edubtm_SplitInternal ex_consts ex_store ex_imem 1 3 ex_iitem ex_ritem)) 2))) = 2"
proof -
  have ok: "0 \<le> e_AllocPage ex_store" "0 \<le> e_Init ex_store" "0 \<le> e_GetTrain ex_store"
    by (simp_all add: ex_store_def)
  have np: "pageNo (newPid ex_store) = 2" by (simp add: ex_store_def)
  have ft: "\<not> e_FreeTrain ex_store < 0" by (simp add: ex_store_def)
  have n: "to_Two (nSlots (hdr (ex_imem 1)) + 1) = 5" by (simp add: to_Two_def ex_imem_def ex_ipage_def)
  let ?s = "SplitInternal_loop ex_consts (ex_imem 1) 1 2 3 ex_iitem (split_init ex_imem) 5"
  have r: "fst (edubtm_SplitInternal ex_consts ex_store ex_imem 1 3 ex_iitem ex_ritem) = eNOERROR"
    using ft by (simp only: edubtm_SplitInternal_ret [OF ok]) simp
  have s0: "slot (mem ?s 2) 0 = 0" by (simp add: ex_eval)
  have d: "take 14 (data (mem ?s 2)) = [105, 0, 0, 0, 4, 0, 25, 0, 0, 0, 103, 0, 0, 0]"
    by (simp add: ex_eval)
  have sz: "sizeof_InternalItem ex_consts = 14" by (simp add: ex_consts_def)
  have ri: "snd (snd (edubtm_SplitInternal ex_consts ex_store ex_imem 1 3 ex_iitem ex_ritem))
            = InternalItem_of_bytes [105, 0, 0, 0, 4, 0, 25, 0, 0, 0, 103, 0, 0, 0]"
    using edubtm_SplitInternal_ritem [OF ok refl, where c = ex_consts and m = ex_imem
        and fp = 1 and high = 3 and item = ex_iitem and ritem = ex_ritem]
    by (simp only: np n s0 sz drop_0 d)
  have p: "pid (hdr (mem ?s 2)) = pid (hdr (ex_imem 2))"
    by (simp only: SplitInternal_loop_pack pack_loop_pid) (simp add: split_init_def)
  have pd: "pageNo (pid (hdr (fst (snd (edubtm_SplitInternal ex_consts ex_store ex_imem 1 3 ex_iitem ex_ritem)) 2))) = 2"
    using edubtm_SplitInternal_mem(4) [OF ok refl refl, where c = ex_consts and m = ex_imem
        and fp = 1 and high = 3 and item = ex_iitem and ritem = ex_ritem and q = 2]
    by (simp only: np n p) (simp add: ex_imem_def ex_inew_def)
  show ?thesis
    by (simp only: r ri np pd)
       (simp add: InternalItem_of_bytes_def Two_of_bytes_def Four_of_bytes_def)
qed

text \<open>
  C2. \<^verbatim>\<open>edubtm_SplitInternal\<close> takes the child of the entry at the new page's slot 0 as
  the new page's \<^verbatim>\<open>hdr.p0\<close> and that entry as the up-entry, but it leaves the entry in
  the new page and counts it: \<^verbatim>\<open>npage->hdr.nSlots = k\<close>, the number of entries copied,
  not one less. On the page with the keys 10, 20, 30, 40 and the new entry (child 105,
  key 25) at \<open>high = 3\<close> the call succeeds and copies three entries to the new page; the
  new page's \<^verbatim>\<open>nSlots\<close> is 3, and the child 105 is both its \<^verbatim>\<open>p0\<close> and the child of
  its keyed entry 0.
\<close>

theorem SplitInternal_sibling_count_at_failing_input:
  "fst (edubtm_SplitInternal ex_consts ex_store ex_imem 1 3 ex_iitem ex_ritem) = eNOERROR
   \<and> nSlots (hdr (ex_imem 1)) = 4
   \<and> k (SplitInternal_loop ex_consts (ex_imem 1) 1 2 3 ex_iitem (split_init ex_imem) 5) = 3
   \<and> nSlots (hdr (fst (snd (edubtm_SplitInternal ex_consts ex_store ex_imem 1 3 ex_iitem ex_ritem)) 1)) = 2
   \<and> nSlots (hdr (fst (snd (edubtm_SplitInternal ex_consts ex_store ex_imem 1 3 ex_iitem ex_ritem)) 2)) = 3
   \<and> p0 (hdr (fst (snd (edubtm_SplitInternal ex_consts ex_store ex_imem 1 3 ex_iitem ex_ritem)) 2)) = 105
   \<and> internal_entries (fst (snd (edubtm_SplitInternal ex_consts ex_store ex_imem 1 3 ex_iitem ex_ritem)) 2)
       = [(105, 4, [25, 0, 0, 0]), (103, 4, [30, 0, 0, 0]), (104, 4, [40, 0, 0, 0])]"
proof -
  have ok: "0 \<le> e_AllocPage ex_store" "0 \<le> e_Init ex_store" "0 \<le> e_GetTrain ex_store"
    by (simp_all add: ex_store_def)
  have np: "pageNo (newPid ex_store) = 2" by (simp add: ex_store_def)
  have ne: "(1 :: ShortPageID) \<noteq> 2" by simp
  have ft: "\<not> e_FreeTrain ex_store < 0" by (simp add: ex_store_def)
  have n0: "nSlots (hdr (ex_imem 1)) = 4" by (simp add: ex_imem_def ex_ipage_def)
  have n: "to_Two (nSlots (hdr (ex_imem 1)) + 1) = 5" by (simp add: to_Two_def ex_imem_def ex_ipage_def)
  let ?s = "SplitInternal_loop ex_consts (ex_imem 1) 1 2 3 ex_iitem (split_init ex_imem) 5"
  note pr = edubtm_SplitInternal_mem [OF ok refl refl, where c = ex_consts and m = ex_imem
      and fp = 1 and high = 3 and item = ex_iitem and ritem = ex_ritem, unfolded np n]
  have r: "fst (edubtm_SplitInternal ex_consts ex_store ex_imem 1 3 ex_iitem ex_ritem) = eNOERROR"
    using ft by (simp only: edubtm_SplitInternal_ret [OF ok]) simp
  have v: "j ?s = 2" "k ?s = 3" "slot (mem ?s 2) 0 = 0" "slot (mem ?s 2) (- 1) = 10"
    "slot (mem ?s 2) (- 2) = 20"
    by (simp_all add: ex_eval)
  have d: "data (mem ?s 2)
           = [105, 0, 0, 0, 4, 0, 25, 0, 0, 0, 103, 0, 0, 0, 4, 0, 30, 0, 0, 0,
              104, 0, 0, 0, 4, 0, 40, 0, 0, 0] @ replicate 34 0"
    by (simp add: ex_eval)
  have p: "IEntry_spid (data (mem ?s 2)) 0 = 105"
    by (simp add: d IEntry_spid_def Four_of_bytes_def)
  have es: "internal_entries (fst (snd (edubtm_SplitInternal ex_consts ex_store ex_imem 1 3 ex_iitem ex_ritem)) 2)
            = [(105, 4, [25, 0, 0, 0]), (103, 4, [30, 0, 0, 0]), (104, 4, [40, 0, 0, 0])]"
    by (simp only: internal_entries_def pr(1) pr(2) pr(6) v)
       (simp add: v d IEntry_at_def IEntry_spid_def IEntry_klen_def Two_of_bytes_def
          Four_of_bytes_def map_upt_numeral)
  show ?thesis
    by (simp only: r n0 v pr(6) pr(7) [OF ne] pr(8) p es simp_thms)
qed

text \<open>
  C5. The leaf that was the source's next page keeps its previous-page link. On the
  chain of page 1 and page 7, a split of page 1 with the new page 2 leaves the next
  links 1, 2, 7 and the previous link of page 7 at page 1 instead of page 2.
\<close>

theorem SplitLeaf_next_leaf_prev_at_failing_input:
  "nextPage (hdr (ex_lmem 1)) = 7 \<and> prevPage (hdr (ex_lmem 7)) = 1
   \<and> fst (edubtm_SplitLeaf ex_consts ex_store ex_lmem ex_root 1 3 ex_litem ex_ritem) = eNOERROR
   \<and> nextPage (hdr (fst (snd (edubtm_SplitLeaf ex_consts ex_store ex_lmem ex_root 1 3 ex_litem ex_ritem)) 1)) = 2
   \<and> prevPage (hdr (fst (snd (edubtm_SplitLeaf ex_consts ex_store ex_lmem ex_root 1 3 ex_litem ex_ritem)) 2)) = 1
   \<and> nextPage (hdr (fst (snd (edubtm_SplitLeaf ex_consts ex_store ex_lmem ex_root 1 3 ex_litem ex_ritem)) 2)) = 7
   \<and> prevPage (hdr (fst (snd (edubtm_SplitLeaf ex_consts ex_store ex_lmem ex_root 1 3 ex_litem ex_ritem)) 7)) = 1"
proof -
  have ok: "0 \<le> e_AllocPage ex_store" "0 \<le> e_Init ex_store" "0 \<le> e_GetTrain ex_store"
    by (simp_all add: ex_store_def)
  have np: "pageNo (newPid ex_store) = 2" by (simp add: ex_store_def)
  have ne: "(1 :: ShortPageID) \<noteq> 2" "(7 :: ShortPageID) \<noteq> 1" "(7 :: ShortPageID) \<noteq> 2"
    by simp_all
  have ft: "\<not> e_FreeTrain ex_store < 0" by (simp add: ex_store_def)
  have n: "to_Two (nSlots (hdr (ex_lmem 1)) + 1) = 5" by (simp add: to_Two_def ex_lmem_def ex_lpage_def)
  let ?s = "SplitLeaf_loop ex_consts (ex_lmem 1) 1 2 3 ex_litem (split_init ex_lmem) 5"
  note pr = edubtm_SplitLeaf_mem [OF ok refl refl, where c = ex_consts and m = ex_lmem
      and root = ex_root and fp = 1 and high = 3 and item = ex_litem and ritem = ex_ritem,
      unfolded np n]
  have r: "fst (edubtm_SplitLeaf ex_consts ex_store ex_lmem ex_root 1 3 ex_litem ex_ritem) = eNOERROR"
    using ft by (simp only: edubtm_SplitLeaf_ret [OF ok]) simp
  have pd: "pid (hdr (mem ?s q)) = pid (hdr (ex_lmem q))" for q
    by (simp only: SplitLeaf_loop_pack pack_loop_pid) (simp add: split_init_def)
  have lk: "nextPage (hdr (mem ?s q)) = nextPage (hdr (ex_lmem q))" for q
    by (simp only: SplitLeaf_loop_pack pack_loop_links) (simp add: split_init_def)
  have fr: "mem ?s 7 = ex_lmem 7"
    by (simp only: SplitLeaf_loop_pack pack_loop_frame [OF ne(2) ne(3)]) (simp add: split_init_def)
  have v: "nextPage (hdr (ex_lmem 1)) = 7" "prevPage (hdr (ex_lmem 7)) = 1"
    "pageNo (pid (hdr (ex_lmem 1))) = 1" "pageNo (pid (hdr (ex_lmem 2))) = 2"
    by (simp_all add: ex_lmem_def ex_lpage_def ex_lnext_def ex_lnew_def)
  show ?thesis
    by (simp only: r v pr(10) [OF ne(1)] pr(8) [OF ne(1)] pr(9) [OF ne(1)]
          pr(5) [OF ne(2) ne(3)] pd lk fr simp_thms)
qed

text \<open>
  C8. Only the copy of the new item into \<^verbatim>\<open>fpage\<close> uses \<^verbatim>\<open>ALIGNED_LENGTH\<close>; every
  other copy of \<^verbatim>\<open>edubtm_SplitInternal\<close> advances by the raw key length. With 3-byte
  keys, where an aligned entry takes 10 bytes, the entries of the source page end up at
  the offsets 0, 9 and 18 with \<^verbatim>\<open>free\<close> at 27, and the item copied to the new page takes 9
  bytes.
\<close>

theorem SplitInternal_entry_length_at_failing_input:
  "sizeof_ShortPageID + sizeof_Two + ALIGNED_LENGTH ex_consts 3 = 10
   \<and> fst (edubtm_SplitInternal ex_consts ex_store ex_imem3 1 4 ex_iitem3 ex_ritem) = eNOERROR
   \<and> nSlots (hdr (fst (snd (edubtm_SplitInternal ex_consts ex_store ex_imem3 1 4 ex_iitem3 ex_ritem)) 1)) = 3
   \<and> slot (fst (snd (edubtm_SplitInternal ex_consts ex_store ex_imem3 1 4 ex_iitem3 ex_ritem)) 1) 0 = 0
   \<and> slot (fst (snd (edubtm_SplitInternal ex_consts ex_store ex_imem3 1 4 ex_iitem3 ex_ritem)) 1) (- 1) = 9
   \<and> slot (fst (snd (edubtm_SplitInternal ex_consts ex_store ex_imem3 1 4 ex_iitem3 ex_ritem)) 1) (- 2) = 18
   \<and> free (hdr (fst (snd (edubtm_SplitInternal ex_consts ex_store ex_imem3 1 4 ex_iitem3 ex_ritem)) 1)) = 27
   \<and> nSlots (hdr (fst (snd (edubtm_SplitInternal ex_consts ex_store ex_imem3 1 4 ex_iitem3 ex_ritem)) 2)) = 1
   \<and> free (hdr (fst (snd (edubtm_SplitInternal ex_consts ex_store ex_imem3 1 4 ex_iitem3 ex_ritem)) 2)) = 9"
proof -
  have ok: "0 \<le> e_AllocPage ex_store" "0 \<le> e_Init ex_store" "0 \<le> e_GetTrain ex_store"
    by (simp_all add: ex_store_def)
  have np: "pageNo (newPid ex_store) = 2" by (simp add: ex_store_def)
  have ne: "(1 :: ShortPageID) \<noteq> 2" by simp
  have ft: "\<not> e_FreeTrain ex_store < 0" by (simp add: ex_store_def)
  have n: "to_Two (nSlots (hdr (ex_imem3 1)) + 1) = 4" by (simp add: to_Two_def ex_imem3_def ex_ipage3_def)
  let ?s = "SplitInternal_loop ex_consts (ex_imem3 1) 1 2 4 ex_iitem3 (split_init ex_imem3) 4"
  note pr = edubtm_SplitInternal_mem [OF ok refl refl, where c = ex_consts and m = ex_imem3
      and fp = 1 and high = 4 and item = ex_iitem3 and ritem = ex_ritem, unfolded np n]
  have r: "fst (edubtm_SplitInternal ex_consts ex_store ex_imem3 1 4 ex_iitem3 ex_ritem) = eNOERROR"
    using ft by (simp only: edubtm_SplitInternal_ret [OF ok]) simp
  have a: "sizeof_ShortPageID + sizeof_Two + ALIGNED_LENGTH ex_consts 3 = 10"
    by (simp add: ex_consts_def sizeof_ShortPageID_def sizeof_Two_def)
  have v: "j ?s = 3" "k ?s = 1" "slot (mem ?s 1) 0 = 0" "slot (mem ?s 1) (- 1) = 9"
    "slot (mem ?s 1) (- 2) = 18" "free (hdr (mem ?s 1)) = 27" "free (hdr (mem ?s 2)) = 9"
    by (simp_all add: ex_eval)
  show ?thesis
    by (simp only: a r pr(2) pr(3) pr(6) pr(7) [OF ne] v simp_thms)
qed

end
